(* ===== verification/GoBase.thy ===== *)
theory GoBase
  imports Main "HOL-Library.Char_ord" "HOL-Library.List_Lexorder" "HOL-Library.Sublist"
begin

text \<open>
  The prelude of the development: what the components share of the Go language and its
  standard library.  Fallible calls are values of a sum type (\<open>Inl\<close> the error), composed
  with \<open>rbind\<close>.  A Go \<open>string\<close> is a list of bytes (\<^typ>\<open>char\<close>); the case-mapping and trimming
  functions act on the ASCII range, bytes outside it are left alone.  A Go map
  is an association list with strictly increasing keys: the representation is canonical, so
  \<open>maps.Equal\<close> is equality, and \<open>sort.Strings\<close> over the keys is the list itself.  A nil map or
  nil slice, where the code tells it from an empty one, is \<^term>\<open>None\<close>.
\<close>

named_theorems result_iff \<open>when a composed fallible call returns a value or an error\<close>
named_theorems gomap_simps \<open>lookup laws of Go maps\<close>
named_theorems str_simps \<open>laws of the Go string functions\<close>

section \<open>Results\<close>

type_synonym ('e, 'a) result = "'e + 'a"

definition rbind :: "'e + 'a \<Rightarrow> ('a \<Rightarrow> 'e + 'b) \<Rightarrow> 'e + 'b" where
  "rbind m f = (case m of Inl e \<Rightarrow> Inl e | Inr x \<Rightarrow> f x)"

lemma rbind_simps [simp]:
  "rbind (Inl e) f = Inl e"
  "rbind (Inr x) f = f x"
  by (simp_all add: rbind_def)

lemma rbind_Inr_iff [result_iff]:
  "rbind m f = Inr y \<longleftrightarrow> (\<exists>x. m = Inr x \<and> f x = Inr y)"
  by (cases m) simp_all

lemma rbind_Inl_iff [result_iff]:
  "rbind m f = Inl e \<longleftrightarrow> m = Inl e \<or> (\<exists>x. m = Inr x \<and> f x = Inl e)"
  by (cases m) simp_all

lemma rbind_cong [fundef_cong]:
  assumes "m = m'" and "\<And>x. m' = Inr x \<Longrightarrow> f x = g x"
  shows "rbind m f = rbind m' g"
  using assms by (cases m') simp_all

definition is_ok :: "'e + 'a \<Rightarrow> bool" where
  "is_ok m = (case m of Inl _ \<Rightarrow> False | Inr _ \<Rightarrow> True)"

lemma is_ok_simps [simp]: "is_ok (Inl e) = False" "is_ok (Inr x) = True"
  by (simp_all add: is_ok_def)

lemma is_ok_iff: "is_ok m \<longleftrightarrow> (\<exists>x. m = Inr x)"
  by (cases m) simp_all

definition map_err :: "('e \<Rightarrow> 'f) \<Rightarrow> 'e + 'a \<Rightarrow> 'f + 'a" where
  "map_err w m = (case m of Inl e \<Rightarrow> Inl (w e) | Inr x \<Rightarrow> Inr x)"

lemma map_err_simps [simp]: "map_err w (Inl e) = Inl (w e)" "map_err w (Inr x) = Inr x"
  by (simp_all add: map_err_def)

lemma map_err_iff [result_iff]:
  "map_err w m = Inr x \<longleftrightarrow> m = Inr x"
  "map_err w m = Inl f \<longleftrightarrow> (\<exists>e. m = Inl e \<and> f = w e)"
  by (cases m; auto)+

text \<open>A loop \<open>for _, x := range xs\<close> whose body appends a converted element or returns an error.\<close>

fun rmap :: "('a \<Rightarrow> 'e + 'b) \<Rightarrow> 'a list \<Rightarrow> 'e + 'b list" where
  "rmap f [] = Inr []"
| "rmap f (x # xs) = rbind (f x) (\<lambda>y. rbind (rmap f xs) (\<lambda>ys. Inr (y # ys)))"

lemma rmap_Inr_iff [result_iff]:
  "rmap f xs = Inr ys \<longleftrightarrow> list_all2 (\<lambda>x y. f x = Inr y) xs ys"
  by (induction xs arbitrary: ys) (auto simp: result_iff list_all2_Cons1)

lemma rmap_ok_iff: "is_ok (rmap f xs) \<longleftrightarrow> (\<forall>x \<in> set xs. is_ok (f x))"
proof (induction xs)
  case Nil
  then show ?case by simp
next
  case (Cons a xs)
  then show ?case by (cases "f a"; cases "rmap f xs") auto
qed

lemma rmap_append:
  "rmap f (xs @ ys) = rbind (rmap f xs) (\<lambda>as. rbind (rmap f ys) (\<lambda>bs. Inr (as @ bs)))"
proof (induction xs)
  case Nil
  then show ?case by (cases "rmap f ys") simp_all
next
  case (Cons a xs)
  then show ?case by (cases "f a"; cases "rmap f xs"; cases "rmap f ys") simp_all
qed

lemma rmap_length: "rmap f xs = Inr ys \<Longrightarrow> length ys = length xs"
  by (auto simp: rmap_Inr_iff dest: list_all2_lengthD)

text \<open>A loop over a slice that threads a state and may return an error.\<close>

fun rfold :: "('a \<Rightarrow> 's \<Rightarrow> 'e + 's) \<Rightarrow> 'a list \<Rightarrow> 's \<Rightarrow> 'e + 's" where
  "rfold f [] s = Inr s"
| "rfold f (x # xs) s = rbind (f x s) (rfold f xs)"

lemma rfold_append [simp]: "rfold f (xs @ ys) s = rbind (rfold f xs s) (rfold f ys)"
proof (induction xs arbitrary: s)
  case Nil
  then show ?case by simp
next
  case (Cons a xs)
  then show ?case by (cases "f a s") simp_all
qed

lemma rfold_invariant:
  assumes "rfold f xs s = Inr t" and "P s"
    and "\<And>x s s'. x \<in> set xs \<Longrightarrow> P s \<Longrightarrow> f x s = Inr s' \<Longrightarrow> P s'"
  shows "P t"
  using assms
proof (induction xs arbitrary: s)
  case Nil
  then show ?case by simp
next
  case (Cons a xs)
  then obtain s' where "f a s = Inr s'" and "rfold f xs s' = Inr t"
    by (auto simp: result_iff)
  with Cons show ?case by (metis list.set_intros)
qed

lemma two_hits:
  assumes "i < length xs" "j < length xs" "i \<noteq> j" "P (xs ! i)" "P (xs ! j)"
  shows "1 < length (filter P xs)"
proof -
  have "{i, j} \<subseteq> {k. k < length xs \<and> P (xs ! k)}" using assms by auto
  then have "card {i, j} \<le> card {k. k < length xs \<and> P (xs ! k)}"
    by (intro card_mono) auto
  then show ?thesis using assms(3) by (simp add: length_filter_conv_card)
qed

section \<open>Strings\<close>

type_synonym bytes = "char list"

definition to_lower_char :: "char \<Rightarrow> char" where
  "to_lower_char c = (let n = (of_char c :: nat) in if 65 \<le> n \<and> n \<le> 90 then char_of (n + 32) else c)"

definition to_lower :: "string \<Rightarrow> string" where
  "to_lower s = map to_lower_char s"

definition is_upper :: "char \<Rightarrow> bool" where
  "is_upper c \<longleftrightarrow> 65 \<le> (of_char c :: nat) \<and> (of_char c :: nat) \<le> 90"

definition is_lower :: "char \<Rightarrow> bool" where
  "is_lower c \<longleftrightarrow> 97 \<le> (of_char c :: nat) \<and> (of_char c :: nat) \<le> 122"

definition is_digit :: "char \<Rightarrow> bool" where
  "is_digit c \<longleftrightarrow> 48 \<le> (of_char c :: nat) \<and> (of_char c :: nat) \<le> 57"

definition is_letter :: "char \<Rightarrow> bool" where
  "is_letter c \<longleftrightarrow> is_upper c \<or> is_lower c"

definition is_space :: "char \<Rightarrow> bool" where
  "is_space c \<longleftrightarrow> (of_char c :: nat) \<in> {9, 10, 11, 12, 13, 32}"

definition trim_space :: "string \<Rightarrow> string" where
  "trim_space s = rev (dropWhile is_space (rev (dropWhile is_space s)))"

definition has_prefix :: "string \<Rightarrow> string \<Rightarrow> bool" where
  "has_prefix p s \<longleftrightarrow> take (length p) s = p"

definition has_suffix :: "string \<Rightarrow> string \<Rightarrow> bool" where
  "has_suffix p s \<longleftrightarrow> has_prefix (rev p) (rev s)"

definition trim_prefix :: "string \<Rightarrow> string \<Rightarrow> string" where
  "trim_prefix p s = (if has_prefix p s then drop (length p) s else s)"

definition trim_suffix :: "string \<Rightarrow> string \<Rightarrow> string" where
  "trim_suffix p s = (if has_suffix p s then take (length s - length p) s else s)"

text \<open>\<open>strings.Split\<close> with a one-byte separator.\<close>

fun split_on :: "char \<Rightarrow> string \<Rightarrow> string list" where
  "split_on c [] = [[]]"
| "split_on c (x # xs) =
     (if x = c then [] # split_on c xs
      else (case split_on c xs of [] \<Rightarrow> [[x]] | p # ps \<Rightarrow> (x # p) # ps))"

text \<open>\<open>strings.Cut\<close> with a one-byte separator; \<open>SplitN(s, sep, 2)\<close> has two parts exactly when
  it finds the separator.\<close>

definition cut :: "char \<Rightarrow> string \<Rightarrow> (string \<times> string) option" where
  "cut c s = (case dropWhile (\<lambda>x. x \<noteq> c) s of [] \<Rightarrow> None
              | _ # r \<Rightarrow> Some (takeWhile (\<lambda>x. x \<noteq> c) s, r))"

fun join :: "string \<Rightarrow> string list \<Rightarrow> string" where
  "join sep [] = []"
| "join sep [x] = x"
| "join sep (x # y # xs) = x @ sep @ join sep (y # xs)"

text \<open>\<open>strconv.ParseBool\<close>: \<^term>\<open>None\<close> is the syntax error.\<close>

definition parse_bool :: "string \<Rightarrow> bool option" where
  "parse_bool s =
     (if s \<in> set [''1'', ''t'', ''T'', ''TRUE'', ''true'', ''True''] then Some True
      else if s \<in> set [''0'', ''f'', ''F'', ''FALSE'', ''false'', ''False''] then Some False
      else None)"

text \<open>Decimal printing of a non-negative integer (\<open>%d\<close>, \<open>strconv.Itoa\<close>).\<close>

definition digit :: "nat \<Rightarrow> char" where
  "digit n = char_of (48 + n)"

fun itoa :: "nat \<Rightarrow> string" where
  "itoa n = (if n < 10 then [digit n] else itoa (n div 10) @ [digit (n mod 10)])"

declare itoa.simps [simp del]

fun dec_val :: "string \<Rightarrow> nat" where
  "dec_val [] = 0"
| "dec_val (c # s) = (of_char c - 48) * 10 ^ length s + dec_val s"

lemma dec_val_append: "dec_val (s @ t) = dec_val s * 10 ^ length t + dec_val t"
  by (induction s) (auto simp: algebra_simps power_add)

lemma of_char_digit: "n < 10 \<Longrightarrow> of_char (digit n) = 48 + n"
  by (simp add: digit_def)

lemma dec_val_itoa [simp]: "dec_val (itoa n) = n"
proof (induction n rule: itoa.induct)
  case (1 n)
  show ?case
  proof (cases "n < 10")
    case True
    then show ?thesis by (simp add: itoa.simps [of n] of_char_digit)
  next
    case False
    with 1 have "dec_val (itoa (n div 10)) = n div 10" by simp
    with False show ?thesis
      by (simp add: itoa.simps [of n] dec_val_append of_char_digit)
  qed
qed

lemma itoa_inj: "itoa m = itoa n \<Longrightarrow> m = n"
  by (metis dec_val_itoa)

lemma itoa_inj_iff [simp]: "itoa m = itoa n \<longleftrightarrow> m = n"
  using itoa_inj by blast

subsection \<open>Laws of the string functions\<close>

lemma is_digit_digit: "n < 10 \<Longrightarrow> is_digit (digit n)"
  by (simp add: is_digit_def of_char_digit)

lemma itoa_digits: "c \<in> set (itoa n) \<Longrightarrow> is_digit c"
proof (induction n rule: itoa.induct)
  case (1 n)
  then show ?case
    by (cases "n < 10") (auto simp: itoa.simps [of n] is_digit_digit)
qed

lemma itoa_nonempty [simp]: "itoa n \<noteq> []"
  by (simp add: itoa.simps [of n])

lemma of_to_lower_char:
  "of_char (to_lower_char c) = (if is_upper c then of_char c + 32 else (of_char c :: nat))"
  by (simp add: to_lower_char_def is_upper_def Let_def)

lemma to_lower_char_id_iff: "to_lower_char c = c \<longleftrightarrow> \<not> is_upper c"
proof -
  have "to_lower_char c = c \<longleftrightarrow> (of_char (to_lower_char c) :: nat) = of_char c"
    by simp
  then show ?thesis by (simp add: of_to_lower_char)
qed

lemma not_upper_to_lower_char [simp]: "\<not> is_upper (to_lower_char c)"
  using of_to_lower_char [of c] by (auto simp: is_upper_def split: if_splits)

lemma to_lower_char_idem [simp]: "to_lower_char (to_lower_char c) = to_lower_char c"
  by (simp add: to_lower_char_id_iff)

lemma to_lower_idem [simp]: "to_lower (to_lower s) = to_lower s"
  by (simp add: to_lower_def)

lemma to_lower_length [simp]: "length (to_lower s) = length s"
  by (simp add: to_lower_def)

lemma to_lower_Nil_iff [simp]: "to_lower s = [] \<longleftrightarrow> s = []"
  by (simp add: to_lower_def)

lemma to_lower_append [simp]: "to_lower (s @ t) = to_lower s @ to_lower t"
  by (simp add: to_lower_def)

lemma to_lower_id_iff: "to_lower s = s \<longleftrightarrow> (\<forall>c \<in> set s. \<not> is_upper c)"
  unfolding to_lower_def by (induction s) (auto simp: to_lower_char_id_iff)

lemma to_lower_itoa [simp]: "to_lower (itoa n) = itoa n"
  using itoa_digits by (force simp: to_lower_id_iff is_digit_def is_upper_def)

lemma split_on_nonempty [simp]: "split_on c s \<noteq> []"
  by (induction s) (auto split: list.splits)

lemma split_on_no_sep [str_simps]: "c \<notin> set s \<Longrightarrow> split_on c s = [s]"
  by (induction s) auto

lemma split_on_append_sep [str_simps]:
  "c \<notin> set s \<Longrightarrow> split_on c (s @ c # t) = s # split_on c t"
  by (induction s) auto

lemma split_on_parts: "p \<in> set (split_on c s) \<Longrightarrow> c \<notin> set p"
proof (induction s arbitrary: p)
  case Nil
  then show ?case by simp
next
  case (Cons x xs)
  obtain q qs where q: "split_on c xs = q # qs"
    using split_on_nonempty by (metis list.exhaust)
  with Cons show ?case by (auto split: if_splits)
qed

lemma split_on_length_iff: "length (split_on c s) = 1 \<longleftrightarrow> c \<notin> set s"
proof (induction s)
  case Nil
  then show ?case by simp
next
  case (Cons x xs)
  obtain q qs where q: "split_on c xs = q # qs"
    using split_on_nonempty by (metis list.exhaust)
  with Cons show ?case by auto
qed

lemma join_split_on: "join [c] (split_on c s) = s"
proof (induction s)
  case Nil
  then show ?case by simp
next
  case (Cons x xs)
  obtain q qs where q: "split_on c xs = q # qs"
    using split_on_nonempty by (metis list.exhaust)
  with Cons show ?case by (cases qs) auto
qed

lemma split_on_join:
  "ps \<noteq> [] \<Longrightarrow> (\<And>p. p \<in> set ps \<Longrightarrow> c \<notin> set p) \<Longrightarrow> split_on c (join [c] ps) = ps"
  by (induction "[c]" ps rule: join.induct) (auto simp: str_simps)

lemma cut_Nil [simp]: "cut c [] = None"
  by (simp add: cut_def)

lemma cut_Cons [simp]:
  "cut c (x # xs) = (if x = c then Some ([], xs) else map_option (\<lambda>(a, b). (x # a, b)) (cut c xs))"
  by (cases "dropWhile (\<lambda>y. y \<noteq> c) xs") (auto simp: cut_def simp del: dropWhile_eq_Nil_conv)

lemma cut_none_iff: "cut c s = None \<longleftrightarrow> c \<notin> set s"
  by (induction s) auto

lemma cut_some: "cut c s = Some (a, b) \<Longrightarrow> s = a @ c # b \<and> c \<notin> set a"
  by (induction s arbitrary: a) (auto split: if_splits)

lemma cut_append [str_simps]: "c \<notin> set a \<Longrightarrow> cut c (a @ c # b) = Some (a, b)"
  by (induction a) auto

lemma has_prefix_iff: "has_prefix p s \<longleftrightarrow> (\<exists>t. s = p @ t)"
  by (auto simp: has_prefix_def) (metis append_take_drop_id)

lemma has_prefix_append [simp]: "has_prefix p (p @ t)"
  by (simp add: has_prefix_def)

lemma has_prefix_Nil [simp]: "has_prefix [] s"
  by (simp add: has_prefix_def)

lemma has_prefix_Cons [simp]:
  "has_prefix (x # xs) (y # ys) \<longleftrightarrow> x = y \<and> has_prefix xs ys"
  "\<not> has_prefix (x # xs) []"
  by (auto simp: has_prefix_def)

section \<open>Maps with ordered keys\<close>

type_synonym ('k, 'v) kvmap = "('k \<times> 'v) list"

type_synonym 'v gomap = "(string, 'v) kvmap"

definition wf_map :: "('k::linorder, 'v) kvmap \<Rightarrow> bool" where
  "wf_map m \<longleftrightarrow> sorted_wrt (<) (map fst m)"

fun mset_key :: "'k::linorder \<Rightarrow> 'v \<Rightarrow> ('k, 'v) kvmap \<Rightarrow> ('k, 'v) kvmap" where
  "mset_key k v [] = [(k, v)]"
| "mset_key k v ((k', v') # m) =
     (if k < k' then (k, v) # (k', v') # m
      else if k = k' then (k, v) # m
      else (k', v') # mset_key k v m)"

definition mget :: "('k::linorder, 'v) kvmap \<Rightarrow> 'k \<Rightarrow> 'v option" where
  "mget m k = map_of m k"

definition mdel :: "'k::linorder \<Rightarrow> ('k, 'v) kvmap \<Rightarrow> ('k, 'v) kvmap" where
  "mdel k m = filter (\<lambda>(k', _). k' \<noteq> k) m"

definition mkeys :: "('k::linorder, 'v) kvmap \<Rightarrow> 'k list" where
  "mkeys m = map fst m"

text \<open>\<open>m[k]\<close> on a map of strings: the zero value where the key is absent.\<close>

definition mstr :: "string gomap \<Rightarrow> string \<Rightarrow> string" where
  "mstr m k = (case mget m k of None \<Rightarrow> [] | Some v \<Rightarrow> v)"

lemma set_mset_key_keys: "fst ` set (mset_key k v m) = insert k (fst ` set m)"
  by (induction m rule: mset_key.induct) auto

lemma wf_map_Nil [simp]: "wf_map []"
  by (simp add: wf_map_def)

lemma wf_map_Cons: "wf_map ((k, v) # m) \<longleftrightarrow> (\<forall>k' \<in> fst ` set m. k < k') \<and> wf_map m"
  by (auto simp: wf_map_def)

lemma wf_map_set [simp]: "wf_map m \<Longrightarrow> wf_map (mset_key k v m)"
  by (induction k v m rule: mset_key.induct)
     (auto simp: wf_map_Cons set_mset_key_keys image_iff dest: order.strict_trans)

lemma wf_map_del [simp]: "wf_map m \<Longrightarrow> wf_map (mdel k m)"
  by (induction m) (auto simp: mdel_def wf_map_Cons)

lemma mget_set [gomap_simps]: "mget (mset_key k v m) k' = (if k' = k then Some v else mget m k')"
  by (induction k v m rule: mset_key.induct) (auto simp: mget_def)

lemma mget_del [gomap_simps]: "mget (mdel k m) k' = (if k' = k then None else mget m k')"
  by (induction m) (auto simp: mget_def mdel_def)

lemma mget_Nil [gomap_simps, simp]: "mget [] k = None"
  by (simp add: mget_def)

lemma mget_None_iff: "mget m k = None \<longleftrightarrow> k \<notin> set (mkeys m)"
  by (simp add: mget_def mkeys_def map_of_eq_None_iff)

lemma distinct_mkeys: "wf_map m \<Longrightarrow> distinct (mkeys m)"
  unfolding wf_map_def mkeys_def using strict_sorted_iff sorted_wrt_mono_rel by blast

lemma mget_Some_iff: "wf_map m \<Longrightarrow> mget m k = Some v \<longleftrightarrow> (k, v) \<in> set m"
  using distinct_mkeys [of m] by (simp add: mget_def mkeys_def)

lemma sorted_mkeys: "wf_map m \<Longrightarrow> sorted (mkeys m)"
  unfolding wf_map_def mkeys_def using strict_sorted_iff by blast

text \<open>The representation is canonical: equal lookups, equal maps.\<close>

lemma alist_keys_unique:
  "map fst m = map fst m' \<Longrightarrow> distinct (map fst m) \<Longrightarrow> set m = set m' \<Longrightarrow> m = m'"
proof (induction m arbitrary: m')
  case Nil
  then show ?case by simp
next
  case (Cons a m)
  then obtain b n where m': "m' = b # n" and ab: "fst a = fst b" and mn: "map fst m = map fst n"
    by (cases m') auto
  have "fst a \<notin> set (map fst m)" and "fst a \<notin> set (map fst n)"
    using Cons.prems(2) mn by simp_all
  then have am: "x \<in> set m \<Longrightarrow> fst x \<noteq> fst a" and an: "x \<in> set n \<Longrightarrow> fst x \<noteq> fst a" for x
    by (metis image_eqI list.set_map)+
  have "b \<in> set (a # m)" using Cons.prems(3) m' by simp
  with ab am have ba: "b = a" by fastforce
  have "set m = set (a # m) - {a}" using am by auto
  moreover have "set n = set m' - {a}" using an m' ba by auto
  ultimately have "set m = set n" using Cons.prems(3) by metis
  moreover have "distinct (map fst m)" using Cons.prems(2) by simp
  ultimately have "m = n" using Cons.IH [OF mn] by simp
  then show ?case using m' ba by simp
qed

lemma gomap_ext:
  assumes "wf_map m" and "wf_map m'" and "\<And>k. mget m k = mget m' k"
  shows "m = m'"
proof -
  have "k \<in> set (mkeys m) \<longleftrightarrow> k \<in> set (mkeys m')" for k
    using assms(3) [of k] mget_None_iff [of m k] mget_None_iff [of m' k] by auto
  then have "set (mkeys m) = set (mkeys m')" by blast
  then have k: "map fst m = map fst m'"
    using sorted_mkeys [OF assms(1)] sorted_mkeys [OF assms(2)]
      distinct_mkeys [OF assms(1)] distinct_mkeys [OF assms(2)]
    by (simp add: mkeys_def sorted_distinct_set_unique)
  have d: "distinct (map fst m)"
    using distinct_mkeys [OF assms(1)] by (simp add: mkeys_def)
  have "map_of m = map_of m'"
    using assms(3) by (auto simp: mget_def)
  then have "set m = set m'"
    using k d map_of_inject_set [of m m'] by simp
  with k d show ?thesis
    by (rule alist_keys_unique)
qed

lemma mset_key_idem: "wf_map m \<Longrightarrow> mget m k = Some v \<Longrightarrow> mset_key k v m = m"
  by (rule gomap_ext) (auto simp: gomap_simps)

lemma mset_key_overwrite: "wf_map m \<Longrightarrow> mset_key k v (mset_key k w m) = mset_key k v m"
  by (rule gomap_ext) (auto simp: gomap_simps)

lemma mdel_set: "wf_map m \<Longrightarrow> mget m k = None \<Longrightarrow> mdel k (mset_key k v m) = m"
  by (rule gomap_ext) (auto simp: gomap_simps)

text \<open>The interface through which the components use a map: lookups after every update, an
  invariant every update keeps, and extensionality under it.\<close>

locale go_map =
  fixes empty :: "'m"
    and get :: "'m \<Rightarrow> 'k \<Rightarrow> 'v option"
    and put :: "'k \<Rightarrow> 'v \<Rightarrow> 'm \<Rightarrow> 'm"
    and del :: "'k \<Rightarrow> 'm \<Rightarrow> 'm"
    and invar :: "'m \<Rightarrow> bool"
  assumes get_empty: "get empty k = None"
    and get_put: "get (put k v m) k' = (if k' = k then Some v else get m k')"
    and get_del: "get (del k m) k' = (if k' = k then None else get m k')"
    and invar_empty: "invar empty"
    and invar_put: "invar m \<Longrightarrow> invar (put k v m)"
    and invar_del: "invar m \<Longrightarrow> invar (del k m)"
    and map_ext: "invar m \<Longrightarrow> invar m' \<Longrightarrow> (\<And>k. get m k = get m' k) \<Longrightarrow> m = m'"
begin

text \<open>A loop that writes every pair of a list into a map: the last write of a key wins.\<close>

definition put_all :: "('k \<times> 'v) list \<Rightarrow> 'm \<Rightarrow> 'm" where
  "put_all kvs m = fold (\<lambda>(k, v). put k v) kvs m"

lemma invar_put_all: "invar m \<Longrightarrow> invar (put_all kvs m)"
  by (induction kvs arbitrary: m) (auto simp: put_all_def invar_put)

lemma get_put_all:
  "get (put_all kvs m) k = (case map_of (rev kvs) k of None \<Rightarrow> get m k | Some v \<Rightarrow> Some v)"
proof (induction kvs arbitrary: m)
  case Nil
  then show ?case by (simp add: put_all_def)
next
  case (Cons a kvs)
  then show ?case
    by (cases a) (auto simp: put_all_def get_put map_add_def split: option.splits)
qed

text \<open>Writing pairs with distinct keys gives the same map in every order: the result of ranging
  over a Go map does not depend on the order in which the runtime visits the keys.\<close>

lemma put_all_order:
  assumes "invar m" and "distinct (map fst kvs)" and "distinct (map fst kvs')"
    and "set kvs = set kvs'"
  shows "put_all kvs m = put_all kvs' m"
proof (rule map_ext)
  show "invar (put_all kvs m)" "invar (put_all kvs' m)"
    using assms(1) by (simp_all add: invar_put_all)
  fix k
  have "map_of (rev kvs) = map_of (rev kvs')"
    using assms map_of_inject_set [of "rev kvs" "rev kvs'"] by (simp add: rev_map [symmetric])
  then show "get (put_all kvs m) k = get (put_all kvs' m) k"
    by (simp add: get_put_all)
qed

lemma put_commute: "invar m \<Longrightarrow> k \<noteq> k' \<Longrightarrow> put k v (put k' v' m) = put k' v' (put k v m)"
  by (rule map_ext) (auto simp: get_put invar_put)

lemma put_same: "invar m \<Longrightarrow> put k v (put k w m) = put k v m"
  by (rule map_ext) (auto simp: get_put invar_put)

lemma del_put: "invar m \<Longrightarrow> get m k = None \<Longrightarrow> del k (put k v m) = m"
  by (rule map_ext) (auto simp: get_put get_del invar_put invar_del)

lemma put_del: "invar m \<Longrightarrow> get m k = Some v \<Longrightarrow> put k v (del k m) = m"
  by (rule map_ext) (auto simp: get_put get_del invar_put invar_del)
end

interpretation gm: go_map "[]" mget mset_key mdel wf_map
  by unfold_locales (auto simp: gomap_simps intro: gomap_ext)

text \<open>Writing the pairs of one map into another (\<open>for k, v := range kvs\<close>).\<close>

definition mput_all :: "('k::linorder \<times> 'v) list \<Rightarrow> ('k, 'v) kvmap \<Rightarrow> ('k, 'v) kvmap" where
  "mput_all kvs m = fold (\<lambda>(k, v). mset_key k v) kvs m"

lemma gm_put_all_eq: "gm.put_all kvs m = mput_all kvs m"
  by (simp add: gm.put_all_def mput_all_def)

lemmas wf_mput_all [simp] = gm.invar_put_all [unfolded gm_put_all_eq]
lemmas mput_all_order = gm.put_all_order [unfolded gm_put_all_eq]

lemma mget_mput_all [gomap_simps]:
  "mget (mput_all kvs m) k = (case map_of (rev kvs) k of None \<Rightarrow> mget m k | Some v \<Rightarrow> Some v)"
  using gm.get_put_all [of kvs m k] by (simp add: gm_put_all_eq)

lemma mget_mput_all_map:
  "wf_map m' \<Longrightarrow> mget (mput_all m' m) k = (case mget m' k of None \<Rightarrow> mget m k | Some v \<Rightarrow> Some v)"
proof -
  assume "wf_map m'"
  then have "distinct (map fst m')" using distinct_mkeys by (simp add: mkeys_def)
  then have "map_of (rev m') = map_of m'"
    using map_of_inject_set [of "rev m'" m'] by (simp add: rev_map [symmetric])
  then show ?thesis by (simp add: mget_mput_all mget_def [of m'])
qed

text \<open>Copying a map key by key gives the map.\<close>

lemma mput_all_Nil_id: "wf_map m \<Longrightarrow> mput_all m [] = m"
  by (rule gomap_ext) (auto simp: mget_mput_all_map split: option.splits)

end
