(* ===== verification/FlagLists.thy ===== *)
theory FlagLists
  imports GoBase "HOL-Library.Multiset"
begin

text \<open>
  The lists of build options (\<open>util/buildflags\<close>): exports, cache options, attestations, secrets and SSH
  keys, with \<open>Equal\<close>, \<open>Normalize\<close> and \<open>Merge\<close>.  Attributes that are a Go map keep the difference
  between nil and empty as an option.  \<open>removeDupes\<close> works in place: its model returns the array after
  the exchanges together with the length of the slice it returns, because some callers go on with the
  slice they passed in.
\<close>

section \<open>Entries\<close>

record ExportEntry =
  ee_Type :: string
  ee_Attrs :: "string gomap option"
  ee_Destination :: string

record CacheOptionsEntry =
  co_Type :: string
  co_Attrs :: "string gomap option"

record Attest =
  at_Type :: string
  at_Disabled :: bool
  at_Attrs :: "string gomap option"

record Secret =
  se_ID :: string
  se_FilePath :: string
  se_Env :: string

record SSH =
  ss_ID :: string
  ss_Paths :: "string list"

text \<open>\<open>maps.Equal\<close> does not distinguish a nil map from an empty one.\<close>

definition mrange :: "'v gomap option \<Rightarrow> 'v gomap" where
  "mrange m = (case m of None \<Rightarrow> [] | Some m \<Rightarrow> m)"

lemma mrange_simps [simp]: "mrange None = []" "mrange (Some m) = m"
  by (simp_all add: mrange_def)

definition ExportEntry_Equal :: "ExportEntry \<Rightarrow> ExportEntry \<Rightarrow> bool" where
  "ExportEntry_Equal e other =
     (if ee_Type e \<noteq> ee_Type other \<or> ee_Destination e \<noteq> ee_Destination other then False
      else mrange (ee_Attrs e) = mrange (ee_Attrs other))"

definition CacheOptionsEntry_Equal :: "CacheOptionsEntry \<Rightarrow> CacheOptionsEntry \<Rightarrow> bool" where
  "CacheOptionsEntry_Equal e other =
     (if co_Type e \<noteq> co_Type other then False else mrange (co_Attrs e) = mrange (co_Attrs other))"

definition Attest_Equal :: "Attest \<Rightarrow> Attest \<Rightarrow> bool" where
  "Attest_Equal a other =
     (if at_Type a \<noteq> at_Type other \<or> at_Disabled a \<noteq> at_Disabled other then False
      else mrange (at_Attrs a) = mrange (at_Attrs other))"

definition Secret_Equal :: "Secret \<Rightarrow> Secret \<Rightarrow> bool" where
  "Secret_Equal s other \<longleftrightarrow> se_ID s = se_ID other \<and> se_FilePath s = se_FilePath other \<and> se_Env s = se_Env other"

text \<open>The three-way comparisons \<open>cmp.Compare\<close> and \<open>slices.Compare\<close>.\<close>

definition cmp_compare :: "'a::linorder \<Rightarrow> 'a \<Rightarrow> int" where
  "cmp_compare a b = (if a < b then - 1 else if b < a then 1 else 0)"

fun slices_compare :: "'a::linorder list \<Rightarrow> 'a list \<Rightarrow> int" where
  "slices_compare [] [] = 0"
| "slices_compare [] (_ # _) = - 1"
| "slices_compare (_ # _) [] = 1"
| "slices_compare (x # xs) (y # ys) = (let c = cmp_compare x y in if c \<noteq> 0 then c else slices_compare xs ys)"

definition SSH_Less :: "SSH \<Rightarrow> SSH \<Rightarrow> int" where
  "SSH_Less s other =
     (if ss_ID s \<noteq> ss_ID other then cmp_compare (ss_ID s) (ss_ID other)
      else slices_compare (ss_Paths s) (ss_Paths other))"

definition SSH_Equal :: "SSH \<Rightarrow> SSH \<Rightarrow> bool" where
  "SSH_Equal s other \<longleftrightarrow> SSH_Less s other = 0"

section \<open>Removing duplicates in place\<close>

text \<open>One round of the outer loop: the first duplicate of element \<open>i\<close> behind it is exchanged with the
  last element of the slice, which is then one shorter.\<close>

definition dupe_step :: "('a \<Rightarrow> 'a \<Rightarrow> bool) \<Rightarrow> nat \<Rightarrow> 'a list \<times> nat \<Rightarrow> 'a list \<times> nat" where
  "dupe_step eq i = (\<lambda>(arr, n).
     case find (\<lambda>j. eq (arr ! i) (arr ! j)) [i + 1..<n] of
       None \<Rightarrow> (arr, n)
     | Some j \<Rightarrow> (arr[j := arr ! (n - 1), n - 1 := arr ! j], n - 1))"

definition removeDupes :: "('a \<Rightarrow> 'a \<Rightarrow> bool) \<Rightarrow> 'a list \<Rightarrow> 'a list \<times> nat" where
  "removeDupes eq s = fold (dupe_step eq) (rev [0..<length s - 1]) (s, length s)"

definition slice_of :: "'a list \<times> nat \<Rightarrow> 'a list" where
  "slice_of = (\<lambda>(arr, n). take n arr)"

text \<open>\<open>Normalize\<close> of the lists that use \<open>removeDupes\<close>.\<close>

definition normalize :: "('a \<Rightarrow> 'a \<Rightarrow> bool) \<Rightarrow> 'a list option \<Rightarrow> 'a list option" where
  "normalize eq s =
     (case s of None \<Rightarrow> None | Some l \<Rightarrow> if l = [] then None else Some (slice_of (removeDupes eq l)))"

text \<open>A call of \<open>Normalize\<close> whose result is dropped: the array keeps the exchanges and its length.\<close>

definition normalize_dropped :: "('a \<Rightarrow> 'a \<Rightarrow> bool) \<Rightarrow> 'a list option \<Rightarrow> 'a list option" where
  "normalize_dropped eq s =
     (case s of None \<Rightarrow> None | Some l \<Rightarrow> Some (if l = [] then [] else fst (removeDupes eq l)))"

section \<open>Normalize and Merge\<close>

definition Exports_Normalize :: "ExportEntry list option \<Rightarrow> ExportEntry list option" where
  "Exports_Normalize = normalize ExportEntry_Equal"

definition Exports_Merge :: "ExportEntry list option \<Rightarrow> ExportEntry list option \<Rightarrow> ExportEntry list option" where
  "Exports_Merge e other =
     (case other of
        None \<Rightarrow> normalize_dropped ExportEntry_Equal e
      | Some o' \<Rightarrow> (case e of None \<Rightarrow> normalize_dropped ExportEntry_Equal other
                   | Some s \<Rightarrow> Exports_Normalize (Some (s @ o'))))"

definition CacheOptions_Normalize :: "CacheOptionsEntry list option \<Rightarrow> CacheOptionsEntry list option" where
  "CacheOptions_Normalize = normalize CacheOptionsEntry_Equal"

definition CacheOptions_Merge ::
  "CacheOptionsEntry list option \<Rightarrow> CacheOptionsEntry list option \<Rightarrow> CacheOptionsEntry list option" where
  "CacheOptions_Merge e other =
     (case other of
        None \<Rightarrow> CacheOptions_Normalize e
      | Some o' \<Rightarrow> (case e of None \<Rightarrow> CacheOptions_Normalize other
                   | Some s \<Rightarrow> CacheOptions_Normalize (Some (s @ o'))))"

definition Secrets_Normalize :: "Secret list option \<Rightarrow> Secret list option" where
  "Secrets_Normalize = normalize Secret_Equal"

definition Secrets_Merge :: "Secret list option \<Rightarrow> Secret list option \<Rightarrow> Secret list option" where
  "Secrets_Merge e other =
     (case other of
        None \<Rightarrow> normalize_dropped Secret_Equal e
      | Some o' \<Rightarrow> (case e of None \<Rightarrow> normalize_dropped Secret_Equal other
                   | Some s \<Rightarrow> Secrets_Normalize (Some (s @ o'))))"

definition SSHKeys_Normalize :: "SSH list option \<Rightarrow> SSH list option" where
  "SSHKeys_Normalize = normalize SSH_Equal"

definition SSHKeys_Merge :: "SSH list option \<Rightarrow> SSH list option \<Rightarrow> SSH list option" where
  "SSHKeys_Merge e other =
     (case other of
        None \<Rightarrow> normalize_dropped SSH_Equal e
      | Some o' \<Rightarrow> (case e of None \<Rightarrow> normalize_dropped SSH_Equal other
                   | Some s \<Rightarrow> SSHKeys_Normalize (Some (s @ o'))))"

text \<open>Attestations are collected by type: a later one replaces an earlier one in its place.\<close>

definition attest_step :: "Attest \<Rightarrow> Attest list \<times> nat gomap \<Rightarrow> Attest list \<times> nat gomap" where
  "attest_step att = (\<lambda>(res, m).
     case mget m (at_Type att) of
       Some i \<Rightarrow> (res[i := att], m)
     | None \<Rightarrow> (res @ [att], mset_key (at_Type att) (length res) m))"

definition removeAttestDupes :: "Attest list \<Rightarrow> Attest list" where
  "removeAttestDupes s = fst (fold attest_step s ([], []))"

definition Attests_Normalize :: "Attest list option \<Rightarrow> Attest list option" where
  "Attests_Normalize a =
     (case a of None \<Rightarrow> None | Some l \<Rightarrow> if l = [] then None else Some (removeAttestDupes l))"

definition Attests_Merge :: "Attest list option \<Rightarrow> Attest list option \<Rightarrow> Attest list option" where
  "Attests_Merge a other =
     (case other of
        None \<Rightarrow> a
      | Some o' \<Rightarrow> (case a of None \<Rightarrow> other | Some s \<Rightarrow> Attests_Normalize (Some (s @ o'))))"

section \<open>The interface of comparable entries\<close>

text \<open>No two entries of the array between \<open>i\<close> and \<open>n\<close> are equal.\<close>

definition no_dupes :: "('a \<Rightarrow> 'a \<Rightarrow> bool) \<Rightarrow> 'a list \<Rightarrow> nat \<Rightarrow> nat \<Rightarrow> bool" where
  "no_dupes eq arr i n \<longleftrightarrow> (\<forall>a b. i \<le> a \<and> a < n \<and> i \<le> b \<and> b < n \<and> a \<noteq> b \<longrightarrow> \<not> eq (arr ! a) (arr ! b))"

text \<open>The state of the outer loop after the elements from \<open>i\<close> on were handled.\<close>

definition dupes_inv :: "('a \<Rightarrow> 'a \<Rightarrow> bool) \<Rightarrow> 'a list \<Rightarrow> nat \<Rightarrow> 'a list \<times> nat \<Rightarrow> bool" where
  "dupes_inv eq s i = (\<lambda>(arr, n). mset arr = mset s \<and> i < n \<and> n \<le> length arr \<and> no_dupes eq arr i n \<and>
     (\<forall>x \<in> set s. \<exists>b < n. eq x (arr ! b)))"

text \<open>What \<open>removeDupes\<close> relies on: \<open>Equal\<close> is an equivalence.\<close>

locale comparable =
  fixes eq :: "'a \<Rightarrow> 'a \<Rightarrow> bool"
  assumes eq_refl: "eq x x"
    and eq_sym: "eq x y \<Longrightarrow> eq y x"
    and eq_trans: "eq x y \<Longrightarrow> eq y z \<Longrightarrow> eq x z"
begin

lemma dupe_step_swap:
  assumes inv: "dupes_inv eq s (i + 1) (arr, n)" and j: "i < j" "j < n" "eq (arr ! i) (arr ! j)"
  shows "dupes_inv eq s i (arr[j := arr ! (n - 1), n - 1 := arr ! j], n - 1)"
proof -
  define arr' where "arr' = arr[j := arr ! (n - 1), n - 1 := arr ! j]"
  define pos where "pos = (\<lambda>k. if k = j then n - 1 else k)"
  have len: "n \<le> length arr" "i + 1 < n" using inv by (auto simp: dupes_inv_def)
  have old: "\<forall>x \<in> set s. \<exists>b < n. eq x (arr ! b)" using inv by (simp add: dupes_inv_def)
  have at: "arr' ! k = arr ! pos k" if "k < n - 1" for k
    using that len j by (auto simp: arr'_def pos_def nth_list_update)
  have ne: "\<not> eq (arr ! a) (arr ! b)" if "i < a" "a < n" "i < b" "b < n" "a \<noteq> b" for a b
    using inv that by (auto simp: dupes_inv_def no_dupes_def)
  have new: "\<not> eq (arr ! i) (arr ! b)" if "i < b" "b < n" "b \<noteq> j" for b
    using ne [of j b] that j eq_sym eq_trans by blast
  have "\<not> eq (arr ! pos a) (arr ! pos b)" if "i \<le> a" "a < n - 1" "i \<le> b" "b < n - 1" "a \<noteq> b" for a b
  proof -
    have p: "pos a \<noteq> pos b" "pos a < n" "pos b < n" "pos a \<noteq> j" "pos b \<noteq> j" "i \<le> pos a" "i \<le> pos b"
      using that j by (auto simp: pos_def)
    show ?thesis
    proof (cases "pos a = i")
      case True
      then show ?thesis using new [of "pos b"] p by auto
    next
      case False
      then show ?thesis
        using new [of "pos a"] ne [of "pos a" "pos b"] p eq_sym by (cases "pos b = i") auto
    qed
  qed
  then have nd: "no_dupes eq arr' i (n - 1)" unfolding no_dupes_def by (intro allI impI) (simp add: at)
  have cover: "\<exists>b < n - 1. eq x (arr' ! b)" if "x \<in> set s" for x
  proof -
    from bspec [OF old that] obtain b where b: "b < n" "eq x (arr ! b)" by (elim exE conjE)
    consider "b = j" | "b \<noteq> j" "b = n - 1" | "b \<noteq> j" "b < n - 1" 
      using b(1) by (cases "b = j"; cases "b = n - 1") auto
    then show ?thesis
    proof cases
      case 1
      have "arr' ! i = arr ! i" using at [of i] j by (simp add: pos_def)
      moreover have "eq x (arr ! i)" using eq_trans [OF b(2), of "arr ! i"] eq_sym [OF j(3)] 1 by simp
      ultimately show ?thesis using j by (intro exI [of _ i]) auto
    next
      case 2
      then have "arr' ! j = arr ! b" using at [of j] j by (auto simp: pos_def)
      then show ?thesis using 2 b j by (intro exI [of _ j]) auto
    next
      case 3
      then show ?thesis using b at [of b] by (intro exI [of _ b]) (auto simp: pos_def)
    qed
  qed
  have "mset arr' = mset arr" unfolding arr'_def using len j by (intro mset_swap) auto
  then show ?thesis using inv nd cover j len by (auto simp: dupes_inv_def arr'_def)
qed

lemma dupe_step_inv:
  assumes inv: "dupes_inv eq s (i + 1) st"
  shows "dupes_inv eq s i (dupe_step eq i st)"
proof (cases st)
  case (Pair arr n)
  show ?thesis
  proof (cases "find (\<lambda>j. eq (arr ! i) (arr ! j)) [i + 1..<n]")
    case None
    then have new: "\<not> eq (arr ! i) (arr ! j)" if "i < j" "j < n" for j
      using that by (auto simp: find_None_iff)
    have "\<not> eq (arr ! a) (arr ! b)" if "i \<le> a" "a < n" "i \<le> b" "b < n" "a \<noteq> b" for a b
    proof (cases "a = i \<or> b = i")
      case True
      then show ?thesis using new [of a] new [of b] that eq_sym by auto
    next
      case False
      then show ?thesis using inv that by (auto simp: dupes_inv_def no_dupes_def Pair)
    qed
    then show ?thesis using inv None by (auto simp: dupe_step_def Pair dupes_inv_def no_dupes_def)
  next
    case (Some j)
    then have "i < j" "j < n" "eq (arr ! i) (arr ! j)" by (auto simp: find_Some_iff)
    with dupe_step_swap [of s i arr n j] inv Some show ?thesis by (auto simp: dupe_step_def Pair)
  qed
qed

lemma removeDupes_inv:
  assumes "s \<noteq> []"
  shows "dupes_inv eq s 0 (removeDupes eq s)"
proof -
  have "dupes_inv eq s 0 (fold (dupe_step eq) (rev [0..<k]) st)" if "dupes_inv eq s k st" for k st
    using that
  proof (induction k arbitrary: st)
    case (Suc k)
    from Suc.IH [OF dupe_step_inv [of s k st]] Suc.prems show ?case by simp
  qed simp
  moreover have "\<exists>b < length s. eq x (s ! b)" if "x \<in> set s" for x
    using that eq_refl by (metis in_set_conv_nth)
  then have "dupes_inv eq s (length s - 1) (s, length s)"
    using assms by (auto simp: dupes_inv_def no_dupes_def)
  ultimately show ?thesis by (simp add: removeDupes_def)
qed

lemma removeDupes_slice:
  assumes "s \<noteq> []"
  shows "slice_of (removeDupes eq s) \<noteq> []" and "mset (slice_of (removeDupes eq s)) \<subseteq># mset s"
    and "a < length (slice_of (removeDupes eq s)) \<Longrightarrow> b < length (slice_of (removeDupes eq s)) \<Longrightarrow> a \<noteq> b \<Longrightarrow>
      \<not> eq (slice_of (removeDupes eq s) ! a) (slice_of (removeDupes eq s) ! b)"
    and "x \<in> set s \<Longrightarrow> \<exists>y \<in> set (slice_of (removeDupes eq s)). eq x y"
    and "mset (fst (removeDupes eq s)) = mset s"
proof -
  obtain arr n where r: "removeDupes eq s = (arr, n)" by fastforce
  have inv: "dupes_inv eq s 0 (arr, n)" using removeDupes_inv [OF assms] r by simp
  then show "slice_of (removeDupes eq s) \<noteq> []" by (auto simp: r slice_of_def dupes_inv_def)
  have "mset arr = mset (take n arr) + mset (drop n arr)" by (metis append_take_drop_id mset_append)
  with inv show "mset (slice_of (removeDupes eq s)) \<subseteq># mset s"
    by (auto simp: r slice_of_def dupes_inv_def) (metis mset_subset_eq_add_left)
  show "a < length (slice_of (removeDupes eq s)) \<Longrightarrow> b < length (slice_of (removeDupes eq s)) \<Longrightarrow> a \<noteq> b \<Longrightarrow>
      \<not> eq (slice_of (removeDupes eq s) ! a) (slice_of (removeDupes eq s) ! b)"
    using inv by (auto simp: r slice_of_def dupes_inv_def no_dupes_def)
  show "\<exists>y \<in> set (slice_of (removeDupes eq s)). eq x y" if "x \<in> set s"
  proof -
    have "\<forall>x \<in> set s. \<exists>b < n. eq x (arr ! b)" using inv by (simp add: dupes_inv_def)
    with that obtain b where "b < n" "eq x (arr ! b)" by blast
    moreover have "n \<le> length arr" using inv by (simp add: dupes_inv_def)
    ultimately show ?thesis by (auto simp: r slice_of_def in_set_conv_nth intro!: bexI [of _ "arr ! b"] exI [of _ b])
  qed
  show "mset (fst (removeDupes eq s)) = mset s" using inv by (simp add: r dupes_inv_def)
qed

end

text \<open>Entries whose \<open>Equal\<close> compares a key: the result is a list of distinct keys, those of the input.\<close>

locale keyed = comparable eq for eq :: "'a \<Rightarrow> 'a \<Rightarrow> bool" +
  fixes key :: "'a \<Rightarrow> 'k"
  assumes eq_key: "eq x y \<longleftrightarrow> key x = key y"
begin

lemma removeDupes_keys:
  assumes "s \<noteq> []"
  shows "distinct (map key (slice_of (removeDupes eq s)))"
    and "key ` set (slice_of (removeDupes eq s)) = key ` set s"
proof -
  note r = removeDupes_slice [OF assms]
  show "distinct (map key (slice_of (removeDupes eq s)))"
    using r(3) by (simp add: distinct_conv_nth eq_key)
  have "set (slice_of (removeDupes eq s)) \<subseteq> set s" using r(2) by (metis set_mset_mono set_mset_mset)
  then show "key ` set (slice_of (removeDupes eq s)) = key ` set s"
    using r(4) by (fastforce simp: eq_key)
qed

end

section \<open>The entries are comparable\<close>

definition ee_key :: "ExportEntry \<Rightarrow> string \<times> string \<times> string gomap" where
  "ee_key e = (ee_Type e, ee_Destination e, mrange (ee_Attrs e))"

definition co_key :: "CacheOptionsEntry \<Rightarrow> string \<times> string gomap" where
  "co_key e = (co_Type e, mrange (co_Attrs e))"

definition at_key :: "Attest \<Rightarrow> string \<times> bool \<times> string gomap" where
  "at_key a = (at_Type a, at_Disabled a, mrange (at_Attrs a))"

lemma cmp_compare_0 [simp]: "cmp_compare a b = 0 \<longleftrightarrow> a = b"
  by (auto simp: cmp_compare_def)

lemma slices_compare_0 [simp]: "slices_compare xs ys = 0 \<longleftrightarrow> xs = ys"
  by (induction xs ys rule: slices_compare.induct) (auto simp: Let_def)

lemma SSH_Equal_iff: "SSH_Equal s other \<longleftrightarrow> s = other"
  by (cases s; cases other) (auto simp: SSH_Equal_def SSH_Less_def)

interpretation export_eq: keyed ExportEntry_Equal ee_key
  by unfold_locales (auto simp: ExportEntry_Equal_def ee_key_def split: if_splits)

interpretation cache_eq: keyed CacheOptionsEntry_Equal co_key
  by unfold_locales (auto simp: CacheOptionsEntry_Equal_def co_key_def split: if_splits)

interpretation attest_eq: keyed Attest_Equal at_key
  by unfold_locales (auto simp: Attest_Equal_def at_key_def split: if_splits)

interpretation secret_eq: keyed Secret_Equal "\<lambda>s. s"
  by unfold_locales (auto simp: Secret_Equal_def)

interpretation ssh_eq: keyed SSH_Equal "\<lambda>s. s"
  by unfold_locales (auto simp: SSH_Equal_iff)

section \<open>Attestations by type\<close>

fun first_types :: "string list \<Rightarrow> string list \<Rightarrow> string list" where
  "first_types seen [] = seen"
| "first_types seen (t # ts) = first_types (if t \<in> set seen then seen else seen @ [t]) ts"

lemma first_types_distinct: "distinct seen \<Longrightarrow> distinct (first_types seen ts)"
  by (induction seen ts rule: first_types.induct) auto

lemma first_types_set: "set (first_types seen ts) = set seen \<union> set ts"
  by (induction seen ts rule: first_types.induct) auto

text \<open>The index map says where the attestation of a type stands.\<close>

definition index_ok :: "Attest list \<times> nat gomap \<Rightarrow> bool" where
  "index_ok = (\<lambda>(res, m). distinct (map at_Type res) \<and>
     (\<forall>t i. mget m t = Some i \<longleftrightarrow> i < length res \<and> at_Type (res ! i) = t))"

lemma attest_step_spec:
  assumes "index_ok (res, m)"
  shows "index_ok (attest_step att (res, m))"
    and "map at_Type (fst (attest_step att (res, m))) =
      (if at_Type att \<in> set (map at_Type res) then map at_Type res else map at_Type res @ [at_Type att])"
    and "set (fst (attest_step att (res, m))) = insert att {a \<in> set res. at_Type a \<noteq> at_Type att}"
proof -
  have d: "distinct (map at_Type res)"
    and ix: "mget m t = Some i \<longleftrightarrow> i < length res \<and> at_Type (res ! i) = t" for t i
    using assms by (auto simp: index_ok_def)
  have "index_ok (attest_step att (res, m)) \<and> map at_Type (fst (attest_step att (res, m))) =
      (if at_Type att \<in> set (map at_Type res) then map at_Type res else map at_Type res @ [at_Type att]) \<and>
      set (fst (attest_step att (res, m))) = insert att {a \<in> set res. at_Type a \<noteq> at_Type att}"
  proof (cases "mget m (at_Type att)")
    case None
    have new: "at_Type att \<notin> set (map at_Type res)"
    proof
      assume "at_Type att \<in> set (map at_Type res)"
      then obtain i where "i < length res" "at_Type (res ! i) = at_Type att"
        by (auto simp: in_set_conv_nth)
      with ix have "mget m (at_Type att) = Some i" by blast
      with None show False by simp
    qed
    have new': "at_Type (res ! i) \<noteq> at_Type att" if "i < length res" for i
      using new that by (metis length_map nth_map nth_mem)
    have "mget (mset_key (at_Type att) (length res) m) t = Some i \<longleftrightarrow>
        i < length (res @ [att]) \<and> at_Type ((res @ [att]) ! i) = t" for t i
      using new' ix by (auto simp: gomap_simps nth_append less_Suc_eq)
    moreover have "{a \<in> set res. at_Type a \<noteq> at_Type att} = set res"
      using new' by (auto simp: in_set_conv_nth)
    ultimately show ?thesis using None new d by (simp add: attest_step_def index_ok_def)
  next
    case (Some i)
    then have i: "i < length res" "at_Type (res ! i) = at_Type att" using ix by auto
    then have types: "map at_Type (res[i := att]) = map at_Type res"
      by (simp add: map_update list_update_same_conv)
    have "at_Type (res[i := att] ! k) = at_Type (res ! k)" if "k < length res" for k
      using i that by (auto simp: nth_list_update)
    then have ix': "mget m t = Some k \<longleftrightarrow> k < length (res[i := att]) \<and> at_Type (res[i := att] ! k) = t" for t k
      using ix by auto
    have uniq: "a = res ! i" if "a \<in> set res" "at_Type a = at_Type att" for a
      using d i that by (auto simp: distinct_map inj_on_def)
    have "set (res[i := att]) = insert att (set res - {res ! i})"
      using i d by (simp add: set_update_distinct distinct_map)
    then have "set (res[i := att]) = insert att {a \<in> set res. at_Type a \<noteq> at_Type att}"
      using i uniq by auto
    moreover have "at_Type att \<in> set (map at_Type res)" using i by (metis length_map nth_map nth_mem)
    moreover have "attest_step att (res, m) = (res[i := att], m)" using Some by (simp add: attest_step_def)
    ultimately show ?thesis using types ix' d unfolding index_ok_def by simp
  qed
  then show "index_ok (attest_step att (res, m))"
    and "map at_Type (fst (attest_step att (res, m))) =
      (if at_Type att \<in> set (map at_Type res) then map at_Type res else map at_Type res @ [at_Type att])"
    and "set (fst (attest_step att (res, m))) = insert att {a \<in> set res. at_Type a \<noteq> at_Type att}"
    by blast+
qed

text \<open>The last attestation of each type.\<close>

definition last_of_type :: "Attest list \<Rightarrow> Attest \<Rightarrow> bool" where
  "last_of_type s a \<longleftrightarrow> (\<exists>xs ys. s = xs @ a # ys \<and> (\<forall>b \<in> set ys. at_Type b \<noteq> at_Type a))"

lemma last_of_type_snoc:
  "last_of_type (s @ [att]) a \<longleftrightarrow> a = att \<or> last_of_type s a \<and> at_Type a \<noteq> at_Type att"
proof
  assume "last_of_type (s @ [att]) a"
  then obtain xs ys where e: "s @ [att] = xs @ a # ys" and n: "\<forall>b \<in> set ys. at_Type b \<noteq> at_Type a"
    by (auto simp: last_of_type_def)
  show "a = att \<or> last_of_type s a \<and> at_Type a \<noteq> at_Type att"
  proof (cases ys rule: rev_cases)
    case Nil
    then show ?thesis using e by simp
  next
    case (snoc zs z)
    then have "s = xs @ a # zs" "z = att" using e by auto
    then show ?thesis using n snoc unfolding last_of_type_def by force
  qed
next
  assume "a = att \<or> last_of_type s a \<and> at_Type a \<noteq> at_Type att"
  then show "last_of_type (s @ [att]) a"
  proof
    assume "a = att"
    then show ?thesis unfolding last_of_type_def by (intro exI [of _ s] exI [of _ "[]"]) simp
  next
    assume "last_of_type s a \<and> at_Type a \<noteq> at_Type att"
    then obtain xs ys where "s = xs @ a # ys" "\<forall>b \<in> set ys. at_Type b \<noteq> at_Type a" "at_Type a \<noteq> at_Type att"
      by (auto simp: last_of_type_def)
    then show ?thesis unfolding last_of_type_def by (intro exI [of _ xs] exI [of _ "ys @ [att]"]) auto
  qed
qed

lemma removeAttestDupes_spec:
  "distinct (map at_Type (removeAttestDupes s)) \<and> map at_Type (removeAttestDupes s) = first_types [] (map at_Type s) \<and>
   set (removeAttestDupes s) = {a. last_of_type s a}"
proof -
  have first: "first_types seen (ts @ [t]) =
      (if t \<in> set (first_types seen ts) then first_types seen ts else first_types seen ts @ [t])" for seen ts t
    by (induction seen ts rule: first_types.induct) auto
  have "index_ok (fold attest_step s ([], [])) \<and>
      map at_Type (removeAttestDupes s) = first_types [] (map at_Type s) \<and>
      set (removeAttestDupes s) = {a. last_of_type s a}"
  proof (induction s rule: rev_induct)
    case Nil
    show ?case by (auto simp: removeAttestDupes_def index_ok_def last_of_type_def mget_def)
  next
    case (snoc att s)
    obtain res m where r: "fold attest_step s ([], []) = (res, m)" by fastforce
    with snoc have "index_ok (res, m)" and types: "map at_Type res = first_types [] (map at_Type s)"
      and mem: "set res = {a. last_of_type s a}" by (auto simp: removeAttestDupes_def)
    note step = attest_step_spec [OF this(1), of att]
    have "set (fst (attest_step att (res, m))) = {a. last_of_type (s @ [att]) a}"
      unfolding step(3) mem last_of_type_snoc by auto
    then show ?case
      using step(1,2) types by (simp add: removeAttestDupes_def r first)
  qed
  then show ?thesis by (auto simp: index_ok_def removeAttestDupes_def split: prod.splits)
qed

section \<open>Properties\<close>

definition elems :: "'a list option \<Rightarrow> 'a list" where
  "elems l = (case l of None \<Rightarrow> [] | Some l \<Rightarrow> l)"

lemma elems_simps [simp]: "elems None = []" "elems (Some l) = l"
  by (simp_all add: elems_def)

text \<open>Merging cache options gives a list of entries of the two lists in which
  no entry occurs twice, up to \<open>Equal\<close>, and every entry of the two lists occurs.\<close>

theorem CacheOptions_Merge_spec:
  "distinct (map co_key (elems (CacheOptions_Merge e other))) \<and>
   co_key ` set (elems (CacheOptions_Merge e other)) = co_key ` (set (elems e) \<union> set (elems other)) \<and>
   mset (elems (CacheOptions_Merge e other)) \<subseteq># mset (elems e @ elems other)"
proof -
  have n: "distinct (map co_key (elems (CacheOptions_Normalize l))) \<and>
      co_key ` set (elems (CacheOptions_Normalize l)) = co_key ` set (elems l) \<and>
      mset (elems (CacheOptions_Normalize l)) \<subseteq># mset (elems l)" for l
    using cache_eq.removeDupes_keys cache_eq.removeDupes_slice(2)
    by (cases l) (auto simp: CacheOptions_Normalize_def normalize_def)
  show ?thesis
  proof (cases "e = None \<or> other = None")
    case True
    then show ?thesis 
      using n [of e] n [of other]
      by (cases e; cases other) (simp_all add: CacheOptions_Merge_def)
  next
    case False
    then show ?thesis 
      using n [of "Some (elems e @ elems other)"] by (cases e; cases other) (simp_all add: CacheOptions_Merge_def)
  qed
qed

text \<open>Merging two lists of exports that are both given removes the duplicates in
  the same way; merging with a list that is not given keeps every entry, duplicates included, since
  the normalised list is dropped there.\<close>

theorem Exports_Merge_spec:
  "distinct (map ee_key (elems (Exports_Merge (Some e) (Some other)))) \<and>
   ee_key ` set (elems (Exports_Merge (Some e) (Some other))) = ee_key ` (set e \<union> set other) \<and>
   mset (elems (Exports_Merge l None)) = mset (elems l) \<and> mset (elems (Exports_Merge None l)) = mset (elems l)"
proof -
  have "distinct (map ee_key (elems (Exports_Normalize l))) \<and>
      ee_key ` set (elems (Exports_Normalize l)) = ee_key ` set (elems l)" for l
    using export_eq.removeDupes_keys by (cases l) (auto simp: Exports_Normalize_def normalize_def)
  from this [of "Some (e @ other)"] show ?thesis
    using export_eq.removeDupes_slice(5)
    by (cases l) (auto simp: Exports_Merge_def normalize_dropped_def image_Un)
qed

text \<open>Merging two given lists of attestations keeps, for each type, the last
  attestation of that type, in the order in which the types first occur.\<close>

theorem Attests_Merge_spec:
  "map at_Type (elems (Attests_Merge (Some a) (Some other))) = first_types [] (map at_Type (a @ other)) \<and>
   distinct (map at_Type (elems (Attests_Merge (Some a) (Some other)))) \<and>
   set (elems (Attests_Merge (Some a) (Some other))) = {x. last_of_type (a @ other) x}"
  using removeAttestDupes_spec [of "a @ other"]
  by (auto simp: Attests_Merge_def Attests_Normalize_def last_of_type_def)

end
