(* ===== verification/Csv.thy ===== *)
theory Csv
  imports GoBase
begin

text \<open>
  The one-line CSV parser through which every flag value passes (\<open>csvvalue.Fields\<close> with the
  default parser: comma separator, strict quotes, no trimming).  \<open>parse_field\<close> is the outer loop,
  \<open>parse_quoted\<close> the loop inside a quoted field; both carry the column the error messages report.
  The lemmas give the result on unquoted input and the round trip with joining by commas.
\<close>

abbreviation comma :: char where
  "comma \<equiv> CHR '',''"

abbreviation dquote :: char where
  "dquote \<equiv> CHR 0x22"

datatype csv_error = CsvEOF | CsvBareQuote nat | CsvQuote nat

definition append_last :: "string list \<Rightarrow> string \<Rightarrow> string list" where
  "append_last dst s = (if dst = [] then [] else butlast dst @ [last dst @ s])"

definition index_of :: "char \<Rightarrow> string \<Rightarrow> nat" where
  "index_of c s = length (takeWhile (\<lambda>x. x \<noteq> c) s)"

lemma cut_length: "cut c s = Some (a, b) \<Longrightarrow> length b < length s"
  using cut_some by fastforce

function (sequential) parse_field :: "nat \<Rightarrow> string \<Rightarrow> string list \<Rightarrow> csv_error + string list"
  and parse_quoted :: "nat \<Rightarrow> string \<Rightarrow> bool \<Rightarrow> string list \<Rightarrow> csv_error + string list" where
  "parse_field pos line dst =
     (if line = [] \<or> hd line \<noteq> dquote then
        (case cut comma line of
           None \<Rightarrow>
             (if dquote \<in> set line then Inl (CsvBareQuote (pos + index_of dquote line + 1))
              else Inr (dst @ [line]))
         | Some (field, rest) \<Rightarrow>
             (if dquote \<in> set field then Inl (CsvBareQuote (pos + index_of dquote field + 1))
              else parse_field (pos + length field + 1) rest (dst @ [field])))
      else parse_quoted (pos + 1) (tl line) False dst)"
| "parse_quoted pos line halfOpen dst =
     (case cut dquote line of
        None \<Rightarrow> Inl (CsvQuote (pos + 1))
      | Some (pre, rest) \<Rightarrow>
          (let dst' = (if halfOpen then append_last dst pre else dst @ [pre]);
               pos' = pos + length pre + 1
           in (case rest of
                 [] \<Rightarrow> Inr dst'
               | c # r \<Rightarrow>
                   (if c = dquote then parse_quoted (pos' + 1) r True (append_last dst' [dquote])
                    else if c = comma then parse_field (pos' + 1) r dst'
                    else Inl (CsvQuote pos')))))"
  by pat_completeness auto
termination
  by (relation "measure (case_sum (\<lambda>(_, l, _). length l) (\<lambda>(_, l, _, _). length l))")
     (auto dest: cut_length)

declare parse_field.simps [simp del] parse_quoted.simps [simp del]

text \<open>A trailing newline, with or without a carriage return, is dropped.\<close>

definition strip_newline :: "string \<Rightarrow> string" where
  "strip_newline line =
     (if line \<noteq> [] \<and> last line = CHR 0x0A then
        (if 1 < length line \<and> last (butlast line) = CHR 0x0D then butlast (butlast line)
         else butlast line)
      else line)"

definition csv_fields :: "string \<Rightarrow> csv_error + string list" where
  "csv_fields inp =
     (let line = strip_newline inp in if line = [] then Inl CsvEOF else parse_field 0 line [])"

section \<open>Unquoted input\<close>

lemma parse_field_plain:
  "dquote \<notin> set line \<Longrightarrow> parse_field pos line dst = Inr (dst @ split_on comma line)"
proof (induction "length line" arbitrary: pos line dst rule: less_induct)
  case less
  then have h: "line = [] \<or> hd line \<noteq> dquote"
    by (cases line) auto
  show ?case
  proof (cases "cut comma line")
    case None
    then have "comma \<notin> set line" by (simp add: cut_none_iff)
    then show ?thesis using None h less.prems
      by (simp add: parse_field.simps [of pos line] str_simps)
  next
    case (Some ab)
    obtain a b where ab: "ab = (a, b)" by (cases ab)
    then have l: "line = a @ comma # b" and a: "comma \<notin> set a"
      using cut_some Some by auto
    then have "parse_field (pos + length a + 1) b (dst @ [a]) = Inr ((dst @ [a]) @ split_on comma b)"
      using less.prems by (intro less.hyps) auto
    then show ?thesis using Some ab h less.prems l a
      by (subst parse_field.simps) (auto simp: str_simps)
  qed
qed

lemma csv_fields_plain:
  assumes "dquote \<notin> set s" and "s \<noteq> []" and "last s \<noteq> CHR 0x0A"
  shows "csv_fields s = Inr (split_on comma s)"
  using assms by (simp add: csv_fields_def strip_newline_def parse_field_plain)

lemma csv_fields_join:
  assumes "join [comma] fs \<noteq> []" and "\<forall>f \<in> set fs. comma \<notin> set f \<and> dquote \<notin> set f"
    and "last (join [comma] fs) \<noteq> CHR 0x0A"
  shows "csv_fields (join [comma] fs) = Inr fs"
proof -
  have fs: "fs \<noteq> []" using assms(1) by auto
  have "set (join [comma] fs) \<subseteq> insert comma (\<Union>(set ` set fs))"
    by (induction "[comma]" fs rule: join.induct) auto
  then have "dquote \<notin> set (join [comma] fs)" using assms(2) by auto
  then show ?thesis
    using assms fs by (simp add: csv_fields_plain split_on_join)
qed

text \<open>The parser returns at least one field whenever it succeeds.\<close>

lemma append_last_nonempty [simp]: "append_last dst s = [] \<longleftrightarrow> dst = []"
  by (simp add: append_last_def)

lemma parse_nonempty:
  "parse_field pos line dst = Inr fs \<Longrightarrow> fs \<noteq> []"
  "parse_quoted pos line ho dst = Inr fs \<Longrightarrow> (ho \<longrightarrow> dst \<noteq> []) \<Longrightarrow> fs \<noteq> []"
proof (induction pos line dst and pos line ho dst arbitrary: fs and fs
    rule: parse_field_parse_quoted.induct)
  case (1 pos line dst)
  then show ?case
    by (auto simp: parse_field.simps [of pos line dst] split: if_splits option.splits) blast+
next
  case (2 pos line ho dst)
  then show ?case
    by (auto simp: parse_quoted.simps [of pos line ho dst] Let_def
        split: if_splits option.splits list.splits) blast+
qed

lemma csv_fields_nonempty: "csv_fields s = Inr fs \<Longrightarrow> fs \<noteq> []"
  by (auto simp: csv_fields_def Let_def split: if_splits dest: parse_nonempty(1))

end
