(* ===== verification/GoPath.thy ===== *)
theory GoPath
  imports GoBase
begin

text \<open>
  Slash-separated paths: \<open>Clean\<close>, \<open>Join\<close> and \<open>IsAbs\<close> of the Go packages \<open>path\<close> and (on Unix)
  \<open>path/filepath\<close>.  A path is cleaned component by component with a stack: empty components and
  dots vanish, a double dot pops what it can.  \<open>norm_comps\<close> characterises the components of a
  cleaned path, and the lemmas show that cleaning yields such components and leaves them alone.
\<close>

abbreviation slash :: char where
  "slash \<equiv> CHR ''/''"

fun clean_comps :: "bool \<Rightarrow> string list \<Rightarrow> string list \<Rightarrow> string list" where
  "clean_comps rooted acc [] = rev acc"
| "clean_comps rooted acc (c # cs) =
     (if c = [] \<or> c = ''.'' then clean_comps rooted acc cs
      else if c = ''..'' then
        (case acc of
           [] \<Rightarrow> (if rooted then clean_comps rooted [] cs else clean_comps rooted [c] cs)
         | a # as \<Rightarrow> (if a = ''..'' then clean_comps rooted (c # acc) cs
                     else clean_comps rooted as cs))
      else clean_comps rooted (c # acc) cs)"

definition is_abs :: "string \<Rightarrow> bool" where
  "is_abs p \<longleftrightarrow> has_prefix [slash] p"

definition path_comps :: "string \<Rightarrow> string list" where
  "path_comps p = clean_comps (is_abs p) [] (split_on slash p)"

definition render_path :: "bool \<Rightarrow> string list \<Rightarrow> string" where
  "render_path rooted cs =
     (if rooted then slash # join [slash] cs else if cs = [] then ''.'' else join [slash] cs)"

definition path_clean :: "string \<Rightarrow> string" where
  "path_clean p = render_path (is_abs p) (path_comps p)"

definition path_join :: "string list \<Rightarrow> string" where
  "path_join es =
     (case dropWhile (\<lambda>e. e = []) es of [] \<Rightarrow> [] | es' \<Rightarrow> path_clean (join [slash] es'))"

text \<open>\<open>path.Split\<close>, \<open>path.Dir\<close> and \<open>path.Base\<close>.\<close>

definition path_dirpart :: "string \<Rightarrow> string" where
  "path_dirpart p = rev (dropWhile (\<lambda>c. c \<noteq> slash) (rev p))"

definition path_Dir :: "string \<Rightarrow> string" where
  "path_Dir p = path_clean (path_dirpart p)"

definition path_Base :: "string \<Rightarrow> string" where
  "path_Base p =
     (if p = [] then ''.''
      else let q = rev (dropWhile ((=) slash) (rev p));
               b = rev (takeWhile (\<lambda>c. c \<noteq> slash) (rev q))
           in if b = [] then ''/'' else b)"

text \<open>\<open>filepath.Abs\<close>, with the working directory when it can be told.\<close>

definition filepath_Abs :: "string option \<Rightarrow> string \<Rightarrow> string option" where
  "filepath_Abs cwd p = (if is_abs p then Some (path_clean p) else map_option (\<lambda>wd. path_join [wd, p]) cwd)"

section \<open>Components of cleaned paths\<close>

definition plain_comp :: "string \<Rightarrow> bool" where
  "plain_comp c \<longleftrightarrow> c \<noteq> [] \<and> c \<noteq> ''.'' \<and> c \<noteq> ''..'' \<and> slash \<notin> set c"

definition norm_comps :: "bool \<Rightarrow> string list \<Rightarrow> bool" where
  "norm_comps rooted cs \<longleftrightarrow>
     (\<exists>n ds. cs = replicate n ''..'' @ ds \<and> (rooted \<longrightarrow> n = 0) \<and> (\<forall>d \<in> set ds. plain_comp d))"

lemma norm_compsI:
  "(rooted \<longrightarrow> n = 0) \<Longrightarrow> (\<forall>d \<in> set ds. plain_comp d) \<Longrightarrow> norm_comps rooted (replicate n ''..'' @ ds)"
  by (auto simp: norm_comps_def)

lemma norm_comps_Nil [simp]: "norm_comps rooted []"
  using norm_compsI [of rooted 0 "[]"] by simp

lemma norm_comps_snoc_plain: "norm_comps rooted cs \<Longrightarrow> plain_comp c \<Longrightarrow> norm_comps rooted (cs @ [c])"
proof -
  assume "norm_comps rooted cs" and c: "plain_comp c"
  then obtain n ds where "cs = replicate n ''..'' @ ds" "rooted \<longrightarrow> n = 0" "\<forall>d \<in> set ds. plain_comp d"
    by (auto simp: norm_comps_def)
  then show ?thesis using c norm_compsI [of rooted n "ds @ [c]"] by simp
qed

lemma norm_comps_snoc_dotdot:
  assumes "norm_comps False (cs @ [''..''])"
  shows "norm_comps False (cs @ [''..'', ''..''])"
proof -
  obtain n ds where *: "cs @ [''..''] = replicate n ''..'' @ ds" "\<forall>d \<in> set ds. plain_comp d"
    using assms by (auto simp: norm_comps_def)
  have "ds = []"
    using * by (cases ds rule: rev_cases) (auto simp: plain_comp_def)
  then have "cs @ [''..'', ''..''] = replicate (Suc n) ''..'' @ []"
    using * by (simp flip: replicate_append_same append.assoc)
  then show ?thesis
    using norm_compsI [of False "Suc n" "[]"] by simp
qed

lemma norm_comps_butlast: "norm_comps rooted (cs @ [c]) \<Longrightarrow> norm_comps rooted cs"
proof -
  assume "norm_comps rooted (cs @ [c])"
  then obtain n ds where *: "cs @ [c] = replicate n ''..'' @ ds" "rooted \<longrightarrow> n = 0"
      "\<forall>d \<in> set ds. plain_comp d"
    by (auto simp: norm_comps_def)
  show ?thesis
  proof (cases ds rule: rev_cases)
    case Nil
    with * obtain m where n: "n = Suc m" by (cases n) auto
    then have "cs @ [c] = replicate m ''..'' @ [''..'']"
      using * Nil by (simp add: replicate_append_same)
    then have "cs = replicate m ''..'' @ []" by simp
    with * Nil n show ?thesis using norm_compsI [of rooted m "[]"] by auto
  next
    case (snoc es e)
    with * have "cs = replicate n ''..'' @ es" by simp
    with * snoc show ?thesis using norm_compsI [of rooted n es] by auto
  qed
qed

lemma norm_comps_last_rooted: "norm_comps True (cs @ [c]) \<Longrightarrow> c \<noteq> ''..''"
  by (auto simp: norm_comps_def plain_comp_def)

lemma clean_comps_norm:
  assumes "norm_comps rooted (rev acc)" and "\<forall>c \<in> set cs. slash \<notin> set c"
  shows "norm_comps rooted (clean_comps rooted acc cs)"
  using assms
proof (induction rooted acc cs rule: clean_comps.induct)
  case (1 rooted acc)
  then show ?case by simp
next
  case (2 rooted acc c cs)
  consider "c = [] \<or> c = ''.''" | "c = ''..''" | "plain_comp c"
    using 2 by (auto simp: plain_comp_def)
  then show ?case
  proof cases
    case 1
    with 2 show ?thesis by auto
  next
    case dd: 2
    show ?thesis
    proof (cases acc)
      case Nil
      have "norm_comps False [''..'']" using norm_compsI [of False 1 "[]"] by simp
      with Nil dd 2 show ?thesis by auto
    next
      case (Cons a as)
      then have last: "norm_comps rooted (rev as @ [a])" using 2 by simp
      show ?thesis
      proof (cases "a = ''..''")
        case True
        then have "rooted = False" using last norm_comps_last_rooted [of "rev as" a] by (cases rooted) auto
        with True last have "norm_comps rooted (rev (c # acc))"
          using norm_comps_snoc_dotdot [of "rev as"] dd Cons by simp
        with True Cons dd 2 show ?thesis by simp
      next
        case False
        with last have "norm_comps rooted (rev as)" using norm_comps_butlast by blast
        with False Cons dd 2 show ?thesis by simp
      qed
    qed
  next
    case 3
    with 2 have "norm_comps rooted (rev (c # acc))" by (simp add: norm_comps_snoc_plain)
    with 3 2 show ?thesis by (auto simp: plain_comp_def)
  qed
qed

lemma path_comps_norm: "norm_comps (is_abs p) (path_comps p)"
  unfolding path_comps_def by (rule clean_comps_norm) (auto dest: split_on_parts)

lemma clean_comps_plain:
  "\<forall>d \<in> set ds. plain_comp d \<Longrightarrow> clean_comps rooted acc ds = rev acc @ ds"
  by (induction ds arbitrary: acc) (auto simp: plain_comp_def)

lemma clean_comps_dotdots:
  "clean_comps False (replicate m ''..'') (replicate n ''..'' @ ds)
     = clean_comps False (replicate (m + n) ''..'') ds"
proof (induction n arbitrary: m)
  case 0
  then show ?case by simp
next
  case (Suc n)
  have "clean_comps False (replicate m ''..'') (replicate (Suc n) ''..'' @ ds)
      = clean_comps False (replicate (Suc m) ''..'') (replicate n ''..'' @ ds)"
    by (cases m) auto
  then show ?case using Suc [of "Suc m"] by simp
qed

lemma clean_comps_id:
  assumes "norm_comps rooted cs"
  shows "clean_comps rooted [] cs = cs"
proof -
  obtain n ds where *: "cs = replicate n ''..'' @ ds" "rooted \<longrightarrow> n = 0" "\<forall>d \<in> set ds. plain_comp d"
    using assms by (auto simp: norm_comps_def)
  show ?thesis
  proof (cases rooted)
    case True
    with * show ?thesis by (simp add: clean_comps_plain)
  next
    case False
    with * show ?thesis
      using clean_comps_dotdots [of 0 n ds] by (simp add: clean_comps_plain)
  qed
qed

lemma norm_comps_no_slash: "norm_comps rooted cs \<Longrightarrow> c \<in> set cs \<Longrightarrow> slash \<notin> set c \<and> c \<noteq> []"
proof -
  assume "norm_comps rooted cs" and c: "c \<in> set cs"
  then obtain n ds where "cs = replicate n ''..'' @ ds" and ds: "\<forall>d \<in> set ds. plain_comp d"
    by (auto simp: norm_comps_def)
  with c consider "c = ''..''" | "c \<in> set ds" by (auto simp: in_set_replicate)
  then show ?thesis
    by cases (use ds in \<open>simp_all add: plain_comp_def\<close>)
qed

lemma clean_comps_skip_empty [simp]: "clean_comps rooted acc ([] # cs) = clean_comps rooted acc cs"
  by simp

lemma is_abs_join:
  assumes "cs \<noteq> []" and "\<And>c. c \<in> set cs \<Longrightarrow> slash \<notin> set c \<and> c \<noteq> []"
  shows "\<not> is_abs (join [slash] cs)"
proof -
  obtain x xs where cs: "cs = x # xs" using assms(1) by (cases cs) auto
  obtain y ys where x: "x = y # ys" using assms(2) cs by (cases x) auto
  have "y \<noteq> slash" using assms(2) [of x] cs x by auto
  with cs x show ?thesis by (cases xs) (auto simp: is_abs_def)
qed

lemma path_comps_render:
  assumes "norm_comps rooted cs"
  shows "is_abs (render_path rooted cs) = rooted" and "path_comps (render_path rooted cs) = cs"
proof -
  have ns: "\<And>c. c \<in> set cs \<Longrightarrow> slash \<notin> set c \<and> c \<noteq> []"
    using norm_comps_no_slash assms by blast
  show abs: "is_abs (render_path rooted cs) = rooted"
  proof (cases rooted)
    case True
    then show ?thesis by (simp add: render_path_def is_abs_def)
  next
    case False
    then show ?thesis
      using is_abs_join [of cs] ns by (auto simp: render_path_def is_abs_def)
  qed
  show "path_comps (render_path rooted cs) = cs"
  proof (cases "cs = []")
    case True
    then show ?thesis using abs by (auto simp: path_comps_def render_path_def)
  next
    case False
    have s: "split_on slash (join [slash] cs) = cs"
      using False ns by (intro split_on_join) auto
    with False abs show ?thesis
      using clean_comps_id [OF assms] by (auto simp: path_comps_def render_path_def)
  qed
qed

lemma path_clean_idem: "path_clean (path_clean p) = path_clean p"
  using path_comps_render [OF path_comps_norm, of p] by (simp add: path_clean_def)

text \<open>Joining plain components only puts the separators between them.\<close>

lemma path_join_plain:
  assumes "cs \<noteq> []" and "\<forall>c \<in> set cs. plain_comp c"
  shows "path_join cs = join [slash] cs"
proof -
  have n: "norm_comps False cs" using norm_compsI [of False 0 cs] assms by simp
  have d: "dropWhile (\<lambda>e. e = []) cs = cs"
    using assms by (cases cs) (auto simp: plain_comp_def)
  have r: "render_path False cs = join [slash] cs" using assms by (simp add: render_path_def)
  show ?thesis
    using path_comps_render [OF n] d r assms(1)
    by (cases cs) (simp_all add: path_join_def path_clean_def)
qed

lemma join_inj_slash:
  assumes "cs \<noteq> []" "ds \<noteq> []" "\<forall>c \<in> set cs. slash \<notin> set c" "\<forall>d \<in> set ds. slash \<notin> set d"
    and "join [slash] cs = join [slash] ds"
  shows "cs = ds"
  using assms split_on_join [of cs slash] split_on_join [of ds slash] by metis

end
