(* ===== verification/Platform.thy ===== *)
theory Platform
  imports GoPath
begin

text \<open>
  Platform specifiers: the OCI \<open>Platform\<close> value, its normal form, its printed form and its parser
  (the containerd package the code calls), and the list functions of \<open>util/platformutil/parse.go\<close>
  on top of them.  What depends on the machine the program runs on (\<open>runtime.GOOS\<close>,
  \<open>runtime.GOARCH\<close>, the CPU variant) is the record \<open>host\<close>, a parameter of every definition.
\<close>

record platform =
  p_Architecture :: string
  p_OS :: string
  p_OSVersion :: string
  p_OSFeatures :: "string list"
  p_Variant :: string

record host =
  h_GOOS :: string
  h_GOARCH :: string
  h_cpuVariant :: string

datatype platform_error =
    PlatWildcard string
  | PlatInvalidOS string
  | PlatInvalidComponent string
  | PlatUnknown string
  | PlatCannotParse string

abbreviation zero_platform :: platform where
  "zero_platform \<equiv> \<lparr>p_Architecture = [], p_OS = [], p_OSVersion = [], p_OSFeatures = [], p_Variant = []\<rparr>"

section \<open>Normal form and printing\<close>

definition normalizeOS :: "host \<Rightarrow> string \<Rightarrow> string" where
  "normalizeOS h os =
     (if os = [] then h_GOOS h
      else (let os = to_lower os in if os = ''macos'' then ''darwin'' else os))"

definition normalizeArch :: "string \<Rightarrow> string \<Rightarrow> string \<times> string" where
  "normalizeArch arch0 variant0 =
     (let arch = to_lower arch0; variant = to_lower variant0
      in if arch = ''i386'' then (''386'', [])
         else if arch \<in> set [''x86_64'', ''x86-64'', ''amd64''] then
           (''amd64'', if variant = ''v1'' then [] else variant)
         else if arch \<in> set [''aarch64'', ''arm64''] then
           (''arm64'',
            if variant \<in> set [''8'', ''v8'', ''v8.0''] then []
            else if variant \<in> set [''9'', ''9.0'', ''v9.0''] then ''v9'' else variant)
         else if arch = ''armhf'' then (''arm'', ''v7'')
         else if arch = ''armel'' then (''arm'', ''v6'')
         else if arch = ''arm'' then
           (''arm'',
            if variant \<in> set [[], ''7''] then ''v7''
            else if variant \<in> set [''5'', ''6'', ''8''] then ''v'' @ variant else variant)
         else (arch, variant))"

definition Normalize :: "host \<Rightarrow> platform \<Rightarrow> platform" where
  "Normalize h p =
     (let (arch, variant) = normalizeArch (p_Architecture p) (p_Variant p)
      in p\<lparr>p_OS := normalizeOS h (p_OS p), p_Architecture := arch, p_Variant := variant\<rparr>)"

definition Format :: "platform \<Rightarrow> string" where
  "Format p = (if p_OS p = [] then ''unknown'' else path_join [p_OS p, p_Architecture p, p_Variant p])"

section \<open>Parsing one specifier\<close>

definition isKnownOS :: "string \<Rightarrow> bool" where
  "isKnownOS os \<longleftrightarrow> os \<in> set [''aix'', ''android'', ''darwin'', ''dragonfly'', ''freebsd'', ''hurd'',
     ''illumos'', ''ios'', ''js'', ''linux'', ''nacl'', ''netbsd'', ''openbsd'', ''plan9'', ''solaris'',
     ''windows'', ''zos'']"

definition isKnownArch :: "string \<Rightarrow> bool" where
  "isKnownArch arch \<longleftrightarrow> arch \<in> set [''386'', ''amd64'', ''amd64p32'', ''arm'', ''armbe'', ''arm64'',
     ''arm64be'', ''ppc64'', ''ppc64le'', ''loong64'', ''mips'', ''mipsle'', ''mips64'', ''mips64le'',
     ''mips64p32'', ''mips64p32le'', ''ppc'', ''riscv'', ''riscv64'', ''s390'', ''s390x'', ''sparc'',
     ''sparc64'', ''wasm'']"

definition is_os_char :: "char \<Rightarrow> bool" where
  "is_os_char c \<longleftrightarrow> is_letter c \<or> is_digit c \<or> c = CHR ''_'' \<or> c = CHR ''-''"

definition is_spec_char :: "char \<Rightarrow> bool" where
  "is_spec_char c \<longleftrightarrow> is_os_char c \<or> c = CHR ''.''"

definition specifierRe :: "string \<Rightarrow> bool" where
  "specifierRe s \<longleftrightarrow> s \<noteq> [] \<and> list_all is_spec_char s"

text \<open>The operating system and the optional version in parentheses.\<close>

definition osAndVersionRe :: "string \<Rightarrow> (string \<times> string) option" where
  "osAndVersionRe s =
     (let os = takeWhile is_os_char s; r = dropWhile is_os_char s
      in if os = [] then None
         else (case r of
                 [] \<Rightarrow> Some (os, [])
               | c # r' \<Rightarrow>
                   if c = CHR ''('' \<and> r' \<noteq> [] \<and> last r' = CHR '')'' \<and> list_all is_spec_char (butlast r')
                   then Some (os, butlast r') else None))"

text \<open>\<open>strings.SplitN\<close> with a one-byte separator and a positive limit.\<close>

fun splitn :: "nat \<Rightarrow> char \<Rightarrow> string \<Rightarrow> string list" where
  "splitn 0 c s = []"
| "splitn (Suc 0) c s = [s]"
| "splitn (Suc (Suc n)) c s = (case cut c s of None \<Rightarrow> [s] | Some (a, b) \<Rightarrow> a # splitn (Suc n) c b)"

definition Parse :: "host \<Rightarrow> string \<Rightarrow> platform_error + platform" where
  "Parse h specifier =
     (if CHR ''*'' \<in> set specifier then Inl (PlatWildcard specifier)
      else
        let parts = splitn 4 slash specifier
        in (case osAndVersionRe (hd parts) of
              None \<Rightarrow> Inl (PlatInvalidOS specifier)
            | Some (os, ver) \<Rightarrow>
                if \<not> list_all specifierRe (tl parts) then Inl (PlatInvalidComponent specifier)
                else
                  let p = zero_platform\<lparr>p_OS := normalizeOS h os, p_OSVersion := ver\<rparr>
                  in (case parts of
                        [a] \<Rightarrow>
                          if isKnownOS (p_OS p) then
                            let p = p\<lparr>p_Architecture := h_GOARCH h\<rparr>
                            in Inr (if h_GOARCH h = ''arm'' \<and> h_cpuVariant h \<noteq> ''v7''
                                    then p\<lparr>p_Variant := h_cpuVariant h\<rparr> else p)
                          else
                            let (arch, variant) = normalizeArch a [];
                                variant = (if arch = ''arm'' \<and> variant = ''v7'' then [] else variant);
                                p = p\<lparr>p_Architecture := arch, p_Variant := variant\<rparr>
                            in if isKnownArch arch then Inr (p\<lparr>p_OS := h_GOOS h\<rparr>)
                               else Inl (PlatUnknown specifier)
                      | [a, b] \<Rightarrow>
                          let (arch, variant) = normalizeArch b [];
                              variant = (if arch = ''arm'' \<and> variant = ''v7'' then [] else variant)
                          in Inr (p\<lparr>p_Architecture := arch, p_Variant := variant\<rparr>)
                      | [a, b, c] \<Rightarrow>
                          let (arch, variant) = normalizeArch b c;
                              variant = (if arch = ''arm64'' \<and> variant = [] then ''v8'' else variant)
                          in Inr (p\<lparr>p_Architecture := arch, p_Variant := variant\<rparr>)
                      | _ \<Rightarrow> Inl (PlatCannotParse specifier))))"

definition DefaultSpec :: "host \<Rightarrow> platform" where
  "DefaultSpec h =
     zero_platform\<lparr>p_OS := h_GOOS h, p_Architecture := h_GOARCH h, p_Variant := h_cpuVariant h\<rparr>"

definition parse_local :: "host \<Rightarrow> string \<Rightarrow> platform_error + platform" where
  "parse_local h s = (if to_lower s = ''local'' then Inr (DefaultSpec h) else Parse h s)"

section \<open>Lists of platforms (util/platformutil/parse.go)\<close>

function platforms_Parse :: "host \<Rightarrow> string list \<Rightarrow> platform_error + platform list" where
  "platforms_Parse h [] = Inr []"
| "platforms_Parse h (s # ss) =
     (let parts = split_on (CHR '','') s
      in rbind (if 1 < length parts then platforms_Parse h parts
                else rbind (parse_local h s) (\<lambda>p. Inr [Normalize h p]))
           (\<lambda>p. rbind (platforms_Parse h ss) (\<lambda>ps. Inr (p @ ps))))"
  by pat_completeness auto

text \<open>A part of a split has no comma, so the recursion is at most two levels deep: a string weighs
  one plus twice its commas, its parts weigh one each.\<close>

definition comma_weight :: "string list \<Rightarrow> nat" where
  "comma_weight ss = sum_list (map (\<lambda>s. 2 * length (split_on (CHR '','') s) - 1) ss)"

lemma split_length_ge_1: "1 \<le> length (split_on c s)"
  using split_on_nonempty [of c s] by (cases "split_on c s") auto

lemma comma_weight_Cons:
  "comma_weight (s # ss) = 2 * length (split_on (CHR '','') s) - 1 + comma_weight ss"
  by (simp add: comma_weight_def)

lemma comma_weight_parts: "comma_weight (split_on (CHR '','') s) = length (split_on (CHR '','') s)"
proof -
  have "map (\<lambda>s. 2 * length (split_on (CHR '','') s) - 1) (split_on (CHR '','') s)
      = map (\<lambda>_. 1) (split_on (CHR '','') s)"
    by (rule map_cong) (auto simp: split_on_no_sep dest: split_on_parts)
  then show ?thesis
    unfolding comma_weight_def by (simp only: sum_list_triv) simp
qed

lemma comma_weight_tail: "comma_weight ss < comma_weight (s # ss)"
  using split_length_ge_1 [of "CHR '',''" s] by (simp add: comma_weight_Cons)

termination platforms_Parse
  by (relation "measure (\<lambda>(h, ss). comma_weight ss)")
     (auto simp: comma_weight_parts comma_weight_tail, auto simp: comma_weight_Cons)

fun dedupe_loop :: "host \<Rightarrow> string list \<Rightarrow> platform list \<Rightarrow> platform list" where
  "dedupe_loop h m [] = []"
| "dedupe_loop h m (p # ps) =
     (let p = Normalize h p; key = Format p
      in if key \<in> set m then dedupe_loop h m ps else p # dedupe_loop h (key # m) ps)"

definition Dedupe :: "host \<Rightarrow> platform list \<Rightarrow> platform list" where
  "Dedupe h ps = dedupe_loop h [] ps"

text \<open>The inner loop over one group returns the strings it appends and the keys seen so far.\<close>

fun format_group :: "host \<Rightarrow> bool \<Rightarrow> string list \<Rightarrow> platform list \<Rightarrow> string list \<times> string list" where
  "format_group h first m [] = ([], m)"
| "format_group h first m (p # ps) =
     (let key = Format (Normalize h p)
      in if key \<in> set m then format_group h first m ps
         else (let (out, m') = format_group h first (key # m) ps
               in ((if first then key @ ''*'' else key) # out, m')))"

fun format_groups :: "host \<Rightarrow> bool \<Rightarrow> string list \<Rightarrow> platform list list \<Rightarrow> string list" where
  "format_groups h first m [] = []"
| "format_groups h first m (g # gs) =
     (let (out, m') = format_group h first m g in out @ format_groups h False m' gs)"

definition FormatInGroups :: "host \<Rightarrow> platform list list \<Rightarrow> string list" where
  "FormatInGroups h gg = format_groups h True [] gg"

definition platforms_Format :: "platform list \<Rightarrow> string list" where
  "platforms_Format ps = map Format ps"

section \<open>Normal forms\<close>

text \<open>The host names its own operating system in normal form.\<close>

definition wf_host :: "host \<Rightarrow> bool" where
  "wf_host h \<longleftrightarrow> h_GOOS h \<noteq> [] \<and> normalizeOS h (h_GOOS h) = h_GOOS h"

lemma to_lower_consts:
  "to_lower ''386'' = ''386''" "to_lower ''amd64'' = ''amd64''" "to_lower ''arm64'' = ''arm64''"
  "to_lower ''arm'' = ''arm''" "to_lower ''v7'' = ''v7''" "to_lower ''v6'' = ''v6''"
  "to_lower ''v9'' = ''v9''" "to_lower ''v5'' = ''v5''" "to_lower ''v8'' = ''v8''" "to_lower ''v1'' = ''v1''"
  "to_lower ''darwin'' = ''darwin''"
  by code_simp+

lemma normalizeOS_idem: "wf_host h \<Longrightarrow> normalizeOS h (normalizeOS h os) = normalizeOS h os"
  by (auto simp: normalizeOS_def wf_host_def Let_def to_lower_consts split: if_splits)

lemma normalizeOS_nonempty: "wf_host h \<Longrightarrow> normalizeOS h os \<noteq> []"
  by (auto simp: normalizeOS_def wf_host_def Let_def to_lower_consts split: if_splits)

text \<open>The variant of an ARM platform, as a function of the lower-case variant.\<close>

definition arm64_variant :: "string \<Rightarrow> string" where
  "arm64_variant v = (if v \<in> set [''8'', ''v8'', ''v8.0''] then []
     else if v \<in> set [''9'', ''9.0'', ''v9.0''] then ''v9'' else v)"

definition arm_variant :: "string \<Rightarrow> string" where
  "arm_variant v = (if v \<in> set [[], ''7''] then ''v7''
     else if v \<in> set [''5'', ''6'', ''8''] then ''v'' @ v else v)"

lemma arm64_variant_idem: "arm64_variant (arm64_variant v) = arm64_variant v"
  by (simp add: arm64_variant_def)

lemma arm_variant_idem: "arm_variant (arm_variant v) = arm_variant v"
  by (simp add: arm_variant_def)

lemma arm64_variant_lower: "to_lower v = v \<Longrightarrow> to_lower (arm64_variant v) = arm64_variant v"
  by (simp add: arm64_variant_def to_lower_consts)

lemma arm_variant_lower: "to_lower v = v \<Longrightarrow> to_lower (arm_variant v) = arm_variant v"
  by (auto simp: arm_variant_def to_lower_consts)

text \<open>The architectures \<open>normalizeArch\<close> rewrites or keeps by name, and what it makes of each.\<close>

definition other_arch :: "string \<Rightarrow> bool" where
  "other_arch a \<longleftrightarrow> a \<notin> set [''i386'', ''x86_64'', ''x86-64'', ''amd64'', ''aarch64'', ''arm64'', ''armhf'',
     ''armel'', ''arm'']"

lemma normalizeArch_cases:
  "normalizeArch a v \<in>
     {(''386'', []), (''amd64'', if to_lower v = ''v1'' then [] else to_lower v),
      (''arm64'', arm64_variant (to_lower v)), (''arm'', ''v7''), (''arm'', ''v6''),
      (''arm'', arm_variant (to_lower v))} \<or>
   normalizeArch a v = (to_lower a, to_lower v) \<and> other_arch (to_lower a)"
proof -
  define x where "x = to_lower a"
  have *: "normalizeArch a v =
     (if x = ''i386'' then (''386'', [])
      else if x \<in> set [''x86_64'', ''x86-64'', ''amd64''] then
        (''amd64'', if to_lower v = ''v1'' then [] else to_lower v)
      else if x \<in> set [''aarch64'', ''arm64''] then (''arm64'', arm64_variant (to_lower v))
      else if x = ''armhf'' then (''arm'', ''v7'')
      else if x = ''armel'' then (''arm'', ''v6'')
      else if x = ''arm'' then (''arm'', arm_variant (to_lower v))
      else (x, to_lower v))"
    by (simp only: normalizeArch_def arm64_variant_def arm_variant_def Let_def x_def)
  consider "x = ''i386''" | "x \<in> set [''x86_64'', ''x86-64'', ''amd64'']"
    | "x \<in> set [''aarch64'', ''arm64'']" | "x = ''armhf''" | "x = ''armel''" | "x = ''arm''"
    | "other_arch x"
    by (auto simp: other_arch_def)
  then show ?thesis
    unfolding x_def [symmetric] by cases (auto simp: * other_arch_def)
qed

lemma normalizeArch_fixpoints:
  "normalizeArch ''386'' [] = (''386'', [])"
  "to_lower v = v \<Longrightarrow> v \<noteq> ''v1'' \<Longrightarrow> normalizeArch ''amd64'' v = (''amd64'', v)"
  "to_lower v = v \<Longrightarrow> normalizeArch ''arm64'' v = (''arm64'', arm64_variant v)"
  "to_lower v = v \<Longrightarrow> normalizeArch ''arm'' v = (''arm'', arm_variant v)"
  "to_lower a = a \<Longrightarrow> to_lower v = v \<Longrightarrow> other_arch a \<Longrightarrow> normalizeArch a v = (a, v)"
  by (simp_all add: normalizeArch_def Let_def to_lower_consts arm64_variant_def arm_variant_def
      other_arch_def)

lemma normalizeArch_idem:
  assumes "normalizeArch a v = (a', v')"
  shows "normalizeArch a' v' = (a', v')"
proof -
  have "arm_variant ''v7'' = ''v7''" and "arm_variant ''v6'' = ''v6''"
    by (simp_all add: arm_variant_def)
  moreover have "to_lower v = ''v1'' \<or> normalizeArch ''amd64'' (to_lower v) = (''amd64'', to_lower v)"
    by (cases "to_lower v = ''v1''") (simp_all add: normalizeArch_fixpoints)
  moreover have "normalizeArch ''amd64'' [] = (''amd64'', [])"
    by (simp add: normalizeArch_fixpoints to_lower_def)
  ultimately show ?thesis
    using normalizeArch_cases [of a v] assms
    by (auto simp: normalizeArch_fixpoints arm64_variant_idem arm_variant_idem
        arm64_variant_lower arm_variant_lower to_lower_consts)
qed

lemma Normalize_idem: "wf_host h \<Longrightarrow> Normalize h (Normalize h p) = Normalize h p"
  using normalizeArch_idem [of "p_Architecture p" "p_Variant p"]
  by (auto simp: Normalize_def normalizeOS_idem split: prod.splits)

section \<open>Parsing lists\<close>

lemma platforms_Parse_flat:
  "platforms_Parse h ss =
     rmap (\<lambda>s. rbind (parse_local h s) (\<lambda>p. Inr (Normalize h p))) (concat (map (split_on (CHR '','')) ss))"
proof (induction h ss rule: platforms_Parse.induct)
  case (1 h)
  then show ?case by simp
next
  case (2 h s ss)
  let ?f = "\<lambda>s. rbind (parse_local h s) (\<lambda>p. Inr (Normalize h p))"
  have "(if 1 < length (split_on (CHR '','') s) then platforms_Parse h (split_on (CHR '','') s)
         else rbind (parse_local h s) (\<lambda>p. Inr [Normalize h p])) = rmap ?f (split_on (CHR '','') s)"
  proof (cases "1 < length (split_on (CHR '','') s)")
    case True
    have "concat (map (split_on (CHR '','')) (split_on (CHR '','') s))
        = concat (map (\<lambda>p. [p]) (split_on (CHR '','') s))"
      by (intro arg_cong [where f = concat] map_cong) (auto simp: split_on_no_sep dest: split_on_parts)
    then show ?thesis using 2(1) True by simp
  next
    case False
    then have "length (split_on (CHR '','') s) = 1"
      using split_length_ge_1 [of "CHR '',''" s] by simp
    then have "CHR '','' \<notin> set s" using split_on_length_iff by blast
    then have "split_on (CHR '','') s = [s]" by (rule split_on_no_sep)
    then show ?thesis by (cases "parse_local h s") simp_all
  qed
  then show ?case using 2(2)
    by (cases "rmap ?f (split_on (CHR '','') s)") (simp_all add: rmap_append Let_def)
qed

section \<open>Removing duplicates\<close>

lemma dedupe_loop_spec:
  "distinct (map Format (dedupe_loop h m ps)) \<and>
   set (map Format (dedupe_loop h m ps)) = Format ` Normalize h ` set ps - set m"
  by (induction h m ps rule: dedupe_loop.induct) (auto simp: Let_def)

lemma dedupe_loop_subset: "set (dedupe_loop h m ps) \<subseteq> Normalize h ` set ps"
  by (induction ps arbitrary: m) (auto simp: Let_def)

lemma dedupe_loop_fixpoint:
  assumes "distinct (map Format ps)" and "\<forall>p \<in> set ps. Normalize h p = p"
    and "set m \<inter> Format ` set ps = {}"
  shows "dedupe_loop h m ps = ps"
  using assms by (induction ps arbitrary: m) (auto simp: Let_def)

lemma Dedupe_distinct: "distinct (map Format (Dedupe h ps))"
  using dedupe_loop_spec by (simp add: Dedupe_def)

lemma Dedupe_keys: "Format ` set (Dedupe h ps) = Format ` Normalize h ` set ps"
  using dedupe_loop_spec [of h "[]" ps] by (simp add: Dedupe_def)

lemma Dedupe_normal: "wf_host h \<Longrightarrow> p \<in> set (Dedupe h ps) \<Longrightarrow> Normalize h p = p"
  using dedupe_loop_subset [of h "[]" ps] by (auto simp: Dedupe_def Normalize_idem)

lemma Dedupe_idem: "wf_host h \<Longrightarrow> Dedupe h (Dedupe h ps) = Dedupe h ps"
  unfolding Dedupe_def [of h "Dedupe h ps"]
  by (rule dedupe_loop_fixpoint) (simp_all add: Dedupe_distinct Dedupe_normal)

lemma dedupe_loop_append:
  "dedupe_loop h m (ps @ qs) =
     dedupe_loop h m ps @ dedupe_loop h (rev (map Format (dedupe_loop h m ps)) @ m) qs"
  by (induction ps arbitrary: m) (auto simp: Let_def)

lemma format_group_dedupe:
  "format_group h first m ps =
     (map (\<lambda>p. if first then Format p @ ''*'' else Format p) (dedupe_loop h m ps),
      rev (map Format (dedupe_loop h m ps)) @ m)"
  by (induction h first m ps rule: format_group.induct) (auto simp: Let_def)

lemma format_groups_rest: "format_groups h False m gs = map Format (dedupe_loop h m (concat gs))"
  by (induction gs arbitrary: m) (simp_all add: format_group_dedupe dedupe_loop_append)

lemma FormatInGroups_dedupe:
  "FormatInGroups h (g # gs) =
     (let ps = Dedupe h (concat (g # gs)); n = length (Dedupe h g)
      in map (\<lambda>p. Format p @ ''*'') (take n ps) @ map Format (drop n ps))"
  by (simp add: FormatInGroups_def Dedupe_def Let_def format_group_dedupe format_groups_rest
      dedupe_loop_append)

end
