(* ===== verification/FlagText.thy ===== *)
theory FlagText
  imports FlagLists Csv Platform
begin

text \<open>
  The textual form of the build options (\<open>util/buildflags\<close>): the writers (\<open>String\<close>, \<open>csvBuilder\<close>), the
  parsers (\<open>UnmarshalText\<close> and the \<open>Parse\<close> functions of the command line), the JSON forms as typed
  documents, and the credentials added to cache options.  Parsers return the entry or an error.
\<close>

abbreviation equals :: char where "equals \<equiv> CHR ''=''"

datatype flag_error =
    FeCsv csv_error
  | FeInvalidValue string
  | FeTypeRequired
  | FeBool string
  | FeSecretType string
  | FeUnexpectedKey string string
  | FeDuplicateAttest string
  | FeNotString string
  | FeNotBool
  | FeAnnotation string
  | FeAnnotationType string
  | FePlatform platform_error
  | FeCallValue string
  | FeCallField string
  | FeEntitlement string
  | FeDevice string
  | FePanicNilMap

text \<open>\<open>strings.SplitN(field, "=", 2)\<close> with the error of a field that has no equals sign.\<close>

definition key_value :: "string \<Rightarrow> flag_error + string \<times> string" where
  "key_value field = (case cut equals field of None \<Rightarrow> Inl (FeInvalidValue field) | Some kv \<Rightarrow> Inr kv)"

definition fields_of :: "string \<Rightarrow> flag_error + string list" where
  "fields_of s = map_err FeCsv (csv_fields s)"

section \<open>The writer\<close>

definition csv_Write :: "string \<Rightarrow> string \<Rightarrow> string \<Rightarrow> string" where
  "csv_Write key val sb = (if sb \<noteq> [] then sb @ [comma] else sb) @ key @ [equals] @ val"

definition csv_WriteAttributes :: "string gomap \<Rightarrow> string \<Rightarrow> string" where
  "csv_WriteAttributes attrs sb = fold (\<lambda>(k, v). csv_Write k v) attrs sb"

section \<open>Exports\<close>

definition ExportEntry_String :: "ExportEntry \<Rightarrow> string" where
  "ExportEntry_String e =
     csv_WriteAttributes (mrange (ee_Attrs e))
       ((if ee_Destination e \<noteq> [] then csv_Write ''dest'' (ee_Destination e) else id)
         ((if ee_Type e \<noteq> [] then csv_Write ''type'' (ee_Type e) else id) []))"

definition ExportEntry_validate :: "ExportEntry \<Rightarrow> flag_error + ExportEntry" where
  "ExportEntry_validate e = (if ee_Type e = [] then Inl FeTypeRequired else Inr e)"

definition export_field :: "string \<Rightarrow> ExportEntry \<Rightarrow> flag_error + ExportEntry" where
  "export_field field e =
     rbind (key_value field) (\<lambda>(k, val).
       let key = trim_space (to_lower k)
       in Inr (if key = ''type'' then e\<lparr>ee_Type := val\<rparr>
               else if key = ''dest'' then e\<lparr>ee_Destination := val\<rparr>
               else e\<lparr>ee_Attrs := Some (mset_key key val (mrange (ee_Attrs e)))\<rparr>))"

definition ExportEntry_UnmarshalText :: "string \<Rightarrow> flag_error + ExportEntry" where
  "ExportEntry_UnmarshalText s =
     rbind (fields_of s) (\<lambda>fields.
       let e = \<lparr>ee_Type = [], ee_Attrs = Some [], ee_Destination = []\<rparr>
       in if fields = [s] \<and> \<not> has_prefix ''type='' s then
            (if s \<noteq> ''-'' then Inr (e\<lparr>ee_Type := ''local'', ee_Destination := s\<rparr>)
             else ExportEntry_validate (e\<lparr>ee_Type := ''tar'', ee_Destination := s\<rparr>))
          else rbind (rfold export_field fields e) ExportEntry_validate)"

definition ExportEntry_MarshalJSON :: "ExportEntry \<Rightarrow> string gomap" where
  "ExportEntry_MarshalJSON e =
     (let m = mset_key ''type'' (ee_Type e) (mrange (ee_Attrs e))
      in if ee_Destination e \<noteq> [] then mset_key ''dest'' (ee_Destination e) m else m)"

definition ExportEntry_UnmarshalJSON :: "string gomap \<Rightarrow> flag_error + ExportEntry" where
  "ExportEntry_UnmarshalJSON m =
     ExportEntry_validate \<lparr>ee_Type = mstr m ''type'', ee_Attrs = Some (mdel ''dest'' (mdel ''type'' m)),
       ee_Destination = mstr m ''dest''\<rparr>"

text \<open>\<open>ToPB\<close> of an export copies the three fields, so the entries stand for their wire form.\<close>

definition ParseExports :: "string list \<Rightarrow> flag_error + ExportEntry list" where
  "ParseExports inp = rmap ExportEntry_UnmarshalText (filter (\<lambda>s. s \<noteq> []) inp)"

section \<open>Cache options\<close>

definition CacheOptionsEntry_String :: "CacheOptionsEntry \<Rightarrow> string" where
  "CacheOptionsEntry_String e =
     (let attrs = mrange (co_Attrs e) in
      if co_Type e = ''registry'' \<and> length attrs = 1 \<and> mget attrs ''ref'' \<noteq> None
      then the (mget attrs ''ref'')
      else csv_WriteAttributes attrs ((if co_Type e \<noteq> [] then csv_Write ''type'' (co_Type e) else id) []))"

definition CacheOptionsEntry_validate :: "CacheOptionsEntry \<Rightarrow> flag_error + CacheOptionsEntry" where
  "CacheOptionsEntry_validate e = (if co_Type e = [] then Inl FeTypeRequired else Inr e)"

definition cache_field :: "string \<Rightarrow> CacheOptionsEntry \<Rightarrow> flag_error + CacheOptionsEntry" where
  "cache_field field e =
     rbind (key_value field) (\<lambda>(k, val).
       let key = to_lower k
       in Inr (if key = ''type'' then e\<lparr>co_Type := val\<rparr>
               else e\<lparr>co_Attrs := Some (mset_key key val (mrange (co_Attrs e)))\<rparr>))"

definition CacheOptionsEntry_UnmarshalText :: "string \<Rightarrow> flag_error + CacheOptionsEntry" where
  "CacheOptionsEntry_UnmarshalText s =
     rbind (fields_of s) (\<lambda>fields.
       if length fields = 1 \<and> equals \<notin> set (hd fields)
       then Inr \<lparr>co_Type = ''registry'', co_Attrs = Some [(''ref'', hd fields)]\<rparr>
       else rbind (rfold cache_field fields \<lparr>co_Type = [], co_Attrs = Some []\<rparr>) CacheOptionsEntry_validate)"

definition CacheOptionsEntry_MarshalJSON :: "CacheOptionsEntry \<Rightarrow> string gomap" where
  "CacheOptionsEntry_MarshalJSON e = mset_key ''type'' (co_Type e) (mrange (co_Attrs e))"

definition CacheOptionsEntry_UnmarshalJSON :: "string gomap \<Rightarrow> flag_error + CacheOptionsEntry" where
  "CacheOptionsEntry_UnmarshalJSON m =
     CacheOptionsEntry_validate \<lparr>co_Type = mstr m ''type'', co_Attrs = Some (mdel ''type'' m)\<rparr>"

definition cache_entries :: "string \<Rightarrow> flag_error + CacheOptionsEntry list" where
  "cache_entries s =
     (if equals \<notin> set s then rbind (fields_of s) (rmap CacheOptionsEntry_UnmarshalText)
      else rbind (CacheOptionsEntry_UnmarshalText s) (\<lambda>e. Inr [e]))"

definition ParseCacheEntry :: "string list \<Rightarrow> flag_error + CacheOptionsEntry list" where
  "ParseCacheEntry inp = rbind (rmap cache_entries inp) (\<lambda>es. Inr (concat es))"

text \<open>The environment is a parameter; a write to a nil map panics.\<close>

definition set_attr :: "string \<Rightarrow> string \<Rightarrow> string gomap option \<Rightarrow> flag_error + string gomap option" where
  "set_attr k v m = (case m of None \<Rightarrow> Inl FePanicNilMap | Some m \<Rightarrow> Inr (Some (mset_key k v m)))"

definition default_attr :: "string \<Rightarrow> string option \<Rightarrow> string gomap option \<Rightarrow> flag_error + string gomap option" where
  "default_attr k v m =
     (case mget (mrange m) k of
        Some _ \<Rightarrow> Inr m
      | None \<Rightarrow> (case v of None \<Rightarrow> Inr m | Some v \<Rightarrow> set_attr k v m))"

definition addGithubToken :: "(string \<Rightarrow> string option) \<Rightarrow> CacheOptionsEntry \<Rightarrow> flag_error + CacheOptionsEntry" where
  "addGithubToken env ci =
     (if co_Type ci \<noteq> ''gha'' then Inr ci
      else
        let attrs = co_Attrs ci;
            version = (case mget (mrange attrs) ''version'' of
                         Some v \<Rightarrow> v
                       | None \<Rightarrow> (case env ''ACTIONS_CACHE_SERVICE_V2'' of
                                   Some v \<Rightarrow> if parse_bool v = Some True then ''2'' else []
                                 | None \<Rightarrow> []))
        in rbind (default_attr ''token'' (env ''ACTIONS_RUNTIME_TOKEN'') attrs) (\<lambda>attrs.
           rbind (if version = ''2'' then default_attr ''url_v2'' (env ''ACTIONS_RESULTS_URL'') attrs else Inr attrs) (\<lambda>attrs.
           rbind (default_attr ''url''
                    (case env ''ACTIONS_CACHE_URL'' of Some v \<Rightarrow> Some v | None \<Rightarrow> env ''ACTIONS_RESULTS_URL'') attrs) (\<lambda>attrs.
           Inr (ci\<lparr>co_Attrs := attrs\<rparr>)))))"

record aws_credentials =
  aws_AccessKeyID :: string
  aws_SecretAccessKey :: string
  aws_SessionToken :: string

definition nonempty :: "string \<Rightarrow> string option" where
  "nonempty s = (if s = [] then None else Some s)"

text \<open>The credentials of the AWS configuration, or None when they cannot be loaded, are a parameter.\<close>

definition addAwsCredentials :: "aws_credentials option \<Rightarrow> CacheOptionsEntry \<Rightarrow> flag_error + CacheOptionsEntry" where
  "addAwsCredentials creds ci =
     (if co_Type ci \<noteq> ''s3'' then Inr ci
      else if mget (mrange (co_Attrs ci)) ''access_key_id'' \<noteq> None \<and> mget (mrange (co_Attrs ci)) ''secret_access_key'' \<noteq> None
      then Inr ci
      else (case creds of
              None \<Rightarrow> Inr ci
            | Some c \<Rightarrow>
                rbind (default_attr ''access_key_id'' (nonempty (aws_AccessKeyID c)) (co_Attrs ci)) (\<lambda>attrs.
                rbind (default_attr ''secret_access_key'' (nonempty (aws_SecretAccessKey c)) attrs) (\<lambda>attrs.
                rbind (default_attr ''session_token'' (nonempty (aws_SessionToken c)) attrs) (\<lambda>attrs.
                Inr (ci\<lparr>co_Attrs := attrs\<rparr>))))))"

definition isActive :: "CacheOptionsEntry \<Rightarrow> bool" where
  "isActive pb =
     (if co_Type pb \<noteq> ''gha'' then True
      else let m = mrange (co_Attrs pb)
           in mstr m ''token'' \<noteq> [] \<and> (mstr m ''url'' \<noteq> [] \<or> mstr m ''url_v2'' \<noteq> []))"

definition CacheOptionsEntry_ToPB ::
  "(string \<Rightarrow> string option) \<Rightarrow> aws_credentials option \<Rightarrow> CacheOptionsEntry \<Rightarrow> flag_error + CacheOptionsEntry" where
  "CacheOptionsEntry_ToPB env creds e = rbind (addGithubToken env e) (addAwsCredentials creds)"

definition CacheOptions_ToPB ::
  "(string \<Rightarrow> string option) \<Rightarrow> aws_credentials option \<Rightarrow> CacheOptionsEntry list \<Rightarrow> flag_error + CacheOptionsEntry list" where
  "CacheOptions_ToPB env creds o' = rbind (rmap (CacheOptionsEntry_ToPB env creds) o') (\<lambda>l. Inr (filter isActive l))"

section \<open>Attestations\<close>

definition Attest_String :: "Attest \<Rightarrow> string" where
  "Attest_String a =
     csv_WriteAttributes (mrange (at_Attrs a))
       ((if at_Disabled a then csv_Write ''disabled'' ''true'' else id)
         ((if at_Type a \<noteq> [] then csv_Write ''type'' (at_Type a) else id) []))"

record pb_Attest =
  pa_Type :: string
  pa_Disabled :: bool
  pa_Attrs :: string

text \<open>On the wire the attributes of an attestation are its text.\<close>

definition Attest_ToPB :: "Attest \<Rightarrow> pb_Attest" where
  "Attest_ToPB a = \<lparr>pa_Type = at_Type a, pa_Disabled = at_Disabled a,
     pa_Attrs = csv_WriteAttributes (mrange (at_Attrs a))
       ((if at_Disabled a then csv_Write ''disabled'' ''true'' else id)
         ((if at_Type a \<noteq> [] then csv_Write ''type'' (at_Type a) else id) []))\<rparr>"

datatype json_value = JStr string | JBool bool | JOther

definition Attest_MarshalJSON :: "Attest \<Rightarrow> json_value gomap" where
  "Attest_MarshalJSON a =
     (let m = mset_key ''type'' (JStr (at_Type a)) (map (\<lambda>(k, v). (k, JStr v)) (mrange (at_Attrs a)))
      in if at_Disabled a then mset_key ''disabled'' (JBool True) m else m)"

definition json_string_attr :: "string \<times> json_value \<Rightarrow> flag_error + string \<times> string" where
  "json_string_attr = (\<lambda>(k, v). case v of JStr s \<Rightarrow> Inr (k, s) | _ \<Rightarrow> Inl (FeNotString k))"

definition Attest_UnmarshalJSON :: "json_value gomap \<Rightarrow> Attest \<Rightarrow> flag_error + Attest" where
  "Attest_UnmarshalJSON m a =
     rbind (case mget m ''type'' of
              None \<Rightarrow> Inr a
            | Some (JStr t) \<Rightarrow> Inr (a\<lparr>at_Type := t\<rparr>)
            | Some _ \<Rightarrow> Inl (FeNotString ''type'')) (\<lambda>a.
     rbind (case mget m ''disabled'' of
              None \<Rightarrow> Inr a
            | Some (JBool b) \<Rightarrow> Inr (a\<lparr>at_Disabled := b\<rparr>)
            | Some _ \<Rightarrow> Inl FeNotBool) (\<lambda>a.
     rbind (rmap json_string_attr (mdel ''disabled'' (mdel ''type'' m))) (\<lambda>attrs.
     Inr (a\<lparr>at_Attrs := Some attrs\<rparr>))))"

definition attest_field :: "string \<Rightarrow> Attest \<Rightarrow> flag_error + Attest" where
  "attest_field field a =
     rbind (key_value field) (\<lambda>(k, val).
       let key = trim_space (to_lower k)
       in if key = ''type'' then Inr (a\<lparr>at_Type := val\<rparr>)
          else if key = ''disabled'' then
            (case parse_bool val of None \<Rightarrow> Inl (FeBool field) | Some b \<Rightarrow> Inr (a\<lparr>at_Disabled := b\<rparr>))
          else Inr (a\<lparr>at_Attrs := Some (mset_key key val (mrange (at_Attrs a)))\<rparr>))"

definition Attest_validate :: "Attest \<Rightarrow> flag_error + Attest" where
  "Attest_validate a = (if at_Type a = [] then Inl FeTypeRequired else Inr a)"

text \<open>The receiver keeps its type and flag until a field sets them.\<close>

definition Attest_UnmarshalText :: "string \<Rightarrow> Attest \<Rightarrow> flag_error + Attest" where
  "Attest_UnmarshalText s a =
     rbind (fields_of s) (\<lambda>fields.
     rbind (rfold attest_field fields (a\<lparr>at_Attrs := Some []\<rparr>)) Attest_validate)"

definition CanonicalizeAttest :: "string \<Rightarrow> string \<Rightarrow> string" where
  "CanonicalizeAttest attestType s =
     (if s = [] then []
      else (case parse_bool s of
              Some b \<Rightarrow> ''type='' @ attestType @ '',disabled='' @ (if b then ''false'' else ''true'')
            | None \<Rightarrow> ''type='' @ attestType @ '','' @ s))"

abbreviation empty_attest :: Attest where
  "empty_attest \<equiv> \<lparr>at_Type = [], at_Disabled = False, at_Attrs = None\<rparr>"

fun convert_loop :: "string list \<Rightarrow> Attest list \<Rightarrow> flag_error + pb_Attest list" where
  "convert_loop found [] = Inr []"
| "convert_loop found (a # as) =
     (if at_Type a \<in> set found then Inl (FeDuplicateAttest (at_Type a))
      else rbind (convert_loop (at_Type a # found) as) (\<lambda>r. Inr (Attest_ToPB a # r)))"

definition ConvertAttests :: "Attest list \<Rightarrow> flag_error + pb_Attest list" where
  "ConvertAttests l = convert_loop [] l"

definition ParseAttests :: "string list \<Rightarrow> flag_error + pb_Attest list" where
  "ParseAttests l = rbind (rmap (\<lambda>s. Attest_UnmarshalText s empty_attest) l) ConvertAttests"

definition parse_attest_field :: "string \<Rightarrow> pb_Attest \<Rightarrow> flag_error + pb_Attest" where
  "parse_attest_field field a =
     rbind (key_value field) (\<lambda>(k, val).
       let key = trim_space (to_lower k)
       in if key = ''type'' then Inr (a\<lparr>pa_Type := val\<rparr>)
          else if key = ''disabled'' then
            (case parse_bool val of None \<Rightarrow> Inl (FeBool field) | Some b \<Rightarrow> Inr (a\<lparr>pa_Disabled := b\<rparr>))
          else Inr a)"

definition ParseAttest :: "string \<Rightarrow> flag_error + pb_Attest option" where
  "ParseAttest s =
     (if s = [] then Inr None
      else rbind (fields_of s) (\<lambda>fields.
           rbind (rfold parse_attest_field fields \<lparr>pa_Type = [], pa_Disabled = False, pa_Attrs = s\<rparr>) (\<lambda>a.
           if pa_Type a = [] then Inl FeTypeRequired else Inr (Some a))))"

section \<open>Secrets\<close>

definition Secret_String :: "Secret \<Rightarrow> string" where
  "Secret_String s =
     (if se_Env s \<noteq> [] then csv_Write ''env'' (se_Env s) else id)
       ((if se_FilePath s \<noteq> [] then csv_Write ''src'' (se_FilePath s) else id)
         ((if se_ID s \<noteq> [] then csv_Write ''id'' (se_ID s) else id) []))"

definition secret_field :: "string \<Rightarrow> Secret \<times> string \<Rightarrow> flag_error + Secret \<times> string" where
  "secret_field field = (\<lambda>(s, typ).
     rbind (key_value field) (\<lambda>(k, val).
       let key = to_lower k
       in if key = ''type'' then
            (if val \<noteq> ''file'' \<and> val \<noteq> ''env'' then Inl (FeSecretType val) else Inr (s, val))
          else if key = ''id'' then Inr (s\<lparr>se_ID := val\<rparr>, typ)
          else if key = ''source'' \<or> key = ''src'' then Inr (s\<lparr>se_FilePath := val\<rparr>, typ)
          else if key = ''env'' then Inr (s\<lparr>se_Env := val\<rparr>, typ)
          else Inl (FeUnexpectedKey key field)))"

definition Secret_UnmarshalText :: "string \<Rightarrow> flag_error + Secret" where
  "Secret_UnmarshalText v =
     rbind (fields_of v) (\<lambda>fields.
     rbind (rfold secret_field fields (\<lparr>se_ID = [], se_FilePath = [], se_Env = []\<rparr>, [])) (\<lambda>(s, typ).
     Inr (if typ = ''env'' \<and> se_Env s = [] then s\<lparr>se_Env := se_FilePath s, se_FilePath := []\<rparr> else s)))"

definition parseSecret :: "string \<Rightarrow> flag_error + Secret" where
  "parseSecret v = Secret_UnmarshalText v"

definition ParseSecretSpecs :: "string list \<Rightarrow> flag_error + Secret list" where
  "ParseSecretSpecs sl = rmap parseSecret (filter (\<lambda>v. v \<noteq> []) sl)"

section \<open>SSH keys\<close>

definition SSH_String :: "SSH \<Rightarrow> string" where
  "SSH_String s = (if ss_Paths s = [] then ss_ID s else csv_Write (ss_ID s) (join [comma] (ss_Paths s)) [])"

definition SSH_UnmarshalText :: "string \<Rightarrow> SSH" where
  "SSH_UnmarshalText text =
     (case cut equals text of
        None \<Rightarrow> \<lparr>ss_ID = text, ss_Paths = []\<rparr>
      | Some (k, v) \<Rightarrow> \<lparr>ss_ID = k, ss_Paths = split_on comma v\<rparr>)"

definition ParseSSHSpecs :: "string list \<Rightarrow> SSH list" where
  "ParseSSHSpecs sl = map SSH_UnmarshalText (filter (\<lambda>s. s \<noteq> []) sl)"

section \<open>Annotations\<close>

text \<open>The key of an annotation holds a pointer to its platform, and Go compares pointers, not platforms,
  when it looks a key up: the model numbers the platforms in the order of their allocation.\<close>

record AnnotationKey =
  ak_Type :: string
  ak_Platform :: "(nat \<times> platform) option"
  ak_Key :: string

type_synonym annotations = "(AnnotationKey \<times> string) list"

fun annotation_put :: "AnnotationKey \<Rightarrow> string \<Rightarrow> annotations \<Rightarrow> annotations" where
  "annotation_put k v [] = [(k, v)]"
| "annotation_put k v ((k', v') # m) = (if k' = k then (k, v) # m else (k', v') # annotation_put k v m)"

definition annotationTypeRegexp :: "string \<Rightarrow> (string \<times> string) option" where
  "annotationTypeRegexp s =
     (let tc = (\<lambda>c. is_lower c \<or> c = CHR ''-'');
          pc = (\<lambda>c. is_letter c \<or> is_digit c \<or> c = CHR ''_'' \<or> c = CHR ''/'' \<or> c = CHR ''-'');
          typ = takeWhile tc s; rest = dropWhile tc s
      in if typ = [] then None
         else if rest = [] then Some (typ, [])
         else if hd rest = CHR ''['' \<and> last rest = CHR '']'' \<and> 2 < length rest \<and> list_all pc (butlast (tl rest))
         then Some (typ, butlast (tl rest)) else None)"

definition annotation_type :: "host \<Rightarrow> string \<Rightarrow> string \<Rightarrow> string \<Rightarrow> annotations \<times> nat \<Rightarrow> flag_error + annotations \<times> nat" where
  "annotation_type h key v typeAndPlatform = (\<lambda>(m, next).
     case annotationTypeRegexp typeAndPlatform of
       None \<Rightarrow> Inl (FeAnnotationType typeAndPlatform)
     | Some (typ, plat) \<Rightarrow>
         if typ \<notin> {[], ''index'', ''index-descriptor'', ''manifest'', ''manifest-descriptor''}
         then Inl (FeAnnotationType typ)
         else if plat = [] then
           Inr (annotation_put \<lparr>ak_Type = typ, ak_Platform = None, ak_Key = key\<rparr> v m, next)
         else rbind (map_err FePlatform (Parse h plat)) (\<lambda>p.
           Inr (annotation_put \<lparr>ak_Type = typ, ak_Platform = Some (next, p), ak_Key = key\<rparr> v m, next + 1)))"

definition annotation_input :: "host \<Rightarrow> string \<Rightarrow> annotations \<times> nat \<Rightarrow> flag_error + annotations \<times> nat" where
  "annotation_input h inp st =
     (if inp = [] then Inr st
      else (case cut equals inp of
              None \<Rightarrow> Inl (FeAnnotation inp)
            | Some (k, v) \<Rightarrow>
                (case cut (CHR '':'') k of
                   None \<Rightarrow> Inr (annotation_put \<lparr>ak_Type = [], ak_Platform = None, ak_Key = k\<rparr> v (fst st), snd st)
                 | Some (types, key) \<Rightarrow> rfold (annotation_type h key v) (split_on comma types) st)))"

definition ParseAnnotations :: "host \<Rightarrow> string list \<Rightarrow> flag_error + annotations" where
  "ParseAnnotations h inp = rbind (rfold (annotation_input h) inp ([], 0)) (\<lambda>(m, _). Inr m)"

section \<open>Call functions\<close>

record CallFunc =
  cf_Name :: string
  cf_Format :: string
  cf_IgnoreStatus :: bool

definition call_field :: "string \<Rightarrow> string \<Rightarrow> CallFunc \<Rightarrow> flag_error + CallFunc" where
  "call_field str field f =
     (case cut equals field of
        Some (k, v) \<Rightarrow>
          if k = ''format'' then Inr (f\<lparr>cf_Format := v\<rparr>)
          else if k = ''ignorestatus'' then
            (case parse_bool v of None \<Rightarrow> Inl (FeBool v) | Some b \<Rightarrow> Inr (f\<lparr>cf_IgnoreStatus := b\<rparr>))
          else Inl (FeCallField field)
      | None \<Rightarrow> if cf_Name f \<noteq> [] then Inl (FeCallValue str) else Inr (f\<lparr>cf_Name := field\<rparr>))"

definition ParseCallFunc :: "string \<Rightarrow> flag_error + CallFunc option" where
  "ParseCallFunc str =
     (if str = [] then Inr None
      else rbind (fields_of str) (\<lambda>fields.
           rbind (rfold (call_field str) fields \<lparr>cf_Name = [], cf_Format = [], cf_IgnoreStatus = False\<rparr>) (\<lambda>f.
             let f = (if cf_Name f = ''check'' then f\<lparr>cf_Name := ''lint''\<rparr> else f)
             in Inr (if cf_Name f = ''build'' then None else Some f))))"

section \<open>Entitlements of the command line\<close>

record DevicesConfig =
  dv_Devices :: "string gomap option"
  dv_All :: bool

definition device_field :: "string \<Rightarrow> string \<Rightarrow> flag_error + string" where
  "device_field field alias =
     (case cut equals field of
        None \<Rightarrow> Inl (FeDevice field)
      | Some (k, v) \<Rightarrow> if k = ''alias'' then Inr v else Inl (FeDevice k))"

definition ParseDevicesConfig :: "string \<Rightarrow> flag_error + DevicesConfig" where
  "ParseDevicesConfig s =
     (if s = [] then Inr \<lparr>dv_Devices = None, dv_All = True\<rparr>
      else rbind (fields_of s) (\<lambda>fields.
           rbind (rfold device_field (tl fields) []) (\<lambda>alias.
           Inr \<lparr>dv_Devices = Some (if alias \<noteq> [] then [(alias, hd fields)] else [(hd fields, [])]), dv_All = False\<rparr>)))"

definition DevicesConfig_Merge :: "DevicesConfig \<Rightarrow> DevicesConfig \<Rightarrow> DevicesConfig" where
  "DevicesConfig_Merge c c2 =
     (if dv_All c2 then c\<lparr>dv_All := True\<rparr>
      else if mrange (dv_Devices c2) = [] then c
      else c\<lparr>dv_Devices := Some (mput_all (mrange (dv_Devices c2)) (mrange (dv_Devices c)))\<rparr>)"

definition entitlements_Parse :: "string \<Rightarrow> flag_error + string \<times> DevicesConfig option" where
  "entitlements_Parse s =
     (let (key, rest) = (case cut equals s of None \<Rightarrow> (s, []) | Some kv \<Rightarrow> kv)
      in rbind (if key = ''device'' then rbind (ParseDevicesConfig rest) (\<lambda>c. Inr (key, Some c)) else Inr (s, None))
           (\<lambda>(s, cfg). if s \<in> {''security.insecure'', ''network.host'', ''device''} then Inr (s, cfg)
             else Inl (FeEntitlement s)))"

definition ParseEntitlements :: "string list \<Rightarrow> flag_error + string list" where
  "ParseEntitlements l =
     rmap (\<lambda>v. rbind (entitlements_Parse v) (\<lambda>_. Inr v)) (filter (\<lambda>v. v \<noteq> []) l)"

section \<open>Reading back what was written\<close>

definition kv_field :: "string \<times> string \<Rightarrow> string" where
  "kv_field = (\<lambda>(k, v). k @ [equals] @ v)"

lemma kv_field_pair: "kv_field (k, v) = k @ [equals] @ v"
  by (simp add: kv_field_def)

text \<open>Text that the writer, which does not quote, puts into a field unharmed.\<close>

definition plain :: "string \<Rightarrow> bool" where
  "plain s \<longleftrightarrow> comma \<notin> set s \<and> dquote \<notin> set s \<and> CHR 0x0A \<notin> set s"

definition plain_kv :: "string \<times> string \<Rightarrow> bool" where
  "plain_kv = (\<lambda>(k, v). plain k \<and> equals \<notin> set k \<and> plain v)"

lemma join_fields_Nil [simp]: "join [comma] (map kv_field kvs) = [] \<longleftrightarrow> kvs = []"
  by (cases kvs rule: list.exhaust; cases "tl kvs") (auto simp: kv_field_def split: prod.splits)

lemma join_snoc: "xs \<noteq> [] \<Longrightarrow> join sep (xs @ [x]) = join sep xs @ sep @ x"
  by (induction sep xs rule: join.induct) auto

lemma join_chars: "c \<in> set (join sep fs) \<Longrightarrow> c \<in> set sep \<or> (\<exists>f \<in> set fs. c \<in> set f)"
  by (induction sep fs rule: join.induct) auto

lemma csv_Write_join:
  "csv_Write k v (join [comma] (map kv_field kvs)) = join [comma] (map kv_field (kvs @ [(k, v)]))"
  by (cases "kvs = []") (auto simp: csv_Write_def join_snoc kv_field_pair)

lemma csv_WriteAttributes_join:
  "csv_WriteAttributes m (join [comma] (map kv_field kvs)) = join [comma] (map kv_field (kvs @ m))"
proof (induction m arbitrary: kvs)
  case (Cons a m)
  then show ?case
    using csv_Write_join [of "fst a" "snd a" kvs] Cons.IH [of "kvs @ [a]"]
    by (simp add: csv_WriteAttributes_def split_beta)
qed (simp add: csv_WriteAttributes_def)

text \<open>The fields at the head of an entry's text, each written when its value is not empty.\<close>

definition header :: "(string \<times> string) list \<Rightarrow> (string \<times> string) list" where
  "header kvs = filter (\<lambda>(_, v). v \<noteq> []) kvs"

lemma csv_Write_header:
  "(if v \<noteq> [] then csv_Write k v else id) (join [comma] (map kv_field (header kvs))) =
     join [comma] (map kv_field (header (kvs @ [(k, v)])))"
  by (auto simp: header_def csv_Write_join)

lemma csv_Write_first:
  "(if v \<noteq> [] then csv_Write k v else id) [] = join [comma] (map kv_field (header [(k, v)]))"
  using csv_Write_header [of v k "[]"] by (simp add: header_def)

lemmas csv_write_simps = csv_Write_first csv_Write_header csv_WriteAttributes_join append_Cons append_Nil

lemma fields_of_join:
  assumes "kvs \<noteq> []" and "list_all plain_kv kvs"
  shows "fields_of (join [comma] (map kv_field kvs)) = Inr (map kv_field kvs)"
proof -
  have "CHR 0x0A \<notin> set (join [comma] (map kv_field kvs))"
    using join_chars [of "CHR 0x0A" "[comma]" "map kv_field kvs"] assms(2)
    by (auto simp: list_all_iff plain_kv_def plain_def kv_field_def)
  moreover have "join [comma] (map kv_field kvs) \<noteq> []" using assms(1) by simp
  ultimately have "last (join [comma] (map kv_field kvs)) \<noteq> CHR 0x0A" by (metis last_in_set)
  moreover have "\<forall>f \<in> set (map kv_field kvs). comma \<notin> set f \<and> dquote \<notin> set f"
    using assms(2) by (auto simp: list_all_iff plain_kv_def plain_def kv_field_def)
  ultimately show ?thesis
    using csv_fields_join [of "map kv_field kvs"] assms(1) by (simp add: fields_of_def)
qed

lemma key_value_kv: "equals \<notin> set k \<Longrightarrow> key_value (kv_field (k, v)) = Inr (k, v)"
  by (simp add: key_value_def kv_field_def str_simps)

text \<open>A parser step that stores a key it does not know, run over the attributes of an entry.\<close>

lemma rfold_attrs:
  assumes "\<And>k v e m. (k, v) \<in> set kvs \<Longrightarrow> step (kv_field (k, v)) (put e m) = Inr (put e (mset_key k v m))"
  shows "rfold step (map kv_field kvs) (put e m) = Inr (put e (mput_all kvs m))"
  using assms by (induction kvs arbitrary: m) (auto simp: mput_all_def)

end
