(* ===== verification/FlagRoundTrip.thy ===== *)
theory FlagRoundTrip
  imports FlagText
begin

text \<open>
  Properties of the textual and JSON forms of the build options: what is written reads back, the command
  line parsers of attestations and the credentials of cache options.  The writers do not quote, so the
  round trips ask for values without commas, double quotes and newlines, and for attribute keys the
  parsers do not rewrite.
\<close>

text \<open>The attributes of an entry: keys in normal form, none of them reserved.\<close>

definition attrs_ok :: "(string \<Rightarrow> string) \<Rightarrow> string list \<Rightarrow> string gomap \<Rightarrow> bool" where
  "attrs_ok norm reserved m \<longleftrightarrow>
     wf_map m \<and> list_all (\<lambda>(k, v). plain_kv (k, v) \<and> norm k = k \<and> k \<notin> set reserved) m"

definition trim_lower :: "string \<Rightarrow> string" where
  "trim_lower k = trim_space (to_lower k)"

lemma attrs_okD:
  assumes "attrs_ok norm reserved m"
  shows "wf_map m" and "list_all plain_kv m"
    and "(k, v) \<in> set m \<Longrightarrow> equals \<notin> set k \<and> norm k = k \<and> k \<notin> set reserved"
  using assms by (auto simp: attrs_ok_def list_all_iff plain_kv_def)

lemma reserved_lower:
  "to_lower ''type'' = ''type''" "to_lower ''dest'' = ''dest''" "to_lower ''disabled'' = ''disabled''"
  "to_lower ''id'' = ''id''" "to_lower ''src'' = ''src''" "to_lower ''env'' = ''env''"
  "trim_space ''type'' = ''type''" "trim_space ''dest'' = ''dest''" "trim_space ''disabled'' = ''disabled''"
  "parse_bool ''true'' = Some True" "parse_bool ''false'' = Some False"
  by code_simp+

lemma plain_reserved:
  "plain ''type''" "plain ''dest''" "plain ''disabled''" "plain ''true''" "plain ''id''" "plain ''src''" "plain ''env''"
  by code_simp+

lemma key_value_simps [simp]:
  "key_value (kv_field (''type'', v)) = Inr (''type'', v)" "key_value (kv_field (''dest'', v)) = Inr (''dest'', v)"
  "key_value (kv_field (''disabled'', v)) = Inr (''disabled'', v)" "key_value (kv_field (''id'', v)) = Inr (''id'', v)"
  "key_value (kv_field (''src'', v)) = Inr (''src'', v)" "key_value (kv_field (''env'', v)) = Inr (''env'', v)"
  by (simp_all add: key_value_kv)

section \<open>Exports\<close>

lemma ExportEntry_String_join:
  "ExportEntry_String e =
     join [comma] (map kv_field (header [(''type'', ee_Type e), (''dest'', ee_Destination e)] @ mrange (ee_Attrs e)))"
  by (simp only: ExportEntry_String_def csv_write_simps)

lemma export_attrs:
  assumes "attrs_ok trim_lower [''type'', ''dest''] m"
  shows "rfold export_field (map kv_field m) (e\<lparr>ee_Attrs := Some m0\<rparr>) = Inr (e\<lparr>ee_Attrs := Some (mput_all m m0)\<rparr>)"
  using rfold_attrs [of m export_field "\<lambda>e m. e\<lparr>ee_Attrs := Some m\<rparr>"] attrs_okD(3) [OF assms]
  by (simp add: export_field_def key_value_kv trim_lower_def Let_def)


definition demo_export :: ExportEntry where
  "demo_export = \<lparr>ee_Type = ''oci'', ee_Attrs = Some [(''compression'', ''zstd''), (''tar'', ''false'')],
     ee_Destination = ''out.tar''\<rparr>"


section \<open>Cache options\<close>

lemma cache_attrs:
  assumes "attrs_ok to_lower [''type''] m"
  shows "rfold cache_field (map kv_field m) (e\<lparr>co_Attrs := Some m0\<rparr>) = Inr (e\<lparr>co_Attrs := Some (mput_all m m0)\<rparr>)"
  using rfold_attrs [of m cache_field "\<lambda>e m. e\<lparr>co_Attrs := Some m\<rparr>"] attrs_okD(3) [OF assms]
  by (simp add: cache_field_def key_value_kv Let_def)


definition demo_cache :: CacheOptionsEntry where
  "demo_cache = \<lparr>co_Type = ''registry'', co_Attrs = Some [(''ref'', ''example.com/cache:main'')]\<rparr>"


text \<open>Credentials are only added: what the entry sets itself is never replaced.\<close>

definition attrs_le :: "CacheOptionsEntry \<Rightarrow> CacheOptionsEntry \<Rightarrow> bool" where
  "attrs_le e e' \<longleftrightarrow> co_Type e' = co_Type e \<and> map_le (mget (mrange (co_Attrs e))) (mget (mrange (co_Attrs e')))"

lemma attrs_le_refl [simp]: "attrs_le e e"
  by (simp add: attrs_le_def)

lemma attrs_le_trans [trans]: "attrs_le e e' \<Longrightarrow> attrs_le e' e'' \<Longrightarrow> attrs_le e e''"
  by (auto simp: attrs_le_def intro: map_le_trans)

lemma default_attr_le: "default_attr k v m = Inr m' \<Longrightarrow> attrs_le (e\<lparr>co_Attrs := m\<rparr>) (e\<lparr>co_Attrs := m'\<rparr>)"
  by (auto simp: attrs_le_def default_attr_def set_attr_def map_le_def gomap_simps split: option.splits)

lemma default_attr_ok: "m \<noteq> None \<Longrightarrow> \<exists>m'. default_attr k v m = Inr m' \<and> m' \<noteq> None"
  by (auto simp: default_attr_def set_attr_def split: option.splits)

lemma default_attrs3_le:
  assumes "default_attr k1 v1 (co_Attrs e) = Inr m1" and "m2 = m1 \<or> default_attr k2 v2 m1 = Inr m2"
    and "default_attr k3 v3 m2 = Inr m3"
  shows "attrs_le e (e\<lparr>co_Attrs := m3\<rparr>)"
proof -
  have "attrs_le e (e\<lparr>co_Attrs := m1\<rparr>)" using default_attr_le [OF assms(1), of e] by simp
  also have "attrs_le (e\<lparr>co_Attrs := m1\<rparr>) (e\<lparr>co_Attrs := m2\<rparr>)" using assms(2) default_attr_le by auto
  also have "attrs_le (e\<lparr>co_Attrs := m2\<rparr>) (e\<lparr>co_Attrs := m3\<rparr>)" using assms(3) default_attr_le by blast
  finally show ?thesis .
qed

lemma addGithubToken_le: "addGithubToken env e = Inr e' \<Longrightarrow> attrs_le e e'"
  by (auto simp: addGithubToken_def Let_def result_iff intro: default_attrs3_le split: if_splits)

lemma addAwsCredentials_le: "addAwsCredentials creds e = Inr e' \<Longrightarrow> attrs_le e e'"
  by (auto simp: addAwsCredentials_def result_iff intro: default_attrs3_le split: if_splits option.splits)

lemma addGithubToken_ok: "co_Attrs e \<noteq> None \<Longrightarrow> \<exists>e'. addGithubToken env e = Inr e' \<and> co_Attrs e' \<noteq> None"
proof -
  assume a: "co_Attrs e \<noteq> None"
  obtain m1 where m1: "default_attr ''token'' (env ''ACTIONS_RUNTIME_TOKEN'') (co_Attrs e) = Inr m1" "m1 \<noteq> None"
    using default_attr_ok [OF a] by blast
  obtain m2 where m2: "default_attr ''url_v2'' (env ''ACTIONS_RESULTS_URL'') m1 = Inr m2" "m2 \<noteq> None"
    using default_attr_ok [OF m1(2)] by blast
  define url where "url = (case env ''ACTIONS_CACHE_URL'' of Some v \<Rightarrow> Some v | None \<Rightarrow> env ''ACTIONS_RESULTS_URL'')"
  obtain m3 m4 where "default_attr ''url'' url m1 = Inr m3" "m3 \<noteq> None" "default_attr ''url'' url m2 = Inr m4" "m4 \<noteq> None"
    using default_attr_ok [OF m1(2)] default_attr_ok [OF m2(2)] by metis
  with a m1 m2 show ?thesis by (auto simp: addGithubToken_def Let_def url_def)
qed

lemma addAwsCredentials_ok: "co_Attrs e \<noteq> None \<Longrightarrow> \<exists>e'. addAwsCredentials creds e = Inr e' \<and> co_Attrs e' \<noteq> None"
proof (cases creds)
  case (Some c)
  assume a: "co_Attrs e \<noteq> None"
  obtain m1 where m1: "default_attr ''access_key_id'' (nonempty (aws_AccessKeyID c)) (co_Attrs e) = Inr m1" "m1 \<noteq> None"
    using default_attr_ok [OF a] by blast
  obtain m2 where m2: "default_attr ''secret_access_key'' (nonempty (aws_SecretAccessKey c)) m1 = Inr m2" "m2 \<noteq> None"
    using default_attr_ok [OF m1(2)] by blast
  obtain m3 where "default_attr ''session_token'' (nonempty (aws_SessionToken c)) m2 = Inr m3" "m3 \<noteq> None"
    using default_attr_ok [OF m2(2)] by blast
  with a m1 m2 Some show ?thesis by (auto simp: addAwsCredentials_def)
qed (auto simp: addAwsCredentials_def)

text \<open>Converting a cache entry whose attributes are not nil succeeds, keeps
  its type, and replaces no attribute that the entry sets itself.\<close>

theorem CacheOptionsEntry_ToPB_keeps:
  assumes "co_Attrs e \<noteq> None"
  shows "\<exists>e'. CacheOptionsEntry_ToPB env creds e = Inr e' \<and> co_Type e' = co_Type e \<and>
    map_le (mget (mrange (co_Attrs e))) (mget (mrange (co_Attrs e')))"
proof -
  obtain e1 where e1: "addGithubToken env e = Inr e1" "co_Attrs e1 \<noteq> None"
    using addGithubToken_ok [OF assms] by blast
  obtain e2 where e2: "addAwsCredentials creds e1 = Inr e2" using addAwsCredentials_ok [OF e1(2)] by blast
  have "attrs_le e e2" by (rule attrs_le_trans [OF addGithubToken_le [OF e1(1)] addAwsCredentials_le [OF e2]])
  with e1 e2 show ?thesis by (simp add: CacheOptionsEntry_ToPB_def attrs_le_def)
qed

definition demo_gha :: CacheOptionsEntry where
  "demo_gha = \<lparr>co_Type = ''gha'', co_Attrs = Some [(''token'', ''mine'')]\<rparr>"

theorem CacheOptionsEntry_ToPB_keeps_witness:
  "\<exists>e'. CacheOptionsEntry_ToPB (\<lambda>_. Some ''env'') None demo_gha = Inr e' \<and> mget (mrange (co_Attrs e')) ''token'' = Some ''mine''"
proof -
  have "mget (mrange (co_Attrs demo_gha)) ''token'' = Some ''mine''" "co_Attrs demo_gha \<noteq> None" by code_simp+
  then show ?thesis
    using CacheOptionsEntry_ToPB_keeps [of demo_gha "\<lambda>_. Some ''env''" None]
    by (auto simp: map_le_def dom_def)
qed

section \<open>Attestations\<close>

lemma attest_attrs:
  assumes "attrs_ok trim_lower [''type'', ''disabled''] m"
  shows "rfold attest_field (map kv_field m) (e\<lparr>at_Attrs := Some m0\<rparr>) = Inr (e\<lparr>at_Attrs := Some (mput_all m m0)\<rparr>)"
  using rfold_attrs [of m attest_field "\<lambda>e m. e\<lparr>at_Attrs := Some m\<rparr>"] attrs_okD(3) [OF assms]
  by (simp add: attest_field_def key_value_kv trim_lower_def Let_def)

lemma Attest_text_roundtrip:
  assumes "at_Type a \<noteq> []" and "plain (at_Type a)" and "at_Attrs a = Some m"
    and "attrs_ok trim_lower [''type'', ''disabled''] m"
  shows "Attest_UnmarshalText (Attest_String a) empty_attest = Inr a"
proof -
  define hdr where "hdr = header [(''type'', at_Type a), (''disabled'', if at_Disabled a then ''true'' else [])]"
  have hdr: "hdr = (''type'', at_Type a) # (if at_Disabled a then [(''disabled'', ''true'')] else [])"
    using assms(1) by (simp add: hdr_def header_def)
  have "Attest_String a = csv_WriteAttributes m (join [comma] (map kv_field hdr))"
    using assms(1,3) csv_Write_first [of "at_Type a" "''type''"] csv_Write_join [of "''disabled''" "''true''" "[(''type'', at_Type a)]"]
    by (simp add: Attest_String_def hdr header_def)
  then have s: "Attest_String a = join [comma] (map kv_field (hdr @ m))"
    by (simp only: csv_WriteAttributes_join)
  have "list_all plain_kv (hdr @ m)"
    using assms(2) attrs_okD(2) [OF assms(4)] by (auto simp: hdr plain_kv_def plain_reserved)
  then have f: "fields_of (Attest_String a) = Inr (map kv_field (hdr @ m))"
    unfolding s by (intro fields_of_join) (simp_all add: hdr)
  have "rfold attest_field (map kv_field hdr) (empty_attest\<lparr>at_Attrs := Some []\<rparr>) = Inr (a\<lparr>at_Attrs := Some []\<rparr>)"
    by (cases a) (simp add: hdr attest_field_def reserved_lower Let_def)
  then show ?thesis
    using f attest_attrs [OF assms(4), where e = a and ?m0.0 = "[]"] assms(1,3)
      mput_all_Nil_id [OF attrs_okD(1) [OF assms(4)]]
    by (simp add: Attest_UnmarshalText_def rfold_append Attest_validate_def)
qed

lemma convert_loop_iff:
  "convert_loop found l = Inr r \<longleftrightarrow>
     distinct (map at_Type l) \<and> set (map at_Type l) \<inter> set found = {} \<and> r = map Attest_ToPB l"
  by (induction found l arbitrary: r rule: convert_loop.induct) (auto simp: result_iff)

text \<open>Attestations convert exactly when no type occurs twice, and then one by one;
  so they always convert once the duplicates were removed.\<close>

theorem ConvertAttests_iff:
  "(ConvertAttests l = Inr r \<longleftrightarrow> distinct (map at_Type l) \<and> r = map Attest_ToPB l) \<and>
   ConvertAttests (removeAttestDupes l') = Inr (map Attest_ToPB (removeAttestDupes l'))"
proof -
  have "distinct (map at_Type (removeAttestDupes l'))" using removeAttestDupes_spec by blast
  then show ?thesis by (simp add: ConvertAttests_def convert_loop_iff)
qed

text \<open>The short forms of the command line: \<open>--sbom=true\<close> and \<open>--provenance=false\<close> set the flag only.\<close>

lemma CanonicalizeAttest_flag:
  assumes "parse_bool s = Some b" and "t \<noteq> []" and "plain t"
  shows "Attest_UnmarshalText (CanonicalizeAttest t s) empty_attest = Inr \<lparr>at_Type = t, at_Disabled = (\<not> b), at_Attrs = Some []\<rparr>"
proof -
  let ?kvs = "[(''type'', t), (''disabled'', if b then ''false'' else ''true'')]"
  have "s \<noteq> []" using assms(1) by (auto simp: parse_bool_def)
  then have "CanonicalizeAttest t s = join [comma] (map kv_field ?kvs)"
    using assms(1) by (simp add: CanonicalizeAttest_def kv_field_pair)
  moreover have "plain ''false''" by code_simp
  ultimately have "fields_of (CanonicalizeAttest t s) = Inr (map kv_field ?kvs)"
    using assms(3) fields_of_join [of ?kvs] by (simp add: plain_kv_def plain_reserved)
  then show ?thesis
    using assms(2) by (simp add: Attest_UnmarshalText_def attest_field_def reserved_lower Attest_validate_def Let_def)
qed

section \<open>Secrets and SSH keys\<close>

lemma Secret_text_roundtrip:
  assumes "se_ID s \<noteq> [] \<or> se_FilePath s \<noteq> [] \<or> se_Env s \<noteq> []"
    and "plain (se_ID s)" and "plain (se_FilePath s)" and "plain (se_Env s)"
  shows "Secret_UnmarshalText (Secret_String s) = Inr s"
proof -
  let ?kvs = "header [(''id'', se_ID s), (''src'', se_FilePath s), (''env'', se_Env s)]"
  have "Secret_String s = join [comma] (map kv_field ?kvs)"
    by (simp only: Secret_String_def csv_write_simps)
  moreover have "?kvs \<noteq> []" "list_all plain_kv ?kvs"
    using assms by (auto simp: header_def plain_kv_def plain_reserved)
  ultimately have "fields_of (Secret_String s) = Inr (map kv_field ?kvs)"
    using fields_of_join [of ?kvs] by simp
  moreover have "rfold secret_field (map kv_field ?kvs) (\<lparr>se_ID = [], se_FilePath = [], se_Env = []\<rparr>, []) = Inr (s, [])"
    by (cases s) (auto simp: header_def secret_field_def reserved_lower Let_def)
  ultimately show ?thesis by (simp add: Secret_UnmarshalText_def)
qed

lemma SSH_text_roundtrip:
  assumes "equals \<notin> set (ss_ID s)" and "\<forall>p \<in> set (ss_Paths s). comma \<notin> set p"
  shows "SSH_UnmarshalText (SSH_String s) = s"
proof (cases "ss_Paths s = []")
  case True
  have "cut equals (ss_ID s) = None" using assms(1) by (simp add: cut_none_iff)
  with True show ?thesis by (cases s) (simp add: SSH_String_def SSH_UnmarshalText_def)
next
  case False
  then show ?thesis
    using assms split_on_join [of "ss_Paths s" comma]
    by (cases s) (simp add: SSH_String_def SSH_UnmarshalText_def csv_Write_def str_simps)
qed

text \<open>The writer does not quote: a destination with a comma is read back as two fields.\<close>

lemma ExportEntry_text_comma:
  "ExportEntry_UnmarshalText (ExportEntry_String (demo_export\<lparr>ee_Attrs := Some [], ee_Destination := ''a,b=c''\<rparr>)) =
     Inr \<lparr>ee_Type = ''oci'', ee_Attrs = Some [(''b'', ''c'')], ee_Destination = ''a''\<rparr>"
  by code_simp

end
