(* ===== verification/PlatformMatch.thy ===== *)
theory PlatformMatch
  imports Platform "HOL-Library.Word"
begin

text \<open>
  Matching of platforms (\<open>containerd/platforms\<close>): the matcher of one platform with the compatibility
  check of Windows versions, the vector of platforms that a platform can run, and the comparers
  \<open>Only\<close> and \<open>OnlyStrict\<close> with which the build selects its nodes.  Version numbers keep their width.
\<close>

section \<open>Numbers in text\<close>

definition all_digits :: "string \<Rightarrow> bool" where
  "all_digits s \<longleftrightarrow> s \<noteq> [] \<and> list_all is_digit s"

text \<open>\<open>strconv.ParseUint(s, 10, bits)\<close> and \<open>strconv.Atoi\<close>: None is the error, out of range included.\<close>

definition parse_uint :: "nat \<Rightarrow> string \<Rightarrow> nat option" where
  "parse_uint bits s = (if all_digits s \<and> dec_val s < 2 ^ bits then Some (dec_val s) else None)"

definition atoi :: "string \<Rightarrow> int option" where
  "atoi s =
     (let (neg, ds) = (case s of [] \<Rightarrow> (False, []) | c # r \<Rightarrow>
                         if c = CHR ''-'' then (True, r) else if c = CHR ''+'' then (False, r) else (False, s));
          v = (if neg then - int (dec_val ds) else int (dec_val ds))
      in if all_digits ds \<and> - (2 ^ 63) \<le> v \<and> v < 2 ^ 63 then Some v else None)"

section \<open>Windows versions\<close>

record windowsOSVersion =
  wv_Major :: "8 word"
  wv_Minor :: "8 word"
  wv_Build :: "16 word"

definition no_version :: windowsOSVersion where
  "no_version = \<lparr>wv_Major = 0, wv_Minor = 0, wv_Build = 0\<rparr>"

abbreviation v21H2Server :: "16 word" where "v21H2Server \<equiv> 20348"

definition compatLTSCReleases :: "16 word list" where
  "compatLTSCReleases = [v21H2Server]"

definition checkWindowsHostAndContainerCompat :: "windowsOSVersion \<Rightarrow> windowsOSVersion \<Rightarrow> bool" where
  "checkWindowsHostAndContainerCompat hst ctr =
     (if wv_Major hst \<noteq> wv_Major ctr \<or> wv_Minor hst \<noteq> wv_Minor ctr then False
      else if wv_Build hst < v21H2Server then wv_Build hst = wv_Build ctr
      else let supported = (case find (\<lambda>r. r \<le> wv_Build hst) (rev compatLTSCReleases) of None \<Rightarrow> 0 | Some r \<Rightarrow> r)
           in supported \<le> wv_Build ctr \<and> wv_Build ctr \<le> wv_Build hst)"

definition cut_or :: "char \<Rightarrow> string \<Rightarrow> string \<times> string" where
  "cut_or c s = (case cut c s of None \<Rightarrow> (s, []) | Some ab \<Rightarrow> ab)"

definition getWindowsOSVersion :: "string \<Rightarrow> windowsOSVersion" where
  "getWindowsOSVersion v =
     (if count_list v (CHR ''.'') < 2 then no_version
      else
        let (major, extra) = cut_or (CHR ''.'') v;
            (minor, extra) = cut_or (CHR ''.'') extra;
            (build, _) = cut_or (CHR ''.'') extra
        in (case (parse_uint 8 major, parse_uint 8 minor, parse_uint 16 build) of
              (Some a, Some b, Some c) \<Rightarrow> \<lparr>wv_Major = of_nat a, wv_Minor = of_nat b, wv_Build = of_nat c\<rparr>
            | _ \<Rightarrow> no_version))"

definition windows_Match :: "windowsOSVersion \<Rightarrow> string \<Rightarrow> bool" where
  "windows_Match m v =
     (if m = no_version \<or> v = [] then True
      else checkWindowsHostAndContainerCompat m (getWindowsOSVersion v))"

section \<open>Matchers and comparers\<close>

text \<open>The matcher of a platform, applied to another one.\<close>

definition matcher_Match :: "host \<Rightarrow> platform \<Rightarrow> platform \<Rightarrow> bool" where
  "matcher_Match h m p =
     (let m' = Normalize h m; n = Normalize h p
      in p_OS m' = p_OS n \<and> p_Architecture m' = p_Architecture n \<and> p_Variant m' = p_Variant n \<and>
         (if p_OS m = ''windows'' then windows_Match (getWindowsOSVersion (p_OSVersion m)) (p_OSVersion p) else True))"

record MatchComparer =
  mc_Match :: "platform \<Rightarrow> bool"
  mc_Less :: "platform \<Rightarrow> platform \<Rightarrow> bool"

fun ordered_Less :: "(platform \<Rightarrow> bool) list \<Rightarrow> platform \<Rightarrow> platform \<Rightarrow> bool" where
  "ordered_Less [] p1 p2 = False"
| "ordered_Less (m # ms) p1 p2 =
     (if m p1 \<and> \<not> m p2 then True else if m p1 \<or> m p2 then False else ordered_Less ms p1 p2)"

definition Ordered :: "host \<Rightarrow> platform list \<Rightarrow> MatchComparer" where
  "Ordered h ps = \<lparr>mc_Match = (\<lambda>p. list_ex (\<lambda>m. matcher_Match h m p) ps),
     mc_Less = ordered_Less (map (matcher_Match h) ps)\<rparr>"

definition OnlyStrict :: "host \<Rightarrow> platform \<Rightarrow> MatchComparer" where
  "OnlyStrict h p = Ordered h [Normalize h p]"

section \<open>The vector of compatible platforms\<close>

definition with_variant :: "platform \<Rightarrow> string \<Rightarrow> string \<Rightarrow> platform" where
  "with_variant p arch variant = p\<lparr>p_Architecture := arch, p_Variant := variant\<rparr>"

definition arm64_table :: "(string \<times> (nat \<times> nat) list) list" where
  "arm64_table = [(''v8'', [(8, 0)])] @ map (\<lambda>i. (''v8.'' @ itoa i, [(8, i)])) [0..<10] @ [(''v9'', [(9, 0), (8, 5)])] @
      map (\<lambda>i. (''v9.'' @ itoa i, [(9, i), (8, min 9 (i + 5))])) [0..<8]"

definition arm64variantToVersion :: "string \<Rightarrow> (nat \<times> nat) list option" where
  "arm64variantToVersion = map_of arm64_table"

definition amd64_vector :: "platform \<Rightarrow> platform list" where
  "amd64_vector p =
     p # (case atoi (trim_prefix ''v'' (p_Variant p)) of
            Some v \<Rightarrow> map (\<lambda>i. with_variant p (p_Architecture p) (''v'' @ itoa i)) (rev [1..<nat v])
          | None \<Rightarrow> []) @ [with_variant p ''386'' []]"

definition arm_vector :: "platform \<Rightarrow> platform list" where
  "arm_vector p =
     p # (case atoi (trim_prefix ''v'' (p_Variant p)) of
            Some v \<Rightarrow> map (\<lambda>i. with_variant p (p_Architecture p) (''v'' @ itoa i)) (rev [5..<nat v])
          | None \<Rightarrow> [])"

definition arm64_vector :: "platform \<Rightarrow> platform list" where
  "arm64_vector p =
     (let variant = (if p_Variant p = [] then ''v8'' else p_Variant p)
      in (case arm64variantToVersion variant of
            None \<Rightarrow> []
          | Some versions \<Rightarrow>
              concat (map (\<lambda>(major, minor).
                map (\<lambda>i. with_variant p ''arm64''
                       (if i = 0 then ''v'' @ itoa major else ''v'' @ itoa major @ ''.'' @ itoa i))
                    (rev [0..<minor + 1])) versions) @
              arm_vector (with_variant p ''arm''
                (if has_prefix ''v8'' variant \<or> has_prefix ''v9'' variant then ''v8'' else variant))))"

definition platformVector :: "platform \<Rightarrow> platform list" where
  "platformVector p =
     (if p_Architecture p = ''amd64'' then amd64_vector p
      else if p_Architecture p = ''arm'' then arm_vector p
      else if p_Architecture p = ''arm64'' then arm64_vector p
      else [p])"

definition Only :: "host \<Rightarrow> platform \<Rightarrow> MatchComparer" where
  "Only h p = Ordered h (platformVector (Normalize h p))"

section \<open>Exact matches\<close>

text \<open>What a matcher compares: system, architecture and variant in normal form.\<close>

definition platform_key :: "host \<Rightarrow> platform \<Rightarrow> string \<times> string \<times> string" where
  "platform_key h p = (let n = Normalize h p in (p_OS n, p_Architecture n, p_Variant n))"

lemma platform_key_Normalize: "wf_host h \<Longrightarrow> platform_key h (Normalize h p) = platform_key h p"
  by (simp add: platform_key_def Normalize_idem)

lemma matcher_Match_key: "matcher_Match h m p \<Longrightarrow> platform_key h m = platform_key h p"
  by (simp add: matcher_Match_def platform_key_def Let_def)

text \<open>Away from Windows the key decides.\<close>

lemma windows_OS: "p_OS m = ''windows'' \<Longrightarrow> fst (platform_key h m) = ''windows''"
proof -
  have "to_lower ''windows'' = ''windows''" by code_simp
  then show "p_OS m = ''windows'' \<Longrightarrow> fst (platform_key h m) = ''windows''"
    by (simp add: platform_key_def Normalize_def normalizeOS_def split: prod.splits)
qed

lemma matcher_Match_iff:
  assumes "fst (platform_key h p) \<noteq> ''windows''"
  shows "matcher_Match h m p \<longleftrightarrow> platform_key h m = platform_key h p"
  using assms windows_OS [of m h] by (auto simp: matcher_Match_def platform_key_def Let_def)

lemma ordered_Less_same: "(\<And>m. m \<in> set ms \<Longrightarrow> m p \<longleftrightarrow> m q) \<Longrightarrow> \<not> ordered_Less ms p q"
  by (induction ms) auto

text \<open>The variants of arm64 that the vector knows; the other architectures head their own vector.\<close>

definition known_variant :: "platform \<Rightarrow> bool" where
  "known_variant p \<longleftrightarrow> p_Architecture p \<noteq> ''arm64'' \<or> p_Variant p = [] \<or> arm64variantToVersion (p_Variant p) \<noteq> None"

definition arm64_head :: "(nat \<times> nat) list \<Rightarrow> string" where
  "arm64_head versions =
     (case versions of [] \<Rightarrow> [] | (major, minor) # _ \<Rightarrow>
        if minor = 0 then ''v'' @ itoa major else ''v'' @ itoa major @ ''.'' @ itoa minor)"

lemma arm64_table_heads:
  "list_all (\<lambda>(v, versions). versions \<noteq> [] \<and> normalizeArch ''arm64'' (arm64_head versions) = normalizeArch ''arm64'' v) arm64_table"
  by code_simp

lemma arm64_variant_head:
  assumes "arm64variantToVersion v = Some versions"
  shows "versions \<noteq> [] \<and> normalizeArch ''arm64'' (arm64_head versions) = normalizeArch ''arm64'' v"
proof -
  have "(v, versions) \<in> set arm64_table"
    using assms by (simp add: arm64variantToVersion_def map_of_SomeD)
  with arm64_table_heads show ?thesis by (fastforce simp: list_all_iff)
qed

lemma arm64_vector_head:
  assumes "arm64variantToVersion (if p_Variant p = [] then ''v8'' else p_Variant p) = Some versions"
  shows "\<exists>rest. arm64_vector p = with_variant p ''arm64'' (arm64_head versions) # rest"
proof -
  obtain major minor vs where v: "versions = (major, minor) # vs"
    using arm64_variant_head [OF assms] by (cases versions) auto
  have "rev [0..<minor + 1] = minor # rev [0..<minor]" by simp
  then show ?thesis using assms by (simp add: arm64_vector_def Let_def v arm64_head_def)
qed

lemma platformVector_head:
  assumes "wf_host h" and "known_variant (Normalize h p)"
  shows "\<exists>q rest. platformVector (Normalize h p) = q # rest \<and> platform_key h q = platform_key h p"
proof (cases "p_Architecture (Normalize h p) = ''arm64''")
  case False
  then show ?thesis
    using platform_key_Normalize [OF assms(1), of p]
    by (auto simp: platformVector_def amd64_vector_def arm_vector_def)
next
  case True
  define n where "n = Normalize h p"
  have v8: "arm64variantToVersion ''v8'' = Some [(8, 0)]" by code_simp
  obtain versions where vs: "arm64variantToVersion (if p_Variant n = [] then ''v8'' else p_Variant n) = Some versions"
    using assms(2) True v8 unfolding known_variant_def n_def [symmetric] by (cases "p_Variant n = []") auto
  obtain rest where r: "arm64_vector n = with_variant n ''arm64'' (arm64_head versions) # rest"
    using arm64_vector_head [OF vs] by blast
  have "normalizeArch ''arm64'' ''v8'' = normalizeArch ''arm64'' []" by code_simp
  then have "normalizeArch ''arm64'' (arm64_head versions) = normalizeArch ''arm64'' (p_Variant n)"
    using arm64_variant_head [OF vs] by (auto split: if_splits)
  moreover have "p_Architecture n = ''arm64''" using True by (simp add: n_def)
  ultimately have "platform_key h (with_variant n ''arm64'' (arm64_head versions)) = platform_key h n"
    by (simp add: platform_key_def Normalize_def with_variant_def split: prod.splits)
  moreover have "platformVector n = arm64_vector n"
    using True by (simp add: platformVector_def n_def)
  ultimately show ?thesis
    using r platform_key_Normalize [OF assms(1), of p] by (auto simp: n_def)
qed

end
