(* ===== verification/NodeResolver.thy ===== *)
theory NodeResolver
  imports PlatformMatch "HOL-Library.Multiset"
begin

text \<open>
  Selection of the nodes of a build (\<open>build/driver.go\<close>): for every requested platform the best node, the
  nodes of one driver recombined, the drivers booted once.  Booting a driver, listing the workers of a
  client and loading the capabilities of a client are calls to the outside and so parameters; a boot
  that succeeded is cached by the index of its node.  The goroutines of \<open>boot\<close> are taken in the order of
  the indexes, the first error ends the group.
\<close>

record rnode =
  rn_Driver :: bool
  rn_Platforms :: "platform list"

record resolvedNode =
  rs_driverIndex :: nat
  rs_platforms :: "platform list"

section \<open>Choosing a node\<close>

type_synonym best = "(nat \<times> platform) option"

definition get_platform :: "(platform \<Rightarrow> MatchComparer) \<Rightarrow> platform \<Rightarrow> nat \<times> platform \<Rightarrow> best \<Rightarrow> best" where
  "get_platform matcher p = (\<lambda>(i, p2) best.
     if \<not> mc_Match (matcher p2) p then best
     else (case best of
             None \<Rightarrow> Some (i, p2)
           | Some (_, bestPlatform) \<Rightarrow> if mc_Less (matcher p2) p bestPlatform then Some (i, p2) else best))"

text \<open>The platforms of the nodes in the order of the two loops, with the index of their node.\<close>

definition offers :: "rnode list \<Rightarrow> (nat \<Rightarrow> platform list) \<Rightarrow> (nat \<times> platform) list" where
  "offers nodes additional =
     concat (map (\<lambda>i. map (\<lambda>p. (i, p)) (rn_Platforms (nodes ! i) @ additional i)) [0..<length nodes])"

definition get_best :: "(platform \<Rightarrow> MatchComparer) \<Rightarrow> rnode list \<Rightarrow> (nat \<Rightarrow> platform list) \<Rightarrow> platform \<Rightarrow> best" where
  "get_best matcher nodes additional p = fold (get_platform matcher p) (offers nodes additional) None"

definition resolver_get :: "(platform \<Rightarrow> MatchComparer) \<Rightarrow> rnode list \<Rightarrow> (nat \<Rightarrow> platform list) \<Rightarrow> platform \<Rightarrow> nat option" where
  "resolver_get matcher nodes additional p = map_option fst (get_best matcher nodes additional p)"

section \<open>Booting\<close>

text \<open>The cache of the clients and the indexes for which the driver was booted, in order.\<close>

record ('c) clients =
  cl_cache :: "(nat, 'c) kvmap"
  cl_booted :: "nat list"

definition boot_one :: "(nat \<Rightarrow> 'e + 'c) \<Rightarrow> rnode list \<Rightarrow> nat \<Rightarrow> 'c clients \<Rightarrow> ('e + 'c option) \<times> 'c clients" where
  "boot_one boot nodes idx st =
     (if \<not> rn_Driver (nodes ! idx) then (Inr None, st)
      else (case mget (cl_cache st) idx of
              Some c \<Rightarrow> (Inr (Some c), st)
            | None \<Rightarrow>
                (let st = st\<lparr>cl_booted := cl_booted st @ [idx]\<rparr>
                 in case boot idx of
                      Inl e \<Rightarrow> (Inl e, st)
                    | Inr c \<Rightarrow> (Inr (Some c), st\<lparr>cl_cache := mset_key idx c (cl_cache st)\<rparr>))))"

fun resolver_boot :: "(nat \<Rightarrow> 'e + 'c) \<Rightarrow> rnode list \<Rightarrow> nat list \<Rightarrow> 'c clients \<Rightarrow> ('e + 'c option list) \<times> 'c clients" where
  "resolver_boot boot nodes [] st = (Inr [], st)"
| "resolver_boot boot nodes (idx # idxs) st =
     (case boot_one boot nodes idx st of
        (Inl e, st) \<Rightarrow> (Inl e, st)
      | (Inr c, st) \<Rightarrow>
          (case resolver_boot boot nodes idxs st of
             (Inl e, st) \<Rightarrow> (Inl e, st)
           | (Inr cs, st) \<Rightarrow> (Inr (c # cs), st)))"

text \<open>The capabilities of the clients, cached by the index of the node; a node without a client has none.\<close>

fun load_opts :: "('c \<Rightarrow> 'e + 'o) \<Rightarrow> (nat \<times> 'c option) list \<Rightarrow> (nat, 'o) kvmap \<Rightarrow> ('e + 'o option list) \<times> (nat, 'o) kvmap" where
  "load_opts BuildOpts [] cache = (Inr [], cache)"
| "load_opts BuildOpts ((idx, c) # ics) cache =
     (let (r, cache) =
        (case c of
           None \<Rightarrow> (Inr None, cache)
         | Some c \<Rightarrow>
             (case mget cache idx of
                Some opt \<Rightarrow> (Inr (Some opt), cache)
              | None \<Rightarrow> (case BuildOpts c of
                           Inl e \<Rightarrow> (Inl e, cache)
                         | Inr opt \<Rightarrow> (Inr (Some opt), mset_key idx opt cache))))
      in case r of
           Inl e \<Rightarrow> (Inl e, cache)
         | Inr opt \<Rightarrow>
             (case load_opts BuildOpts ics cache of
                (Inl e, cache) \<Rightarrow> (Inl e, cache)
              | (Inr opts, cache) \<Rightarrow> (Inr (opt # opts), cache)))"

definition resolver_opts ::
  "(nat \<Rightarrow> 'e + 'c) \<Rightarrow> ('c \<Rightarrow> 'e + 'o) \<Rightarrow> rnode list \<Rightarrow> nat list \<Rightarrow> 'c clients \<Rightarrow> (nat, 'o) kvmap \<Rightarrow>
   ('e + 'o option list) \<times> 'c clients \<times> (nat, 'o) kvmap" where
  "resolver_opts boot BuildOpts nodes idxs st cache =
     (case resolver_boot boot nodes idxs st of
        (Inl e, st) \<Rightarrow> (Inl e, st, cache)
      | (Inr cs, st) \<Rightarrow> (case load_opts BuildOpts (zip idxs cs) cache of (r, cache) \<Rightarrow> (r, st, cache)))"

section \<open>Resolving one build\<close>

definition recombine_step :: "resolvedNode \<Rightarrow> resolvedNode list \<times> (nat, nat) kvmap \<Rightarrow> resolvedNode list \<times> (nat, nat) kvmap" where
  "recombine_step node = (\<lambda>(result, lookup).
     case mget lookup (rs_driverIndex node) of
       Some idx \<Rightarrow> (result[idx := (result ! idx)\<lparr>rs_platforms := rs_platforms (result ! idx) @ rs_platforms node\<rparr>], lookup)
     | None \<Rightarrow> (result @ [node], mset_key (rs_driverIndex node) (length result) lookup))"

definition recombineNodes :: "resolvedNode list \<Rightarrow> resolvedNode list" where
  "recombineNodes nodes = fst (fold recombine_step nodes ([], []))"

definition resolve_idxs :: "(platform \<Rightarrow> MatchComparer) \<Rightarrow> rnode list \<Rightarrow> (nat \<Rightarrow> platform list) \<Rightarrow> platform list \<Rightarrow> nat list" where
  "resolve_idxs matcher nodes additional ps =
     map (\<lambda>p. case resolver_get matcher nodes additional p of None \<Rightarrow> 0 | Some i \<Rightarrow> i) ps"

definition resolve_perfect :: "(platform \<Rightarrow> MatchComparer) \<Rightarrow> rnode list \<Rightarrow> (nat \<Rightarrow> platform list) \<Rightarrow> platform list \<Rightarrow> bool" where
  "resolve_perfect matcher nodes additional ps = list_all (\<lambda>p. resolver_get matcher nodes additional p \<noteq> None) ps"

definition resolver_resolve ::
  "(nat \<Rightarrow> 'e + 'c) \<Rightarrow> rnode list \<Rightarrow> platform list \<Rightarrow> (platform \<Rightarrow> MatchComparer) \<Rightarrow> (nat \<Rightarrow> platform list) \<Rightarrow>
   'c clients \<Rightarrow> ('e + resolvedNode list \<times> bool) \<times> 'c clients" where
  "resolver_resolve boot nodes ps matcher additional st =
     (if nodes = [] then (Inr ([], True), st)
      else
        let nodeIdxs = resolve_idxs matcher nodes additional ps;
            perfect = resolve_perfect matcher nodes additional ps;
            rs = (if nodeIdxs = [] then [\<lparr>rs_driverIndex = 0, rs_platforms = []\<rparr>]
                  else map (\<lambda>(i, p). \<lparr>rs_driverIndex = i, rs_platforms = [p]\<rparr>) (zip nodeIdxs ps));
            nodeIdxs = (if nodeIdxs = [] then [0] else nodeIdxs)
        in (case resolver_boot boot nodes nodeIdxs st of
              (Inl e, st) \<Rightarrow> (Inl e, st)
            | (Inr _, st) \<Rightarrow> (Inr (recombineNodes rs, perfect), st)))"

section \<open>Resolving all builds\<close>

text \<open>The first pass: strict matching, ended by the first build that has no perfect match.  The builds
  are a map in Go; the order in which they are visited is the order of the list.\<close>

fun resolve_strict ::
  "(nat \<Rightarrow> 'e + 'c) \<Rightarrow> host \<Rightarrow> rnode list \<Rightarrow> (string \<times> platform list) list \<Rightarrow> resolvedNode list gomap \<Rightarrow>
   'c clients \<Rightarrow> ('e + resolvedNode list gomap) \<times> 'c clients" where
  "resolve_strict boot h nodes [] acc st = (Inr acc, st)"
| "resolve_strict boot h nodes ((k, ps) # opts) acc st =
     (case resolver_resolve boot nodes ps (OnlyStrict h) (\<lambda>_. []) st of
        (Inl e, st) \<Rightarrow> (Inl e, st)
      | (Inr (node, perfect), st) \<Rightarrow>
          if \<not> perfect then (Inr acc, st)
          else resolve_strict boot h nodes opts (mset_key k node acc) st)"

fun resolve_only ::
  "(nat \<Rightarrow> 'e + 'c) \<Rightarrow> host \<Rightarrow> rnode list \<Rightarrow> (nat \<Rightarrow> platform list) \<Rightarrow> (string \<times> platform list) list \<Rightarrow>
   resolvedNode list gomap \<Rightarrow> 'c clients \<Rightarrow> ('e + resolvedNode list gomap) \<times> 'c clients" where
  "resolve_only boot h nodes workers [] acc st = (Inr acc, st)"
| "resolve_only boot h nodes workers ((k, ps) # opts) acc st =
     (case resolver_resolve boot nodes ps (Only h) workers st of
        (Inl e, st) \<Rightarrow> (Inl e, st)
      | (Inr (node, _), st) \<Rightarrow> resolve_only boot h nodes workers opts (mset_key k node acc) st)"

text \<open>The platforms of the workers of a client, one per normal form.  The code ranges over a map, so
  their order is not determined; \<open>order\<close> chooses one.\<close>

definition worker_platforms :: "host \<Rightarrow> (platform list \<Rightarrow> platform list) \<Rightarrow> platform list list \<Rightarrow> platform list" where
  "worker_platforms h order ww =
     order (map snd (mput_all (map (\<lambda>p. (Format (Normalize h p), p)) (concat ww)) []))"

definition list_workers ::
  "('c \<Rightarrow> 'e + platform list list) \<Rightarrow> host \<Rightarrow> (platform list \<Rightarrow> platform list) \<Rightarrow> 'c option \<Rightarrow> 'e + platform list" where
  "list_workers ListWorkers h order c =
     (case c of None \<Rightarrow> Inr [] | Some c \<Rightarrow> rbind (ListWorkers c) (\<lambda>ww. Inr (worker_platforms h order ww)))"

definition resolver_Resolve ::
  "(nat \<Rightarrow> 'e + 'c) \<Rightarrow> ('c \<Rightarrow> 'e + platform list list) \<Rightarrow> (platform list \<Rightarrow> platform list) \<Rightarrow> ('c \<Rightarrow> 'e + 'o) \<Rightarrow>
   host \<Rightarrow> rnode list \<Rightarrow> (string \<times> platform list) list \<Rightarrow> 'c clients \<Rightarrow> ('e + resolvedNode list gomap) \<times> 'c clients" where
  "resolver_Resolve boot ListWorkers order BuildOpts h nodes opts st =
     (if nodes = [] then (Inr [], st)
      else
        let (strict, st) = resolve_strict boot h nodes opts [] st;
            (chosen, st) =
              (case strict of
                 Inl e \<Rightarrow> (Inl e, st)
               | Inr ns \<Rightarrow>
                   if length ns = length opts then (Inr ns, st)
                   else (case resolver_boot boot nodes [0..<length nodes] st of
                           (Inl e, st) \<Rightarrow> (Inl e, st)
                         | (Inr cs, st) \<Rightarrow>
                             (case rmap (list_workers ListWorkers h order) cs of
                                Inl e \<Rightarrow> (Inl e, st)
                              | Inr workers \<Rightarrow> resolve_only boot h nodes (\<lambda>i. workers ! i) opts [] st)))
        in (case chosen of
              Inl e \<Rightarrow> (Inl e, st)
            | Inr ns \<Rightarrow>
                (let idxs = concat (map (\<lambda>(_, rs). map rs_driverIndex rs) ns)
                 in case resolver_opts boot BuildOpts nodes idxs st [] of
                      (Inl e, st, _) \<Rightarrow> (Inl e, st)
                    | (Inr _, st, _) \<Rightarrow> (Inr ns, st))))"

section \<open>Which node is chosen\<close>

lemma offers_iff: "(i, p) \<in> set (offers nodes additional) \<longleftrightarrow> i < length nodes \<and> p \<in> set (rn_Platforms (nodes ! i) @ additional i)"
  by (auto simp: offers_def)

lemma get_platform_None [simp]:
  "get_platform matcher p o' best = None \<longleftrightarrow> best = None \<and> \<not> mc_Match (matcher (snd o')) p"
  by (cases o') (auto simp: get_platform_def split: option.splits)

lemma fold_get_None:
  "fold (get_platform matcher p) os best = None \<longleftrightarrow> best = None \<and> (\<forall>o' \<in> set os. \<not> mc_Match (matcher (snd o')) p)"
  by (induction os arbitrary: best) auto

lemma fold_get_mem:
  "fold (get_platform matcher p) os best = Some r \<Longrightarrow>
     best = Some r \<or> r \<in> set os \<and> mc_Match (matcher (snd r)) p"
proof (induction os arbitrary: best)
  case (Cons o' os)
  then have "get_platform matcher p o' best = Some r \<or> r \<in> set os \<and> mc_Match (matcher (snd r)) p" by simp
  then show ?case
    by (cases o') (auto simp: get_platform_def split: if_splits option.splits)
qed simp

text \<open>What a family of comparers promises for a requested platform: an exact match matches, is never given
  up, and takes the place of one that is not exact.\<close>

locale exact_first =
  fixes matcher :: "platform \<Rightarrow> MatchComparer" and p :: platform and exact :: "platform \<Rightarrow> bool"
  assumes exact_match: "exact q \<Longrightarrow> mc_Match (matcher q) p"
    and exact_kept: "exact q \<Longrightarrow> \<not> mc_Less (matcher r) p q"
    and exact_taken: "exact r \<Longrightarrow> \<not> exact q \<Longrightarrow> mc_Match (matcher q) p \<Longrightarrow> mc_Less (matcher r) p q"
begin

lemma get_kept: "exact q \<Longrightarrow> fold (get_platform matcher p) os (Some (i, q)) = Some (i, q)"
  by (induction os) (auto simp: get_platform_def exact_kept)

lemma get_first_exact:
  assumes "\<exists>o' \<in> set os. exact (snd o')"
    and "\<And>i q. best = Some (i, q) \<Longrightarrow> \<not> exact q \<and> mc_Match (matcher q) p"
  shows "fold (get_platform matcher p) os best = find (\<lambda>o'. exact (snd o')) os"
  using assms
proof (induction os arbitrary: best)
  case (Cons o' os)
  obtain i r where o': "o' = (i, r)" by (cases o')
  show ?case
  proof (cases "exact r")
    case True
    then have "get_platform matcher p o' best = Some (i, r)"
      using Cons.prems(2) exact_match exact_taken by (auto simp: get_platform_def o' split: option.splits)
    then show ?thesis using True get_kept [OF True] by (simp add: o')
  next
    case False
    have "\<not> exact q \<and> mc_Match (matcher q) p" if "get_platform matcher p o' best = Some (k, q)" for k q
      using that Cons.prems(2) False by (auto simp: get_platform_def o' split: if_splits option.splits)
    then show ?thesis using Cons.IH [of "get_platform matcher p o' best"] Cons.prems(1) False by (simp add: o')
  qed
qed simp

lemma get_exact:
  "\<exists>o' \<in> set (offers nodes additional). exact (snd o') \<Longrightarrow>
     resolver_get matcher nodes additional p = map_option fst (find (\<lambda>o'. exact (snd o')) (offers nodes additional))"
  using get_first_exact [of "offers nodes additional" None] by (simp add: resolver_get_def get_best_def)

end

text \<open>The two comparers of the build keep these promises: \<open>OnlyStrict\<close>, for which every match is exact,
  and \<open>Only\<close>.  Windows is left out because there the version of the system decides as well, and for
  \<open>Only\<close> the variants of arm64 that its table does not list.\<close>

definition same_platform :: "host \<Rightarrow> platform \<Rightarrow> platform \<Rightarrow> bool" where
  "same_platform h p q \<longleftrightarrow> platform_key h q = platform_key h p"

definition plain_request :: "host \<Rightarrow> platform \<Rightarrow> bool" where
  "plain_request h p \<longleftrightarrow> wf_host h \<and> fst (platform_key h p) \<noteq> ''windows'' \<and> known_variant (Normalize h p)"

lemma OnlyStrict_Match:
  assumes "wf_host h" and "fst (platform_key h p) \<noteq> ''windows''"
  shows "mc_Match (OnlyStrict h q) p \<longleftrightarrow> same_platform h p q"
  using assms by (simp add: OnlyStrict_def Ordered_def matcher_Match_iff platform_key_Normalize same_platform_def)

lemma ordered_Less_key:
  assumes "fst (platform_key h p) \<noteq> ''windows''" and "same_platform h p q"
  shows "\<not> ordered_Less (map (matcher_Match h) ps) p q"
  using assms by (intro ordered_Less_same) (auto simp: matcher_Match_iff same_platform_def)

definition exact_strict :: "host \<Rightarrow> platform \<Rightarrow> platform \<Rightarrow> bool" where
  "exact_strict h p q \<longleftrightarrow> wf_host h \<and> fst (platform_key h p) \<noteq> ''windows'' \<and> same_platform h p q"

definition exact_only :: "host \<Rightarrow> platform \<Rightarrow> platform \<Rightarrow> bool" where
  "exact_only h p q \<longleftrightarrow> plain_request h p \<and> same_platform h p q"

lemma Only_head:
  assumes "exact_only h p q"
  shows "\<exists>v rest. platformVector (Normalize h q) = v # rest \<and> platform_key h v = platform_key h p"
proof -
  have "known_variant (Normalize h q)" "wf_host h"
    using assms by (auto simp: exact_only_def plain_request_def known_variant_def same_platform_def platform_key_def Let_def)
  from platformVector_head [OF this(2,1)] show ?thesis
    using assms by (simp add: exact_only_def same_platform_def)
qed

interpretation strict: exact_first "OnlyStrict h" p "exact_strict h p" for h p
proof
  show "exact_strict h p q \<Longrightarrow> mc_Match (OnlyStrict h q) p" for q
    using OnlyStrict_Match by (simp add: exact_strict_def)
  show "exact_strict h p q \<Longrightarrow> \<not> mc_Less (OnlyStrict h r) p q" for q r
    using ordered_Less_key [of h p q "[Normalize h r]"] by (simp add: OnlyStrict_def Ordered_def exact_strict_def)
  show "exact_strict h p r \<Longrightarrow> \<not> exact_strict h p q \<Longrightarrow> mc_Match (OnlyStrict h q) p \<Longrightarrow> mc_Less (OnlyStrict h r) p q" for q r
    using OnlyStrict_Match by (simp add: exact_strict_def)
qed

interpretation only: exact_first "Only h" p "exact_only h p" for h p
proof
  show "mc_Match (Only h q) p" if "exact_only h p q" for q
    using Only_head [OF that] that
    by (auto simp: Only_def Ordered_def matcher_Match_iff exact_only_def plain_request_def)
  show "exact_only h p q \<Longrightarrow> \<not> mc_Less (Only h r) p q" for q r
    using ordered_Less_key by (simp add: Only_def Ordered_def exact_only_def plain_request_def)
  show "mc_Less (Only h r) p q" if ex: "exact_only h p r" "\<not> exact_only h p q" for q r
  proof -
    obtain v rest where v: "platformVector (Normalize h r) = v # rest" "platform_key h v = platform_key h p"
      using Only_head [OF ex(1)] by blast
    moreover have "matcher_Match h v p"
      using v(2) ex(1) by (simp add: matcher_Match_iff exact_only_def plain_request_def)
    moreover have "\<not> matcher_Match h v q"
      using v(2) ex matcher_Match_key [of h v q] by (auto simp: exact_only_def same_platform_def)
    ultimately show ?thesis by (simp add: Only_def Ordered_def)
  qed
qed

section \<open>Recombining\<close>

text \<open>The platforms given to a driver, in order.\<close>

definition platforms_of :: "nat \<Rightarrow> resolvedNode list \<Rightarrow> platform list" where
  "platforms_of i nodes = concat (map rs_platforms (filter (\<lambda>n. rs_driverIndex n = i) nodes))"

lemma platforms_of_simps [simp]:
  "platforms_of i [] = []"
  "platforms_of i (xs @ ys) = platforms_of i xs @ platforms_of i ys"
  "platforms_of i [n] = (if rs_driverIndex n = i then rs_platforms n else [])"
  by (auto simp: platforms_of_def)

lemma platforms_of_none: "i \<notin> rs_driverIndex ` set nodes \<Longrightarrow> platforms_of i nodes = []"
  by (force simp: platforms_of_def filter_empty_conv)

text \<open>The drivers in the order in which they first occur.\<close>

fun firsts :: "'a list \<Rightarrow> 'a list \<Rightarrow> 'a list" where
  "firsts seen [] = seen"
| "firsts seen (x # xs) = firsts (if x \<in> set seen then seen else seen @ [x]) xs"

lemma firsts_snoc:
  "firsts seen (xs @ [x]) = (if x \<in> set (firsts seen xs) then firsts seen xs else firsts seen xs @ [x])"
  by (induction seen xs rule: firsts.induct) auto

lemma firsts_set: "set (firsts seen xs) = set seen \<union> set xs"
  by (induction seen xs rule: firsts.induct) auto

lemma firsts_distinct: "distinct seen \<Longrightarrow> distinct (firsts seen xs)"
  by (induction seen xs rule: firsts.induct) auto

definition recombined :: "resolvedNode list \<Rightarrow> resolvedNode list" where
  "recombined nodes =
     map (\<lambda>d. \<lparr>rs_driverIndex = d, rs_platforms = platforms_of d nodes\<rparr>) (firsts [] (map rs_driverIndex nodes))"

lemma recombined_seen:
  assumes "i < length (firsts [] (map rs_driverIndex xs))" and "firsts [] (map rs_driverIndex xs) ! i = rs_driverIndex n"
  shows "recombined (xs @ [n]) =
    (recombined xs)[i := (recombined xs ! i)\<lparr>rs_platforms := rs_platforms (recombined xs ! i) @ rs_platforms n\<rparr>]"
proof -
  let ?ds = "firsts [] (map rs_driverIndex xs)"
  have seen: "rs_driverIndex n \<in> set ?ds" using assms nth_mem by force
  have d: "distinct ?ds" by (rule firsts_distinct) simp
  have ds: "firsts [] (map rs_driverIndex (xs @ [n])) = ?ds" using seen by (simp add: firsts_snoc)
  show ?thesis
  proof (rule nth_equalityI)
    show "length (recombined (xs @ [n])) = length ((recombined xs)[i :=
        (recombined xs ! i)\<lparr>rs_platforms := rs_platforms (recombined xs ! i) @ rs_platforms n\<rparr>])"
      using ds by (simp add: recombined_def)
    fix k assume "k < length (recombined (xs @ [n]))"
    then have k: "k < length ?ds" using ds by (simp add: recombined_def)
    have "?ds ! k = rs_driverIndex n \<longleftrightarrow> k = i" using d k assms by (metis nth_eq_iff_index_eq)
    then show "recombined (xs @ [n]) ! k = (recombined xs)[i :=
        (recombined xs ! i)\<lparr>rs_platforms := rs_platforms (recombined xs ! i) @ rs_platforms n\<rparr>] ! k"
      using k ds assms by (auto simp: recombined_def nth_list_update)
  qed
qed

lemma recombineNodes_spec: "recombineNodes nodes = recombined nodes"
proof -
  have "fst (fold recombine_step nodes ([], [])) = recombined nodes \<and>
      (\<forall>d i. mget (snd (fold recombine_step nodes ([], []))) d = Some i \<longleftrightarrow>
         i < length (firsts [] (map rs_driverIndex nodes)) \<and> firsts [] (map rs_driverIndex nodes) ! i = d)"
  proof (induction nodes rule: rev_induct)
    case (snoc n xs)
    let ?ds = "firsts [] (map rs_driverIndex xs)"
    obtain result lookup where r: "fold recombine_step xs ([], []) = (result, lookup)" by fastforce
    with snoc have res: "result = recombined xs"
      and ix: "mget lookup d = Some i \<longleftrightarrow> i < length ?ds \<and> ?ds ! i = d" for d i by auto
    have step: "fold recombine_step (xs @ [n]) ([], []) = recombine_step n (result, lookup)" using r by simp
    show ?case
    proof (cases "mget lookup (rs_driverIndex n)")
      case (Some i)
      then have i: "i < length ?ds" "?ds ! i = rs_driverIndex n" using ix by auto
      then have "rs_driverIndex n \<in> set ?ds" using nth_mem by force
      moreover have "recombine_step n (result, lookup) =
          (result[i := (result ! i)\<lparr>rs_platforms := rs_platforms (result ! i) @ rs_platforms n\<rparr>], lookup)"
        using Some by (simp add: recombine_step_def)
      ultimately show ?thesis
        unfolding step using recombined_seen [OF i] ix by (simp add: res firsts_snoc)
    next
      case None
      have new: "rs_driverIndex n \<notin> set ?ds"
        using None ix by (metis in_set_conv_nth option.distinct(1))
      then have "platforms_of (rs_driverIndex n) xs = []"
        by (intro platforms_of_none) (simp add: firsts_set)
      moreover have "rs_driverIndex n \<noteq> d" if "d \<in> set ?ds" for d using new that by auto
      ultimately have "recombined (xs @ [n]) = recombined xs @ [n]"
        using new by (cases n) (simp add: recombined_def firsts_snoc)
      moreover have "mget (mset_key (rs_driverIndex n) (length result) lookup) d = Some i \<longleftrightarrow>
          i < length (?ds @ [rs_driverIndex n]) \<and> (?ds @ [rs_driverIndex n]) ! i = d" for d i
        using ix [of d i] None by (auto simp: gomap_simps res recombined_def nth_append less_Suc_eq)
      moreover have "recombine_step n (result, lookup) =
          (result @ [n], mset_key (rs_driverIndex n) (length result) lookup)"
        using None by (simp add: recombine_step_def)
      ultimately show ?thesis
        unfolding step using new by (simp add: res firsts_snoc)
    qed
  qed (simp add: recombined_def mget_def)
  then show ?thesis by (simp add: recombineNodes_def)
qed

section \<open>Booting once\<close>

definition boot_inv :: "rnode list \<Rightarrow> 'c clients \<Rightarrow> bool" where
  "boot_inv nodes st \<longleftrightarrow> distinct (cl_booted st) \<and>
     (\<forall>i. i \<in> set (cl_booted st) \<longleftrightarrow> mget (cl_cache st) i \<noteq> None) \<and> (\<forall>i \<in> set (cl_booted st). rn_Driver (nodes ! i))"

lemma boot_one_inv:
  assumes "\<forall>i. is_ok (boot i)" and "boot_inv nodes st"
  shows "boot_inv nodes (snd (boot_one boot nodes idx st))" and "is_ok (fst (boot_one boot nodes idx st))"
proof -
  obtain c where "boot idx = Inr c" using assms(1) by (auto simp: is_ok_iff)
  then show "boot_inv nodes (snd (boot_one boot nodes idx st))" "is_ok (fst (boot_one boot nodes idx st))"
    using assms(2) by (auto simp: boot_one_def boot_inv_def is_ok_iff gomap_simps split: option.splits)
qed

lemma resolver_boot_inv:
  assumes "\<forall>i. is_ok (boot i)" and "boot_inv nodes st"
  shows "boot_inv nodes (snd (resolver_boot boot nodes idxs st)) \<and> is_ok (fst (resolver_boot boot nodes idxs st))"
  using assms(2)
proof (induction idxs arbitrary: st)
  case (Cons idx idxs)
  obtain r st1 where 1: "boot_one boot nodes idx st = (r, st1)" by fastforce
  then obtain c where c: "r = Inr c" "boot_inv nodes st1"
    using boot_one_inv [OF assms(1) Cons.prems, where idx = idx] by (auto simp: is_ok_iff)
  with Cons.IH [of st1] 1 show ?case by (auto simp: is_ok_def split: prod.splits sum.splits)
qed (simp add: is_ok_def)

lemma resolver_resolve_inv:
  assumes "\<forall>i. is_ok (boot i)" and "boot_inv nodes st"
  shows "boot_inv nodes (snd (resolver_resolve boot nodes ps matcher additional st)) \<and>
    is_ok (fst (resolver_resolve boot nodes ps matcher additional st))"
proof (cases "nodes = []")
  case False
  define idxs where "idxs = (if resolve_idxs matcher nodes additional ps = [] then [0] else resolve_idxs matcher nodes additional ps)"
  obtain r st1 where b: "resolver_boot boot nodes idxs st = (r, st1)" by fastforce
  then have "boot_inv nodes st1" "is_ok r" using resolver_boot_inv [OF assms, where idxs = idxs] by auto
  then show ?thesis
    using False b by (auto simp: resolver_resolve_def Let_def is_ok_iff simp flip: idxs_def)
qed (use assms in \<open>simp add: resolver_resolve_def is_ok_def\<close>)

lemma resolve_strict_inv:
  assumes "\<forall>i. is_ok (boot i)" and "boot_inv nodes st"
  shows "boot_inv nodes (snd (resolve_strict boot h nodes opts acc st))"
  using assms(2)
proof (induction opts arbitrary: acc st)
  case (Cons o' opts)
  obtain k ps where o': "o' = (k, ps)" by (cases o')
  obtain r st1 where 1: "resolver_resolve boot nodes ps (OnlyStrict h) (\<lambda>_. []) st = (r, st1)" by fastforce
  then have "boot_inv nodes st1" using resolver_resolve_inv [OF assms(1) Cons.prems, where ps = ps and matcher = "OnlyStrict h" and additional = "\<lambda>_. []"] by simp
  with Cons.IH [of st1] 1 o' show ?case by (auto split: sum.splits prod.splits)
qed simp

lemma resolve_only_inv:
  assumes "\<forall>i. is_ok (boot i)" and "boot_inv nodes st"
  shows "boot_inv nodes (snd (resolve_only boot h nodes workers opts acc st))"
  using assms(2)
proof (induction opts arbitrary: acc st)
  case (Cons o' opts)
  obtain k ps where o': "o' = (k, ps)" by (cases o')
  obtain r st1 where 1: "resolver_resolve boot nodes ps (Only h) workers st = (r, st1)" by fastforce
  then have "boot_inv nodes st1" using resolver_resolve_inv [OF assms(1) Cons.prems, where ps = ps and matcher = "Only h" and additional = workers] by simp
  with Cons.IH [of st1] 1 o' show ?case by (auto split: sum.splits prod.splits)
qed simp

lemma resolver_Resolve_inv:
  assumes "\<forall>i. is_ok (boot i)" and "boot_inv nodes st"
  shows "boot_inv nodes (snd (resolver_Resolve boot ListWorkers order BuildOpts h nodes opts st))"
proof (cases "nodes = []")
  case False
  obtain strict st1 where s: "resolve_strict boot h nodes opts [] st = (strict, st1)" by fastforce
  have i1: "boot_inv nodes st1" using resolve_strict_inv [OF assms, where h = h and opts = opts and acc = "[]"] s by simp
  have b: "boot_inv nodes st'" if "resolver_boot boot nodes idxs st0 = (r, st')" "boot_inv nodes st0" for idxs st0 r st'
    using resolver_boot_inv [OF assms(1) that(2), where idxs = idxs] that(1) by simp
  have o': "boot_inv nodes st'" if "resolve_only boot h nodes workers opts [] st0 = (r, st')" "boot_inv nodes st0" for workers st0 r st'
    using resolve_only_inv [OF assms(1) that(2), where h = h and workers = workers and opts = opts and acc = "[]"] that(1) by simp
  show ?thesis
    using False i1 by (auto simp: resolver_Resolve_def resolver_opts_def s Let_def dest: b o' split: sum.splits prod.splits)
qed (use assms in \<open>simp add: resolver_Resolve_def\<close>)

section \<open>Properties\<close>


definition demo_rnodes :: "rnode list" where
  "demo_rnodes =
     [\<lparr>rn_Driver = True, rn_Platforms = [\<lparr>p_Architecture = ''arm'', p_OS = ''linux'', p_OSVersion = [], p_OSFeatures = [], p_Variant = ''v7''\<rparr>]\<rparr>,
      \<lparr>rn_Driver = True, rn_Platforms = [\<lparr>p_Architecture = ''arm'', p_OS = ''linux'', p_OSVersion = [], p_OSFeatures = [], p_Variant = ''v6''\<rparr>]\<rparr>]"

definition linux_host :: host where
  "linux_host = \<lparr>h_GOOS = ''linux'', h_GOARCH = ''amd64'', h_cpuVariant = []\<rparr>"

definition armv6 :: platform where
  "armv6 = \<lparr>p_Architecture = ''arm'', p_OS = ''linux'', p_OSVersion = [], p_OSFeatures = [], p_Variant = ''6''\<rparr>"


lemma platforms_of_Cons:
  "platforms_of i (n # xs) = (if rs_driverIndex n = i then rs_platforms n else []) @ platforms_of i xs"
  by (simp add: platforms_of_def)

lemma platforms_of_Cons_all:
  assumes "distinct ds"
  shows "mset (concat (map (\<lambda>d. platforms_of d (n # xs)) ds)) =
    (if rs_driverIndex n \<in> set ds then mset (rs_platforms n) else {#}) + mset (concat (map (\<lambda>d. platforms_of d xs) ds))"
  using assms by (induction ds) (auto simp: platforms_of_Cons)

lemma recombined_platforms: "mset (concat (map rs_platforms (recombined nodes))) = mset (concat (map rs_platforms nodes))"
proof -
  have "mset (concat (map (\<lambda>d. platforms_of d xs) ds)) = mset (concat (map rs_platforms xs))"
    if "distinct ds" "rs_driverIndex ` set xs \<subseteq> set ds" for ds xs
    using that
  proof (induction xs)
    case (Cons n xs)
    then show ?case by (simp add: platforms_of_Cons_all)
  qed (simp add: platforms_of_def)
  from this [of "firsts [] (map rs_driverIndex nodes)" nodes] show ?thesis
    by (simp add: recombined_def comp_def firsts_set firsts_distinct)
qed

lemma recombined_mem:
  "r \<in> set (recombined nodes) \<Longrightarrow> q \<in> set (rs_platforms r) \<Longrightarrow>
     \<exists>n \<in> set nodes. rs_driverIndex n = rs_driverIndex r \<and> q \<in> set (rs_platforms n)"
  by (auto simp: recombined_def platforms_of_def)

lemma recombined_index: "r \<in> set (recombined nodes) \<Longrightarrow> rs_driverIndex r \<in> rs_driverIndex ` set nodes"
  by (auto simp: recombined_def firsts_set)

lemma recombined_distinct: "distinct (map rs_driverIndex (recombined nodes))"
  by (simp add: recombined_def comp_def firsts_distinct)

lemma resolver_get_bound: "resolver_get matcher nodes additional p = Some i \<Longrightarrow> i < length nodes"
  by (auto simp: resolver_get_def get_best_def offers_iff dest!: fold_get_mem)

text \<open>C8 (resolve_assigns): a resolved build gives every requested platform to exactly one node, the node that
  was chosen for it or, when none matches, the first one; no driver occurs twice, and the match is
  perfect exactly when every platform had a matching node.\<close>

theorem resolve_assigns:
  assumes "resolver_resolve boot nodes ps matcher additional st = (Inr (rs, perfect), st')" and "nodes \<noteq> []"
  shows "distinct (map rs_driverIndex rs) \<and> (\<forall>r \<in> set rs. rs_driverIndex r < length nodes) \<and>
    mset (concat (map rs_platforms rs)) = mset ps \<and>
    (perfect \<longleftrightarrow> list_all (\<lambda>p. resolver_get matcher nodes additional p \<noteq> None) ps) \<and>
    (\<forall>r \<in> set rs. \<forall>p \<in> set (rs_platforms r).
       rs_driverIndex r = (case resolver_get matcher nodes additional p of None \<Rightarrow> 0 | Some i \<Rightarrow> i))"
proof -
  define pick where "pick = (\<lambda>p. case resolver_get matcher nodes additional p of None \<Rightarrow> 0 | Some i \<Rightarrow> i)"
  define each where "each = (if ps = [] then [\<lparr>rs_driverIndex = 0, rs_platforms = []\<rparr>]
    else map (\<lambda>p. \<lparr>rs_driverIndex = pick p, rs_platforms = [p]\<rparr>) ps)"
  have z: "map (\<lambda>(i, p). \<lparr>rs_driverIndex = i, rs_platforms = [p]\<rparr>) (zip (map pick l) l) =
      map (\<lambda>p. \<lparr>rs_driverIndex = pick p, rs_platforms = [p]\<rparr>) l" for l by (induction l) auto
  have rs: "rs = recombined each" and perfect: "perfect = resolve_perfect matcher nodes additional ps"
    using assms z by (auto simp: resolver_resolve_def Let_def resolve_idxs_def each_def recombineNodes_spec
        simp flip: pick_def split: prod.splits sum.splits if_splits)
  have bound: "pick p < length nodes" for p
    using resolver_get_bound [of matcher nodes additional p] assms(2) by (auto simp: pick_def split: option.splits)
  have "mset (concat (map rs_platforms each)) = mset ps"
    by (simp add: each_def comp_def)
  then have m: "mset (concat (map rs_platforms rs)) = mset ps" unfolding rs recombined_platforms .
  have "rs_driverIndex n < length nodes" if "n \<in> set each" for n
    using that bound assms(2) by (auto simp: each_def split: if_splits)
  then have b: "\<forall>r \<in> set rs. rs_driverIndex r < length nodes"
    unfolding rs using recombined_index by (metis imageE)
  have "rs_driverIndex n = pick p" if "n \<in> set each" "p \<in> set (rs_platforms n)" for n p
    using that by (auto simp: each_def split: if_splits)
  then have c: "\<forall>r \<in> set rs. \<forall>p \<in> set (rs_platforms r). rs_driverIndex r = pick p"
    unfolding rs using recombined_mem by metis
  have "distinct (map rs_driverIndex rs)" unfolding rs by (rule recombined_distinct)
  with m b c show ?thesis by (simp add: perfect resolve_perfect_def pick_def)
qed

theorem resolve_assigns_witness:
  "\<exists>rs perfect st'. resolver_resolve (\<lambda>i. Inr i :: unit + nat) demo_rnodes [armv6, armv6\<lparr>p_Variant := ''v7''\<rparr>]
      (OnlyStrict linux_host) (\<lambda>_. []) \<lparr>cl_cache = [], cl_booted = []\<rparr> = (Inr (rs, perfect), st') \<and>
    mset (concat (map rs_platforms rs)) = {#armv6, armv6\<lparr>p_Variant := ''v7''\<rparr>#}"
proof -
  let ?r = "resolver_resolve (\<lambda>i. Inr i :: unit + nat) demo_rnodes [armv6, armv6\<lparr>p_Variant := ''v7''\<rparr>]
    (OnlyStrict linux_host) (\<lambda>_. []) \<lparr>cl_cache = [], cl_booted = []\<rparr>"
  have "boot_inv demo_rnodes \<lparr>cl_cache = [] :: (nat, nat) kvmap, cl_booted = []\<rparr>" by (simp add: boot_inv_def mget_def)
  moreover have "\<forall>i. is_ok (Inr i :: unit + nat)" by (simp add: is_ok_def)
  ultimately have "is_ok (fst ?r)" using resolver_resolve_inv by blast
  then obtain rs perfect st' where r: "?r = (Inr (rs, perfect), st')"
    by (cases ?r) (auto simp: is_ok_iff)
  then show ?thesis using resolve_assigns [OF r] by (auto simp: demo_rnodes_def)
qed



end
