(* ===== verification/BakeTarget.thy ===== *)
theory BakeTarget
  imports FlagText
begin

text \<open>
  The targets of bake (\<open>bake/bake.go\<close>): normalisation, merging and the overrides of the command line.
  A target keeps its outputs as pointers, and \<open>setPushOverride\<close> writes through them, so outputs are
  addresses into a heap of export entries that the operations thread; the other fields are values, with
  nil kept apart from empty where the code looks at it.
\<close>

section \<open>Targets\<close>

type_synonym heap = "ExportEntry list"

record Target =
  t_Name :: string
  t_Description :: string
  t_Inherits :: "string list"
  t_Annotations :: "string list option"
  t_Attest :: "Attest list option"
  t_Context :: "string option"
  t_Contexts :: "string gomap option"
  t_Dockerfile :: "string option"
  t_DockerfileInline :: "string option"
  t_Args :: "string option gomap option"
  t_Labels :: "string option gomap option"
  t_Tags :: "string list option"
  t_CacheFrom :: "CacheOptionsEntry list option"
  t_CacheTo :: "CacheOptionsEntry list option"
  t_Target :: "string option"
  t_Secrets :: "Secret list option"
  t_SSH :: "SSH list option"
  t_Platforms :: "string list option"
  t_Outputs :: "nat list option"
  t_Pull :: "bool option"
  t_NoCache :: "bool option"
  t_NetworkMode :: "string option"
  t_NoCacheFilter :: "string list option"
  t_ShmSize :: "string option"
  t_Ulimits :: "string list option"
  t_Call :: "string option"
  t_Entitlements :: "string list option"
  t_linked :: bool

definition defaultTarget :: Target where
  "defaultTarget = \<lparr>t_Name = [], t_Description = [], t_Inherits = [], t_Annotations = None, t_Attest = None,
     t_Context = None, t_Contexts = None, t_Dockerfile = None, t_DockerfileInline = None, t_Args = None,
     t_Labels = None, t_Tags = None, t_CacheFrom = None, t_CacheTo = None, t_Target = None, t_Secrets = None,
     t_SSH = None, t_Platforms = None, t_Outputs = None, t_Pull = None, t_NoCache = None, t_NetworkMode = None,
     t_NoCacheFilter = None, t_ShmSize = None, t_Ulimits = None, t_Call = None, t_Entitlements = None,
     t_linked = False\<rparr>"

record EntitlementsDevicesConf =
  ed_All :: bool
  ed_Devices :: "string list"

record EntitlementConf =
  ec_NetworkHost :: bool
  ec_SecurityInsecure :: bool
  ec_Devices :: "EntitlementsDevicesConf option"
  ec_FSRead :: "string list"
  ec_FSWrite :: "string list"
  ec_ImagePush :: "string list"
  ec_ImageLoad :: "string list"
  ec_SSH :: bool

datatype bake_error =
    BkFlag flag_error
  | BkArgsFormat string
  | BkBool string string
  | BkUnknownKey string
  | BkOverrideKey string
  | BkOverride string
  | BkBadPattern string
  | BkNoTarget string
  | BkTargetMissing string
  | BkLinkSelf string
  | BkLinkLoop string string
  | BkLinkPlatforms string string
  | BkPanicNilMap
  | BkPanicNilTarget
  | BkOutOfFuel

text \<open>The first of the setting of \<open>t2\<close> and the old one, and \<open>append\<close> on slices that may be nil.\<close>

definition over :: "'a option \<Rightarrow> 'a option \<Rightarrow> 'a option" where
  "over new old = (case new of None \<Rightarrow> old | Some _ \<Rightarrow> new)"

definition go_append :: "'a list option \<Rightarrow> 'a list \<Rightarrow> 'a list option" where
  "go_append a b = (if b = [] then a else Some (elems a @ b))"

section \<open>Normalisation\<close>

text \<open>\<open>removeDupesStr\<close> compacts its slice in place; the model returns the array and the new length.\<close>

fun remove_dupes_loop :: "string list \<Rightarrow> string list \<Rightarrow> string list" where
  "remove_dupes_loop seen [] = []"
| "remove_dupes_loop seen (v # vs) =
     (if v \<in> set seen then remove_dupes_loop seen vs
      else if v = [] then remove_dupes_loop seen vs
      else v # remove_dupes_loop (v # seen) vs)"

definition removeDupesStr :: "string list \<Rightarrow> string list \<times> nat" where
  "removeDupesStr s = (let r = remove_dupes_loop [] s in (r @ drop (length r) s, length r))"

definition dedupe_str :: "string list option \<Rightarrow> string list option" where
  "dedupe_str s = map_option (\<lambda>l. slice_of (removeDupesStr l)) s"

text \<open>Two addresses are duplicates when the entries they point to are equal.\<close>

definition Outputs_Normalize :: "heap \<Rightarrow> nat list option \<Rightarrow> nat list option" where
  "Outputs_Normalize hp = normalize (\<lambda>r r'. ExportEntry_Equal (hp ! r) (hp ! r'))"

definition normalize_contexts :: "string gomap option \<Rightarrow> string gomap option" where
  "normalize_contexts m = (let m' = filter (\<lambda>(_, v). v \<noteq> []) (mrange m) in if m' = [] then None else Some m')"

definition Target_normalize :: "heap \<Rightarrow> Target \<Rightarrow> Target" where
  "Target_normalize hp t =
     t\<lparr>t_Annotations := dedupe_str (t_Annotations t),
       t_Attest := Attests_Normalize (t_Attest t),
       t_Tags := dedupe_str (t_Tags t),
       t_Secrets := Secrets_Normalize (t_Secrets t),
       t_SSH := SSHKeys_Normalize (t_SSH t),
       t_Platforms := dedupe_str (t_Platforms t),
       t_CacheFrom := CacheOptions_Normalize (t_CacheFrom t),
       t_CacheTo := CacheOptions_Normalize (t_CacheTo t),
       t_Outputs := Outputs_Normalize hp (t_Outputs t),
       t_NoCacheFilter := dedupe_str (t_NoCacheFilter t),
       t_Ulimits := dedupe_str (t_Ulimits t),
       t_Entitlements := dedupe_str (if t_NetworkMode t = Some ''host''
         then go_append (t_Entitlements t) [''network.host''] else t_Entitlements t),
       t_Contexts := normalize_contexts (t_Contexts t)\<rparr>"

section \<open>Merging\<close>

text \<open>The loops over the arguments and labels skip nil values; the map is made when the first value is
  stored.\<close>

definition merge_ptr_map :: "string option gomap option \<Rightarrow> string option gomap option \<Rightarrow> string option gomap option" where
  "merge_ptr_map m m2 =
     (let new = filter (\<lambda>(_, v). v \<noteq> None) (mrange m2)
      in if new = [] then m else Some (mput_all new (mrange m)))"

definition merge_map :: "string gomap option \<Rightarrow> string gomap option \<Rightarrow> string gomap option" where
  "merge_map m m2 = (if mrange m2 = [] then m else Some (mput_all (mrange m2) (mrange m)))"

definition append_given :: "'a list option \<Rightarrow> 'a list option \<Rightarrow> 'a list option" where
  "append_given a b = (case b of None \<Rightarrow> a | Some l \<Rightarrow> go_append a l)"

definition Target_Merge :: "Target \<Rightarrow> Target \<Rightarrow> Target" where
  "Target_Merge t t2 =
     t\<lparr>t_Context := over (t_Context t2) (t_Context t),
       t_Dockerfile := over (t_Dockerfile t2) (t_Dockerfile t),
       t_DockerfileInline := over (t_DockerfileInline t2) (t_DockerfileInline t),
       t_Args := merge_ptr_map (t_Args t) (t_Args t2),
       t_Contexts := merge_map (t_Contexts t) (t_Contexts t2),
       t_Labels := merge_ptr_map (t_Labels t) (t_Labels t2),
       t_Tags := over (t_Tags t2) (t_Tags t),
       t_Target := over (t_Target t2) (t_Target t),
       t_Call := over (t_Call t2) (t_Call t),
       t_Annotations := append_given (t_Annotations t) (t_Annotations t2),
       t_Attest := (case t_Attest t2 of None \<Rightarrow> t_Attest t | Some _ \<Rightarrow> Attests_Merge (t_Attest t) (t_Attest t2)),
       t_Secrets := (case t_Secrets t2 of None \<Rightarrow> t_Secrets t | Some _ \<Rightarrow> Secrets_Merge (t_Secrets t) (t_Secrets t2)),
       t_SSH := (case t_SSH t2 of None \<Rightarrow> t_SSH t | Some _ \<Rightarrow> SSHKeys_Merge (t_SSH t) (t_SSH t2)),
       t_Platforms := over (t_Platforms t2) (t_Platforms t),
       t_CacheFrom := (case t_CacheFrom t2 of None \<Rightarrow> t_CacheFrom t
         | Some _ \<Rightarrow> CacheOptions_Merge (t_CacheFrom t) (t_CacheFrom t2)),
       t_CacheTo := over (t_CacheTo t2) (t_CacheTo t),
       t_Outputs := over (t_Outputs t2) (t_Outputs t),
       t_Pull := over (t_Pull t2) (t_Pull t),
       t_NoCache := over (t_NoCache t2) (t_NoCache t),
       t_NetworkMode := over (t_NetworkMode t2) (t_NetworkMode t),
       t_NoCacheFilter := append_given (t_NoCacheFilter t) (t_NoCacheFilter t2),
       t_ShmSize := over (t_ShmSize t2) (t_ShmSize t),
       t_Ulimits := append_given (t_Ulimits t) (t_Ulimits t2),
       t_Description := (if t_Description t2 \<noteq> [] then t_Description t2 else t_Description t),
       t_Entitlements := append_given (t_Entitlements t) (t_Entitlements t2),
       t_Inherits := t_Inherits t @ t_Inherits t2\<rparr>"

section \<open>Push and load overrides\<close>

definition set_push :: "string \<Rightarrow> nat \<Rightarrow> heap \<Rightarrow> bake_error + heap" where
  "set_push val r hp =
     (case ee_Attrs (hp ! r) of
        None \<Rightarrow> Inl BkPanicNilMap
      | Some m \<Rightarrow> Inr (hp[r := (hp ! r)\<lparr>ee_Attrs := Some (mset_key ''push'' val m)\<rparr>]))"

text \<open>The loop that disables pushing: a registry output is exchanged with the last one and cut off, and the
  same position is looked at again.\<close>

function disable_push :: "heap \<Rightarrow> nat list \<Rightarrow> bake_error + heap \<times> nat list" where
  "disable_push hp [] = Inr (hp, [])"
| "disable_push hp (r # rs) =
     (if ee_Type (hp ! r) = ''registry'' then disable_push hp (if rs = [] then [] else last rs # butlast rs)
      else rbind (if ee_Type (hp ! r) = ''image'' then set_push ''false'' r hp else Inr hp) (\<lambda>hp.
           rbind (disable_push hp rs) (\<lambda>(hp, rs). Inr (hp, r # rs))))"
  by pat_completeness auto
termination
  by (relation "measure (\<lambda>(_, rs). length rs)") auto

definition enable_push :: "nat list \<Rightarrow> heap \<Rightarrow> bake_error + heap" where
  "enable_push rs hp = rfold (\<lambda>r hp. if ee_Type (hp ! r) = ''image'' then set_push ''true'' r hp else Inr hp) rs hp"

definition setPushOverride :: "heap \<Rightarrow> nat list option \<Rightarrow> bool \<Rightarrow> bake_error + heap \<times> nat list option" where
  "setPushOverride hp outputs push =
     (if \<not> push then
        (case outputs of None \<Rightarrow> Inr (hp, None)
         | Some rs \<Rightarrow> rbind (disable_push hp rs) (\<lambda>(hp, rs). Inr (hp, Some rs)))
      else rbind (enable_push (elems outputs) hp) (\<lambda>hp'.
        if list_all (\<lambda>r. ee_Type (hp ! r) = ''docker'') (elems outputs)
        then Inr (hp' @ [\<lparr>ee_Type = ''image'', ee_Attrs = Some [(''push'', ''true'')], ee_Destination = []\<rparr>],
                  Some (elems outputs @ [length hp']))
        else Inr (hp', outputs)))"

fun load_reuses :: "ExportEntry list \<Rightarrow> bool" where
  "load_reuses [] = False"
| "load_reuses (o' # os) =
     (if ee_Type o' = ''docker'' then (if ee_Destination o' = [] then True else load_reuses os)
      else if ee_Type o' \<in> {''image'', ''registry'', ''oci''} then load_reuses os
      else True)"

definition setLoadOverride :: "heap \<Rightarrow> nat list option \<Rightarrow> bool \<Rightarrow> heap \<times> nat list option" where
  "setLoadOverride hp outputs load =
     (if \<not> load then (hp, outputs)
      else if load_reuses (map (\<lambda>r. hp ! r) (elems outputs)) then (hp, outputs)
      else (hp @ [\<lparr>ee_Type = ''docker'', ee_Attrs = None, ee_Destination = []\<rparr>], Some (elems outputs @ [length hp])))"

section \<open>Overrides\<close>

record Override =
  ov_Value :: string
  ov_ArrValue :: "string list option"

definition parseArrValue :: "(string \<Rightarrow> flag_error + 'a) \<Rightarrow> string list option \<Rightarrow> bake_error + 'a list" where
  "parseArrValue unmarshal s = map_err BkFlag (rmap unmarshal (filter (\<lambda>t. t \<noteq> []) (elems s)))"

record bake_state =
  bs_heap :: heap
  bs_target :: Target
  bs_ent :: EntitlementConf

definition set_target :: "(Target \<Rightarrow> Target) \<Rightarrow> bake_state \<Rightarrow> bake_error + bake_state" where
  "set_target f st = Inr (st\<lparr>bs_target := f (bs_target st)\<rparr>)"

definition add_read :: "string list \<Rightarrow> bake_state \<Rightarrow> bake_state" where
  "add_read ps st = st\<lparr>bs_ent := (bs_ent st)\<lparr>ec_FSRead := ec_FSRead (bs_ent st) @ ps\<rparr>\<rparr>"

definition add_write :: "string list \<Rightarrow> bake_state \<Rightarrow> bake_state" where
  "add_write ps st = st\<lparr>bs_ent := (bs_ent st)\<lparr>ec_FSWrite := ec_FSWrite (bs_ent st) @ ps\<rparr>\<rparr>"

definition local_attr :: "string \<Rightarrow> CacheOptionsEntry list \<Rightarrow> string list" where
  "local_attr k cs = concat (map (\<lambda>c. if co_Type c = ''local'' then
      (case mget (mrange (co_Attrs c)) k of None \<Rightarrow> [] | Some v \<Rightarrow> [v]) else []) cs)"

definition parse_bool_key :: "string \<Rightarrow> string \<Rightarrow> bake_error + bool" where
  "parse_bool_key key v = (case parse_bool v of None \<Rightarrow> Inl (BkBool v key) | Some b \<Rightarrow> Inr b)"

definition nonnil :: "'a list \<Rightarrow> 'a list option" where
  "nonnil l = (if l = [] then None else Some l)"

text \<open>One turn of the loop of \<open>AddOverrides\<close>.\<close>

definition add_override :: "string \<times> Override \<Rightarrow> bake_state \<Rightarrow> bake_error + bake_state" where
  "add_override = (\<lambda>(key, o') st.
     let val = ov_Value o'; arr = ov_ArrValue o'; t = bs_target st;
         (k, name) = (case cut (CHR ''.'') key of None \<Rightarrow> (key, None) | Some (a, b) \<Rightarrow> (a, Some b))
     in
     if k = ''context'' then set_target (\<lambda>t. t\<lparr>t_Context := Some val\<rparr>) st
     else if k = ''dockerfile'' then set_target (\<lambda>t. t\<lparr>t_Dockerfile := Some val\<rparr>) st
     else if k = ''args'' then
       (case name of None \<Rightarrow> Inl (BkArgsFormat k)
        | Some n \<Rightarrow> set_target (\<lambda>t. t\<lparr>t_Args := Some (mset_key n (Some val) (mrange (t_Args t)))\<rparr>) st)
     else if k = ''contexts'' then
       (case name of None \<Rightarrow> Inl (BkArgsFormat k)
        | Some n \<Rightarrow> set_target (\<lambda>t. t\<lparr>t_Contexts := Some (mset_key n val (mrange (t_Contexts t)))\<rparr>) st)
     else if k = ''labels'' then
       (case name of None \<Rightarrow> Inl (BkArgsFormat k)
        | Some n \<Rightarrow> set_target (\<lambda>t. t\<lparr>t_Labels := Some (mset_key n (Some val) (mrange (t_Labels t)))\<rparr>) st)
     else if k = ''tags'' then set_target (\<lambda>t. t\<lparr>t_Tags := arr\<rparr>) st
     else if k = ''cache-from'' then
       rbind (map_err BkFlag (ParseCacheEntry (elems arr))) (\<lambda>cs.
         set_target (\<lambda>t. t\<lparr>t_CacheFrom := (if elems arr = [] then None else Some cs)\<rparr>) (add_read (local_attr ''src'' cs) st))
     else if k = ''cache-to'' then
       rbind (map_err BkFlag (ParseCacheEntry (elems arr))) (\<lambda>cs.
         set_target (\<lambda>t. t\<lparr>t_CacheTo := (if elems arr = [] then None else Some cs)\<rparr>) (add_write (local_attr ''dest'' cs) st))
     else if k = ''target'' then set_target (\<lambda>t. t\<lparr>t_Target := Some val\<rparr>) st
     else if k = ''call'' then set_target (\<lambda>t. t\<lparr>t_Call := Some val\<rparr>) st
     else if k = ''secrets'' then
       rbind (parseArrValue Secret_UnmarshalText arr) (\<lambda>ss.
         set_target (\<lambda>t. t\<lparr>t_Secrets := Some ss\<rparr>)
           (add_read (filter (\<lambda>p. p \<noteq> []) (map se_FilePath ss)) st))
     else if k = ''ssh'' then
       rbind (parseArrValue (\<lambda>s. Inr (SSH_UnmarshalText s)) arr) (\<lambda>ss.
         set_target (\<lambda>t. t\<lparr>t_SSH := Some ss\<rparr>) (add_read (concat (map ss_Paths ss)) st))
     else if k = ''platform'' then set_target (\<lambda>t. t\<lparr>t_Platforms := arr\<rparr>) st
     else if k = ''output'' then
       rbind (parseArrValue ExportEntry_UnmarshalText arr) (\<lambda>es.
         let hp = bs_heap st in
         set_target (\<lambda>t. t\<lparr>t_Outputs := Some [length hp..<length hp + length es]\<rparr>)
           (add_write (filter (\<lambda>p. p \<noteq> []) (map ee_Destination es)) (st\<lparr>bs_heap := hp @ es\<rparr>)))
     else if k = ''entitlements'' then
       set_target (\<lambda>t. t\<lparr>t_Entitlements := go_append (t_Entitlements t) (elems arr)\<rparr>)
         (st\<lparr>bs_ent := (bs_ent st)\<lparr>ec_NetworkHost := ec_NetworkHost (bs_ent st) \<or> ''network.host'' \<in> set (elems arr),
            ec_SecurityInsecure := ec_SecurityInsecure (bs_ent st) \<or> ''security.insecure'' \<in> set (elems arr)\<rparr>\<rparr>)
     else if k = ''annotations'' then
       set_target (\<lambda>t. t\<lparr>t_Annotations := go_append (t_Annotations t) (elems arr)\<rparr>) st
     else if k = ''attest'' then
       rbind (parseArrValue (\<lambda>s. Attest_UnmarshalText s empty_attest) arr) (\<lambda>as.
         set_target (\<lambda>t. t\<lparr>t_Attest := Attests_Merge (t_Attest t) (Some as)\<rparr>) st)
     else if k = ''no-cache'' then
       rbind (parse_bool_key k val) (\<lambda>b. set_target (\<lambda>t. t\<lparr>t_NoCache := Some b\<rparr>) st)
     else if k = ''no-cache-filter'' then set_target (\<lambda>t. t\<lparr>t_NoCacheFilter := arr\<rparr>) st
     else if k = ''shm-size'' then set_target (\<lambda>t. t\<lparr>t_ShmSize := Some val\<rparr>) st
     else if k = ''ulimits'' then set_target (\<lambda>t. t\<lparr>t_Ulimits := arr\<rparr>) st
     else if k = ''network'' then set_target (\<lambda>t. t\<lparr>t_NetworkMode := Some val\<rparr>) st
     else if k = ''pull'' then
       rbind (parse_bool_key k val) (\<lambda>b. set_target (\<lambda>t. t\<lparr>t_Pull := Some b\<rparr>) st)
     else if k = ''push'' then
       rbind (parse_bool_key k val) (\<lambda>b.
       rbind (setPushOverride (bs_heap st) (t_Outputs t) b) (\<lambda>(hp, os).
         set_target (\<lambda>t. t\<lparr>t_Outputs := os\<rparr>) (st\<lparr>bs_heap := hp\<rparr>)))
     else if k = ''load'' then
       rbind (parse_bool_key k val) (\<lambda>b.
         let (hp, os) = setLoadOverride (bs_heap st) (t_Outputs t) b
         in set_target (\<lambda>t. t\<lparr>t_Outputs := os\<rparr>) (st\<lparr>bs_heap := hp\<rparr>))
     else Inl (BkUnknownKey k))"

text \<open>The overrides of a target are a map in Go; the order of the list is the order of the loop.\<close>

definition AddOverrides :: "(string \<times> Override) list \<Rightarrow> bake_state \<Rightarrow> bake_error + bake_state" where
  "AddOverrides overrides st = rfold add_override overrides st"

end
