(* ===== verification/BakeConfig.thy ===== *)
theory BakeConfig
  imports BakeTarget Platform
begin

text \<open>
  The configuration of bake (\<open>bake/bake.go\<close>): groups and targets of the parsed files, their merging, the
  overrides of the command line, the resolution of groups and of the inheritance of targets, and the
  links between targets.  The recursions of the code carry a set of visited names; the model adds fuel
  and returns None when it runs out, and the theorems show that the fuel given is enough.
\<close>

record Group =
  g_Name :: string
  g_Description :: string
  g_Targets :: "string list"

record Config =
  c_Groups :: "Group list"
  c_Targets :: "Target list"

section \<open>Patterns\<close>

text \<open>The patterns of \<open>path.Match\<close>: tokens of a pattern, or None for a malformed one.\<close>

datatype glob_tok = GStar | GAny | GLit char | GClass bool "(char \<times> char) list"

abbreviation backslash :: char where "backslash \<equiv> CHR 0x5C"

definition get_esc :: "string \<Rightarrow> (char \<times> string) option" where
  "get_esc chunk =
     (case chunk of
        [] \<Rightarrow> None
      | c # r \<Rightarrow>
          if c = CHR ''-'' \<or> c = CHR '']'' then None
          else (let rest = (if c = backslash then r else chunk)
                in (case rest of [] \<Rightarrow> None | x # xs \<Rightarrow> if xs = [] then None else Some (x, xs))))"

function parse_ranges :: "nat \<Rightarrow> string \<Rightarrow> ((char \<times> char) list \<times> string) option" where
  "parse_ranges n chunk =
     (if chunk \<noteq> [] \<and> hd chunk = CHR '']'' \<and> 0 < n then Some ([], tl chunk)
      else (case get_esc chunk of
              None \<Rightarrow> None
            | Some (lo, r) \<Rightarrow>
                (case (if hd r = CHR ''-'' then get_esc (tl r) else Some (lo, r)) of
                   None \<Rightarrow> None
                 | Some (hi, r') \<Rightarrow>
                     if length r' < length chunk
                     then map_option (\<lambda>(rs, rest). ((lo, hi) # rs, rest)) (parse_ranges (n + 1) r')
                     else None)))"
  by pat_completeness auto
termination
  by (relation "measure (\<lambda>(_, s). length s)") auto

declare parse_ranges.simps [simp del]

text \<open>The comparisons of lengths in the two parsers always hold; they only let the recursion be seen to end.\<close>

function parse_glob :: "string \<Rightarrow> glob_tok list option" where
  "parse_glob [] = Some []"
| "parse_glob (c # p) =
     (if c = CHR ''*'' then map_option (\<lambda>ts. GStar # ts) (parse_glob p)
      else if c = CHR ''?'' then map_option (\<lambda>ts. GAny # ts) (parse_glob p)
      else if c = CHR ''['' then
        (let neg = (p \<noteq> [] \<and> hd p = CHR ''^''); p' = (if neg then tl p else p)
         in (case parse_ranges 0 p' of
               None \<Rightarrow> None
             | Some (rs, rest) \<Rightarrow>
                 if length rest \<le> length p then map_option (\<lambda>ts. GClass neg rs # ts) (parse_glob rest) else None))
      else if c = backslash then
        (case p of [] \<Rightarrow> None | x # p' \<Rightarrow> map_option (\<lambda>ts. GLit x # ts) (parse_glob p'))
      else map_option (\<lambda>ts. GLit c # ts) (parse_glob p))"
  by pat_completeness auto
termination
  by (relation "measure length") auto

function glob_match :: "glob_tok list \<Rightarrow> string \<Rightarrow> bool" where
  "glob_match [] s \<longleftrightarrow> s = []"
| "glob_match (GStar # ts) s \<longleftrightarrow> glob_match ts s \<or>
     (case s of [] \<Rightarrow> False | x # xs \<Rightarrow> x \<noteq> CHR ''/'' \<and> glob_match (GStar # ts) xs)"
| "glob_match (GAny # ts) s \<longleftrightarrow> s \<noteq> [] \<and> hd s \<noteq> CHR ''/'' \<and> glob_match ts (tl s)"
| "glob_match (GLit c # ts) s \<longleftrightarrow> s \<noteq> [] \<and> hd s = c \<and> glob_match ts (tl s)"
| "glob_match (GClass neg rs # ts) s \<longleftrightarrow>
     s \<noteq> [] \<and> list_ex (\<lambda>(lo, hi). lo \<le> hd s \<and> hd s \<le> hi) rs \<noteq> neg \<and> glob_match ts (tl s)"
  by pat_completeness auto
termination
  by (relation "measure (\<lambda>(ts, s). length ts + length s)") auto

definition path_Match :: "string \<Rightarrow> string \<Rightarrow> bool option" where
  "path_Match pattern name = map_option (\<lambda>ts. glob_match ts name) (parse_glob pattern)"

definition expandTargets :: "Config \<Rightarrow> string \<Rightarrow> bake_error + string list" where
  "expandTargets c pattern =
     (if pattern \<in> t_Name ` set (c_Targets c) then Inr [pattern]
      else
        rbind (rmap (\<lambda>t. case path_Match pattern (t_Name t) of
                           None \<Rightarrow> Inl (BkBadPattern pattern)
                         | Some b \<Rightarrow> Inr (if b then [t_Name t] else [])) (c_Targets c)) (\<lambda>ns.
        if concat ns = [] then Inl (BkNoTarget pattern) else Inr (concat ns)))"

section \<open>Overrides of the command line\<close>

type_synonym overrides = "Override gomap gomap"

definition arr_keys :: "string list" where
  "arr_keys = [''output'', ''cache-to'', ''cache-from'', ''tags'', ''platform'', ''secrets'', ''ssh'', ''attest'',
     ''entitlements'', ''network'']"

definition mget_or :: "'v \<Rightarrow> 'v gomap \<Rightarrow> string \<Rightarrow> 'v" where
  "mget_or d m k = (case mget m k of None \<Rightarrow> d | Some v \<Rightarrow> v)"

definition no_override :: Override where
  "no_override = \<lparr>ov_Value = [], ov_ArrValue = None\<rparr>"

text \<open>The body of the loop over the matching targets: the new override under the key, None for
  \<open>continue\<close>.\<close>

definition update_override ::
  "(string \<Rightarrow> string option) \<Rightarrow> string \<Rightarrow> string list \<Rightarrow> string option \<Rightarrow> Override \<Rightarrow> bake_error + Override option" where
  "update_override env whole keys val o' =
     (if keys ! 1 \<in> set arr_keys then
        Inr (Some (case val of None \<Rightarrow> o' | Some v \<Rightarrow> o'\<lparr>ov_ArrValue := Some (elems (ov_ArrValue o') @ [v])\<rparr>))
      else if keys ! 1 = ''args'' then
        (if length keys \<noteq> 3 then Inl (BkOverrideKey whole)
         else (case val of
                 Some v \<Rightarrow> Inr (Some (o'\<lparr>ov_Value := v\<rparr>))
               | None \<Rightarrow> Inr (map_option (\<lambda>v. o'\<lparr>ov_Value := v\<rparr>) (env (keys ! 2)))))
      else if keys ! 1 = ''contexts'' \<and> length keys \<noteq> 3 then Inl (BkOverrideKey whole)
      else Inr (Some (case val of None \<Rightarrow> o' | Some v \<Rightarrow> o'\<lparr>ov_Value := v\<rparr>)))"

definition override_target ::
  "(string \<Rightarrow> string option) \<Rightarrow> string \<Rightarrow> string list \<Rightarrow> string option \<Rightarrow> string \<Rightarrow> overrides \<Rightarrow> bake_error + overrides" where
  "override_target env whole keys val name m =
     (let t = mget_or [] m name; key = (splitn 2 (CHR ''.'') whole) ! 1
      in rbind (update_override env whole keys val (mget_or no_override t key)) (\<lambda>r.
         Inr (mset_key name (case r of None \<Rightarrow> t | Some o' \<Rightarrow> mset_key key o' t) m)))"

definition override_arg :: "(string \<Rightarrow> string option) \<Rightarrow> Config \<Rightarrow> string \<Rightarrow> overrides \<Rightarrow> bake_error + overrides" where
  "override_arg env c v m =
     (let (whole, val) = (case cut equals v of None \<Rightarrow> (v, None) | Some (a, b) \<Rightarrow> (a, Some b));
          keys = splitn 3 (CHR ''.'') whole
      in if length keys < 2 then Inl (BkOverrideKey whole)
         else if val = None \<and> keys ! 1 \<noteq> ''args'' then Inl (BkOverride v)
         else rbind (expandTargets c (hd keys)) (\<lambda>names. rfold (override_target env whole keys val) names m))"

definition newOverrides :: "(string \<Rightarrow> string option) \<Rightarrow> Config \<Rightarrow> string list \<Rightarrow> bake_error + overrides" where
  "newOverrides env c vs = rfold (override_arg env c) vs []"

section \<open>Deduplication and merging of configurations\<close>

fun dedup_loop :: "string list \<Rightarrow> string list \<Rightarrow> string list" where
  "dedup_loop seen [] = []"
| "dedup_loop seen (v # vs) = (if v \<in> set seen then dedup_loop seen vs else v # dedup_loop (v # seen) vs)"

definition dedupSlice :: "string list \<Rightarrow> string list" where
  "dedupSlice s = dedup_loop [] s"

text \<open>\<open>mergeConfig\<close> appends the pointer of an entry that it merged into, so an entry can occur twice in its
  result, and \<open>dedupeConfig\<close> then merges it with itself: the two work on a pool of entries and the list of
  their positions.\<close>

record Pooled =
  gp_pool :: "Group list"
  gp_order :: "nat list"
  tp_pool :: "Target list"
  tp_order :: "nat list"

definition pooled :: "Config \<Rightarrow> Pooled" where
  "pooled c = \<lparr>gp_pool = c_Groups c, gp_order = [0..<length (c_Groups c)],
               tp_pool = c_Targets c, tp_order = [0..<length (c_Targets c)]\<rparr>"

definition dedup_target :: "nat \<Rightarrow> Target list \<times> nat list \<times> nat gomap \<Rightarrow> Target list \<times> nat list \<times> nat gomap" where
  "dedup_target p = (\<lambda>(pool, res, mt).
     case mget mt (t_Name (pool ! p)) of
       Some p2 \<Rightarrow> (pool[p2 := Target_Merge (pool ! p2) (pool ! p)], res, mt)
     | None \<Rightarrow> (pool, res @ [p], mset_key (t_Name (pool ! p)) p mt))"

definition dedupeConfig :: "Pooled \<Rightarrow> Config" where
  "dedupeConfig c =
     (let (pool, res, _) = fold dedup_target (tp_order c) (tp_pool c, [], [])
      in \<lparr>c_Groups = map (\<lambda>p. (gp_pool c ! p)\<lparr>g_Targets := dedupSlice (g_Targets (gp_pool c ! p))\<rparr>) (gp_order c),
          c_Targets = map (\<lambda>p. pool ! p) res\<rparr>)"

definition merge_group :: "Group \<Rightarrow> Group list \<times> nat list \<Rightarrow> Group list \<times> nat list" where
  "merge_group g2 = (\<lambda>(pool, order).
     case find (\<lambda>p. g_Name (pool ! p) = g_Name g2) order of
       None \<Rightarrow> (pool @ [g2], order @ [length pool])
     | Some p \<Rightarrow>
         (pool[p := (pool ! p)\<lparr>g_Targets :=
            fold (\<lambda>t2 ts. if t2 \<in> set ts then ts else ts @ [t2]) (g_Targets g2) (g_Targets (pool ! p))\<rparr>], order @ [p]))"

definition merge_target :: "Target \<Rightarrow> Target list \<times> nat list \<Rightarrow> Target list \<times> nat list" where
  "merge_target t2 = (\<lambda>(pool, order).
     case find (\<lambda>p. t_Name (pool ! p) = t_Name t2) order of
       None \<Rightarrow> (pool @ [t2], order @ [length pool])
     | Some p \<Rightarrow> (pool[p := Target_Merge (pool ! p) t2], order @ [p]))"

definition mergeConfig :: "Pooled \<Rightarrow> Config \<Rightarrow> Pooled" where
  "mergeConfig c1 c2 =
     (let (gpool, gorder) = fold merge_group (c_Groups c2) (gp_pool c1, gp_order c1);
          (tpool, torder) = fold merge_target (c_Targets c2) (tp_pool c1, tp_order c1)
      in \<lparr>gp_pool = gpool, gp_order = gorder, tp_pool = tpool, tp_order = torder\<rparr>)"

definition ListTargets :: "Config \<Rightarrow> string list" where
  "ListTargets c = dedupSlice (map g_Name (c_Groups c) @ map t_Name (c_Targets c))"

section \<open>Groups\<close>

type_synonym visits = "(string list \<times> string list) gomap"

definition find_group :: "Config \<Rightarrow> string \<Rightarrow> Group option" where
  "find_group c name = find (\<lambda>g. g_Name g = name) (c_Groups c)"

text \<open>The loop over the members of a group, given the recursive call.\<close>

fun group_loop ::
  "(string \<Rightarrow> visits \<Rightarrow> (string list \<times> string list \<times> visits) option) \<Rightarrow> string list \<Rightarrow> string list \<Rightarrow> string list \<Rightarrow>
   visits \<Rightarrow> (string list \<times> string list \<times> visits) option" where
  "group_loop call [] targets groups V = Some (targets, groups, V)"
| "group_loop call (t # ts) targets groups V =
     (case call t V of
        None \<Rightarrow> None
      | Some (ttarget, tgroup, V) \<Rightarrow>
          group_loop call ts (targets @ (if ttarget = [] then [t] else ttarget)) (groups @ tgroup) V)"

primrec bake_group :: "nat \<Rightarrow> Config \<Rightarrow> string \<Rightarrow> visits \<Rightarrow> (string list \<times> string list \<times> visits) option" where
  "bake_group 0 c name V = None"
| "bake_group (Suc n) c name V =
     (case mget V name of
        Some (ts, gs) \<Rightarrow> Some (ts, gs, V)
      | None \<Rightarrow>
          (case find_group c name of
             None \<Rightarrow> Some ([name], [], V)
           | Some g \<Rightarrow>
               (case group_loop (bake_group n c) (g_Targets g) [] [name] (mset_key name ([], []) V) of
                  None \<Rightarrow> None
                | Some (ts, gs, V) \<Rightarrow> Some (ts, gs, mset_key name (ts, gs) V))))"

text \<open>Every nested call enters a group not visited before, so the number of groups bounds the depth.\<close>

definition group_fuel :: "Config \<Rightarrow> nat" where
  "group_fuel c = length (c_Groups c) + 1"

definition ResolveGroup :: "Config \<Rightarrow> string \<Rightarrow> (string list \<times> string list) option" where
  "ResolveGroup c name =
     map_option (\<lambda>(ts, gs, _). (dedupSlice ts, dedupSlice gs)) (bake_group (group_fuel c) c name [])"

section \<open>Inheritance\<close>

record target_state =
  ts_visited :: "Target option gomap"
  ts_heap :: heap
  ts_ent :: EntitlementConf

definition find_target :: "Config \<Rightarrow> string \<Rightarrow> Target option" where
  "find_target c name = find (\<lambda>t. t_Name t = name) (c_Targets c)"

fun inherit_loop ::
  "(string \<Rightarrow> target_state \<Rightarrow> bake_error + Target option \<times> target_state) \<Rightarrow> string list \<Rightarrow> Target \<Rightarrow> target_state \<Rightarrow>
   bake_error + Target \<times> target_state" where
  "inherit_loop call [] tt st = Inr (tt, st)"
| "inherit_loop call (name # names) tt st =
     rbind (call name st) (\<lambda>(t, st).
       inherit_loop call names (case t of None \<Rightarrow> tt | Some t \<Rightarrow> Target_Merge tt t) st)"

text \<open>What is done with a target once its parents are merged: the target itself, the overrides, the
  normal form.\<close>

definition finish_target :: "overrides \<Rightarrow> string \<Rightarrow> Target \<Rightarrow> Target \<Rightarrow> target_state \<Rightarrow> bake_error + Target option \<times> target_state" where
  "finish_target ovs name tt t st =
     rbind (AddOverrides (mget_or [] ovs name)
              \<lparr>bs_heap = ts_heap st, bs_target = Target_Merge (Target_Merge defaultTarget tt) t, bs_ent = ts_ent st\<rparr>) (\<lambda>b.
       let r = Target_normalize (bs_heap b) (bs_target b)
       in Inr (Some r, \<lparr>ts_visited = mset_key name (Some r) (ts_visited st), ts_heap = bs_heap b, ts_ent = bs_ent b\<rparr>))"

primrec bake_target :: "nat \<Rightarrow> Config \<Rightarrow> overrides \<Rightarrow> string \<Rightarrow> target_state \<Rightarrow> bake_error + Target option \<times> target_state" where
  "bake_target 0 c ovs name st = Inl BkOutOfFuel"
| "bake_target (Suc n) c ovs name st =
     (case mget (ts_visited st) name of
        Some t \<Rightarrow> Inr (t, st)
      | None \<Rightarrow>
          (let st = st\<lparr>ts_visited := mset_key name None (ts_visited st)\<rparr>
           in case find_target c name of
                None \<Rightarrow> Inl (BkTargetMissing name)
              | Some t \<Rightarrow>
                  rbind (inherit_loop (bake_target n c ovs) (t_Inherits t) defaultTarget st) (\<lambda>(tt, st).
                  finish_target ovs name tt t st)))"

definition target_fuel :: "Config \<Rightarrow> nat" where
  "target_fuel c = length (c_Targets c) + 1"

definition ResolveTarget ::
  "Config \<Rightarrow> overrides \<Rightarrow> string \<Rightarrow> heap \<Rightarrow> EntitlementConf \<Rightarrow> bake_error + Target \<times> heap \<times> EntitlementConf" where
  "ResolveTarget c ovs name hp ent =
     rbind (bake_target (target_fuel c) c ovs name \<lparr>ts_visited = [], ts_heap = hp, ts_ent = ent\<rparr>) (\<lambda>(t, st).
       case t of
         None \<Rightarrow> Inl BkPanicNilTarget
       | Some t \<Rightarrow>
           Inr (t\<lparr>t_Inherits := [], t_Context := Some (case t_Context t of None \<Rightarrow> ''.'' | Some p \<Rightarrow> p),
                  t_Dockerfile := Some (case t_Dockerfile t of None \<Rightarrow> ''Dockerfile'' | Some p \<Rightarrow> p)\<rparr>, ts_heap st, ts_ent st))"

section \<open>Links between targets\<close>

record link_state =
  ls_targets :: "Target gomap"
  ls_heap :: heap
  ls_ent :: EntitlementConf

definition isSubset :: "string list \<Rightarrow> string list \<Rightarrow> bool" where
  "isSubset s1 s2 = list_all (\<lambda>x. x \<in> set s2) s1"

text \<open>The target of a link, resolved and entered into the map as a cache-only target if it is not there.\<close>

definition link_target :: "Config \<Rightarrow> overrides \<Rightarrow> string \<Rightarrow> link_state \<Rightarrow> bake_error + link_state" where
  "link_target c ovs target st =
     (case mget (ls_targets st) target of
        Some _ \<Rightarrow> Inr st
      | None \<Rightarrow>
          rbind (ResolveTarget c ovs target (ls_heap st) (ls_ent st)) (\<lambda>(t2, hp, ent).
            Inr \<lparr>ls_targets = mset_key target (t2\<lparr>t_Outputs := Some [length hp], t_linked := True\<rparr>) (ls_targets st),
                 ls_heap = hp @ [\<lparr>ee_Type = ''cacheonly'', ee_Attrs = None, ee_Destination = []\<rparr>], ls_ent = ent\<rparr>))"

definition inherit_entitlements :: "Target \<Rightarrow> Target \<Rightarrow> Target" where
  "inherit_entitlements t t2 =
     t\<lparr>t_Entitlements := fold (\<lambda>e es. if e \<in> set (elems es) then es else go_append es [e]) (elems (t_Entitlements t2)) (t_Entitlements t)\<rparr>"

text \<open>The end of a turn of the loop, after the links of the linked target are loaded.\<close>

definition link_store :: "string \<Rightarrow> string \<Rightarrow> link_state \<Rightarrow> bake_error + link_state" where
  "link_store name target st =
     (case mget (ls_targets st) name of
        None \<Rightarrow> Inl BkPanicNilTarget
      | Some t \<Rightarrow>
          (case mget (ls_targets st) target of
             None \<Rightarrow> Inl BkPanicNilTarget
           | Some t2 \<Rightarrow>
               (let t = inherit_entitlements t t2
                in if 1 < length (elems (t_Platforms t)) \<and> 1 < length (elems (t_Platforms t2)) \<and>
                      \<not> isSubset (elems (t_Platforms t)) (elems (t_Platforms t2))
                   then Inl (BkLinkPlatforms target name)
                   else Inr (st\<lparr>ls_targets := mset_key name t (ls_targets st)\<rparr>))))"

definition link_step ::
  "(string \<Rightarrow> link_state \<Rightarrow> bake_error + link_state) \<Rightarrow> Config \<Rightarrow> overrides \<Rightarrow> string \<Rightarrow> string list \<Rightarrow> string \<Rightarrow> link_state \<Rightarrow>
   bake_error + link_state" where
  "link_step call c ovs name visited v st =
     (if \<not> has_prefix ''target:'' v then Inr st
      else
        let target = trim_prefix ''target:'' v
        in if target = name then Inl (BkLinkSelf target)
           else if target \<in> set visited then Inl (BkLinkLoop name target)
           else
             rbind (link_target c ovs target st) (\<lambda>st.
             rbind (call target st) (link_store name target)))"

primrec loadLinks :: "nat \<Rightarrow> Config \<Rightarrow> overrides \<Rightarrow> string list \<Rightarrow> string \<Rightarrow> link_state \<Rightarrow> bake_error + link_state" where
  "loadLinks 0 c ovs visited name st = Inl BkOutOfFuel"
| "loadLinks (Suc n) c ovs visited name st =
     (case mget (ls_targets st) name of
        None \<Rightarrow> Inl BkPanicNilTarget
      | Some t \<Rightarrow>
          rfold (\<lambda>(_, v). link_step (loadLinks n c ovs (visited @ [name])) c ovs name (visited @ [name]) v)
            (mrange (t_Contexts t)) st)"

text \<open>Every nested call enters the name of a target of the file that is not yet visited.\<close>

definition link_fuel :: "Config \<Rightarrow> nat" where
  "link_fuel c = length (c_Targets c) + 1"

section \<open>Reading targets\<close>

definition sanitizeTargetName :: "string \<Rightarrow> string" where
  "sanitizeTargetName target = map (\<lambda>ch. if ch = CHR ''.'' then CHR ''_'' else ch) target"

definition name_char :: "char \<Rightarrow> bool" where
  "name_char ch \<longleftrightarrow> (CHR ''a'' \<le> ch \<and> ch \<le> CHR ''z'') \<or> (CHR ''A'' \<le> ch \<and> ch \<le> CHR ''Z'') \<or>
     (CHR ''0'' \<le> ch \<and> ch \<le> CHR ''9'') \<or> ch = CHR ''_'' \<or> ch = CHR ''-''"

definition validateTargetName :: "string \<Rightarrow> bool" where
  "validateTargetName name \<longleftrightarrow> name \<noteq> [] \<and> list_all name_char name"

record read_state =
  rs_targets :: "Target gomap"
  rs_groups :: "Group gomap"
  rs_heap :: heap
  rs_ent :: EntitlementConf

definition read_target :: "Config \<Rightarrow> overrides \<Rightarrow> string \<Rightarrow> read_state \<Rightarrow> bake_error + read_state" where
  "read_target c ovs tname st =
     rbind (ResolveTarget c ovs tname (rs_heap st) (rs_ent st)) (\<lambda>(t, hp, ent).
       Inr (st\<lparr>rs_targets := mset_key tname t (rs_targets st), rs_heap := hp, rs_ent := ent\<rparr>))"

definition read_group :: "Config \<Rightarrow> string \<Rightarrow> Group gomap \<Rightarrow> Group gomap" where
  "read_group c gname gm = (case find_group c gname of None \<Rightarrow> gm | Some g \<Rightarrow> mset_key gname g gm)"

definition read_name :: "Config \<Rightarrow> overrides \<Rightarrow> string \<Rightarrow> read_state \<Rightarrow> bake_error + read_state" where
  "read_name c ovs target st =
     (case ResolveGroup c target of
        None \<Rightarrow> Inl BkOutOfFuel
      | Some (ts, gs) \<Rightarrow>
          rbind (rfold (read_target c ovs) ts st) (\<lambda>st.
          Inr (st\<lparr>rs_groups := fold (read_group c) gs (rs_groups st)\<rparr>)))"

definition add_default :: "string \<Rightarrow> Group gomap \<Rightarrow> Group gomap" where
  "add_default target gm =
     (case mget gm ''default'' of
        Some g \<Rightarrow> if target = ''default'' then gm else mset_key ''default'' (g\<lparr>g_Targets := g_Targets g @ [target]\<rparr>) gm
      | None \<Rightarrow> mset_key ''default'' \<lparr>g_Name = ''default'', g_Description = [], g_Targets = [target]\<rparr> gm)"

definition sort_default :: "Group gomap \<Rightarrow> Group gomap" where
  "sort_default gm =
     (case mget gm ''default'' of
        None \<Rightarrow> gm
      | Some g \<Rightarrow> mset_key ''default'' (g\<lparr>g_Targets := sort (dedupSlice (g_Targets g))\<rparr>) gm)"

text \<open>\<open>ReadTargets\<close> after the files are parsed.  Go may or may not visit the targets that \<open>loadLinks\<close> adds
  to the map it ranges over; the model visits those that were in the map before.\<close>

definition ReadTargets ::
  "(string \<Rightarrow> string option) \<Rightarrow> Config \<Rightarrow> string list \<Rightarrow> string list \<Rightarrow> heap \<Rightarrow> EntitlementConf \<Rightarrow>
   bake_error + Target gomap \<times> Group gomap \<times> heap \<times> EntitlementConf" where
  "ReadTargets env c targets overrides hp ent =
     (let targets = map sanitizeTargetName targets
      in rbind (newOverrides env c overrides) (\<lambda>ovs.
         rbind (rfold (read_name c ovs) targets \<lparr>rs_targets = [], rs_groups = [], rs_heap = hp, rs_ent = ent\<rparr>) (\<lambda>st.
         let gm = sort_default (fold add_default targets (rs_groups st))
         in rbind (rfold (loadLinks (link_fuel c) c ovs []) (mkeys (rs_targets st))
                \<lparr>ls_targets = rs_targets st, ls_heap = rs_heap st, ls_ent = rs_ent st\<rparr>) (\<lambda>ls.
            Inr (ls_targets ls, gm, ls_heap ls, ls_ent ls)))))"

end
