(* ===== verification/BakeGroups.thy ===== *)
theory BakeGroups
  imports BakeConfig
begin

text \<open>
  Group resolution (\<open>bake/bake.go\<close>, \<open>group\<close> and \<open>ResolveGroup\<close>) as a search of the graph of groups: the
  recursion returns with the fuel given, the groups found are those that can be reached, every target
  that can be reached is found, and in a configuration without cycles or empty groups nothing else is.
\<close>

section \<open>Deduplication\<close>

lemma dedup_loop_spec:
  "set (dedup_loop seen vs) = set vs - set seen" "distinct (dedup_loop seen vs)"
  by (induction seen vs rule: dedup_loop.induct) auto

lemma dedupSlice_set [simp]: "set (dedupSlice s) = set s" and dedupSlice_distinct [simp]: "distinct (dedupSlice s)"
  by (simp_all add: dedupSlice_def dedup_loop_spec)

lemma dedup_loop_id: "distinct vs \<Longrightarrow> set vs \<inter> set seen = {} \<Longrightarrow> dedup_loop seen vs = vs"
  by (induction seen vs rule: dedup_loop.induct) auto

section \<open>The graph of groups\<close>

definition is_group :: "Config \<Rightarrow> string \<Rightarrow> bool" where
  "is_group c name \<longleftrightarrow> find_group c name \<noteq> None"

definition member_of :: "Config \<Rightarrow> string \<Rightarrow> string \<Rightarrow> bool" where
  "member_of c g t \<longleftrightarrow> (case find_group c g of None \<Rightarrow> False | Some G \<Rightarrow> t \<in> set (g_Targets G))"

definition group_names :: "Config \<Rightarrow> string set" where
  "group_names c = g_Name ` set (c_Groups c)"

inductive reaches :: "Config \<Rightarrow> string \<Rightarrow> string \<Rightarrow> bool" for c where
  reaches_refl: "reaches c a a"
| reaches_step: "reaches c a b \<Longrightarrow> member_of c b d \<Longrightarrow> reaches c a d"

lemma reaches_trans: "reaches c b d \<Longrightarrow> reaches c a b \<Longrightarrow> reaches c a d"
  by (induction rule: reaches.induct) (auto intro: reaches.intros)

lemma reaches_member: "member_of c a b \<Longrightarrow> reaches c b d \<Longrightarrow> reaches c a d"
  using reaches_trans reaches_step [OF reaches_refl] by blast

lemma find_group_member: "find_group c g = Some G \<Longrightarrow> member_of c g t \<longleftrightarrow> t \<in> set (g_Targets G)"
  by (simp add: member_of_def)

lemma is_group_names: "is_group c g \<longleftrightarrow> g \<in> group_names c"
  by (auto simp: is_group_def find_group_def group_names_def find_None_iff)

lemma finite_group_names [simp]: "finite (group_names c)" and card_group_names: "card (group_names c) \<le> length (c_Groups c)"
  by (simp_all add: group_names_def card_image_le [THEN order_trans] card_length)

section \<open>Rules for the loop over the members\<close>

lemma group_loop_inv:
  assumes "group_loop call l ts gs V = Some (ts', gs', V')" and "P [] ts gs V"
    and "\<And>pre t post a b V1 tt tg V2. \<lbrakk>l = pre @ t # post; P pre a b V1; call t V1 = Some (tt, tg, V2)\<rbrakk> \<Longrightarrow>
           P (pre @ [t]) (a @ (if tt = [] then [t] else tt)) (b @ tg) V2"
  shows "P l ts' gs' V'"
proof -
  have "P (pre @ post) ts' gs' V'"
    if "l = pre @ post" "P pre a b V1" "group_loop call post a b V1 = Some (ts', gs', V')" for pre post a b V1
    using that
  proof (induction post arbitrary: pre a b V1)
    case Nil
    then show ?case by simp
  next
    case (Cons t post)
    from Cons.prems(3) obtain tt tg V2 where t: "call t V1 = Some (tt, tg, V2)"
      and post: "group_loop call post (a @ (if tt = [] then [t] else tt)) (b @ tg) V2 = Some (ts', gs', V')"
      by (auto split: option.splits)
    show ?case
      using Cons.IH [of "pre @ [t]", OF _ assms(3) [OF Cons.prems(1,2) t] post] Cons.prems(1) by simp
  qed
  from this [of "[]" l] show ?thesis using assms(1,2) by simp
qed

lemma group_loop_total:
  assumes "Q V" and "\<And>t V1. t \<in> set l \<Longrightarrow> Q V1 \<Longrightarrow> \<exists>tt tg V2. call t V1 = Some (tt, tg, V2) \<and> Q V2"
  shows "\<exists>ts' gs' V'. group_loop call l ts gs V = Some (ts', gs', V') \<and> Q V'"
  using assms
proof (induction l arbitrary: ts gs V)
  case (Cons t l)
  obtain tt tg V2 where t: "call t V = Some (tt, tg, V2)" and Q: "Q V2"
    using Cons.prems by (metis list.set_intros(1))
  show ?case using Cons.IH [OF Q] Cons.prems(2) t by simp
qed simp

section \<open>Termination\<close>

definition unvisited :: "Config \<Rightarrow> visits \<Rightarrow> string set" where
  "unvisited c V = {g \<in> group_names c. mget V g = None}"

lemma unvisited_enter:
  assumes "find_group c name = Some g" "mget V name = None"
  shows "card (unvisited c (mset_key name v V)) < card (unvisited c V)"
proof (rule psubset_card_mono)
  show "finite (unvisited c V)" by (simp add: unvisited_def)
  have "name \<in> unvisited c V" using assms is_group_names [of c name] by (auto simp: unvisited_def is_group_def)
  moreover have "name \<notin> unvisited c (mset_key name v V)" by (simp add: unvisited_def mget_set)
  moreover have "unvisited c (mset_key name v V) \<subseteq> unvisited c V" by (auto simp: unvisited_def mget_set split: if_splits)
  ultimately show "unvisited c (mset_key name v V) \<subset> unvisited c V" by blast
qed

lemma bake_group_total:
  "card (unvisited c V) < n \<Longrightarrow> \<exists>ts gs V'. bake_group n c name V = Some (ts, gs, V') \<and> unvisited c V' \<subseteq> unvisited c V"
proof (induction n arbitrary: name V)
  case (Suc n)
  show ?case
  proof (cases "mget V name")
    case (Some v)
    then show ?thesis by (cases v) simp
  next
    case new: None
    show ?thesis
    proof (cases "find_group c name")
      case None
      then show ?thesis using new by simp
    next
      case (Some g)
      define V1 where "V1 = mset_key name ([], []) V"
      have sub: "unvisited c V1 \<subseteq> unvisited c V" by (auto simp: V1_def unvisited_def mget_set split: if_splits)
      have small: "card (unvisited c V1) < n"
        using unvisited_enter [OF Some new, of "([], [])"] Suc.prems by (simp add: V1_def)
      have fin: "finite (unvisited c W)" for W by (simp add: unvisited_def)
      have "\<exists>ts' gs' V'. group_loop (bake_group n c) (g_Targets g) [] [name] V1 = Some (ts', gs', V') \<and>
              unvisited c V' \<subseteq> unvisited c V1"
      proof (rule group_loop_total)
        fix t V2 assume "unvisited c V2 \<subseteq> unvisited c V1"
        then have "card (unvisited c V2) < n" using card_mono [OF fin [of V1]] small by (meson le_less_trans)
        then show "\<exists>tt tg V3. bake_group n c t V2 = Some (tt, tg, V3) \<and> unvisited c V3 \<subseteq> unvisited c V1"
          using Suc.IH [of V2 t] \<open>unvisited c V2 \<subseteq> _\<close> by blast
      qed simp
      then obtain ts gs V' where l: "group_loop (bake_group n c) (g_Targets g) [] [name] V1 = Some (ts, gs, V')"
        and V': "unvisited c V' \<subseteq> unvisited c V1" by blast
      have "unvisited c (mset_key name (ts, gs) V') \<subseteq> unvisited c V'" by (auto simp: unvisited_def mget_set split: if_splits)
      then show ?thesis using new Some l V' sub V1_def by auto
    qed
  qed
qed simp

section \<open>What the search finds\<close>

text \<open>A memo entry only holds names that can be reached from its group.\<close>

definition sound_visits :: "Config \<Rightarrow> visits \<Rightarrow> bool" where
  "sound_visits c V \<longleftrightarrow> (\<forall>g ts gs. mget V g = Some (ts, gs) \<longrightarrow>
     is_group c g \<and> (\<forall>x \<in> set ts \<union> set gs. reaches c g x) \<and> (\<forall>x \<in> set gs. is_group c x))"

lemma bake_group_sound:
  assumes "bake_group n c name V = Some (ts, gs, V')" "sound_visits c V"
  shows "sound_visits c V' \<and> (\<forall>x \<in> set ts \<union> set gs. reaches c name x) \<and> (\<forall>x \<in> set gs. is_group c x)"
  using assms
proof (induction n arbitrary: name V ts gs V')
  case (Suc n)
  show ?case
  proof (cases "mget V name")
    case (Some v)
    then have "mget V name = Some (ts, gs)" "V' = V" using Suc.prems(1) by (auto split: prod.splits)
    then show ?thesis using Suc.prems(2) unfolding sound_visits_def by blast
  next
    case new: None
    show ?thesis
    proof (cases "find_group c name")
      case None
      then show ?thesis using new Suc.prems by (auto intro: reaches_refl)
    next
      case (Some g)
      from Suc.prems(1) new Some obtain W
        where l: "group_loop (bake_group n c) (g_Targets g) [] [name] (mset_key name ([], []) V) = Some (ts, gs, W)"
          and V': "V' = mset_key name (ts, gs) W" by (auto split: option.splits)
      have grp: "is_group c name" using Some by (simp add: is_group_def)
      define P where "P = (\<lambda>(pre :: string list) ts gs V. sound_visits c V \<and>
        (\<forall>x \<in> set ts \<union> set gs. reaches c name x) \<and> (\<forall>x \<in> set gs. is_group c x))"
      have "P (g_Targets g) ts gs W"
      proof (rule group_loop_inv [OF l])
        show "P [] [] [name] (mset_key name ([], []) V)"
          using Suc.prems(2) grp by (auto simp: P_def sound_visits_def mget_set intro: reaches_refl)
      next
        fix pre t post a b V1 tt tg V2
        assume t: "g_Targets g = pre @ t # post" and P: "P pre a b V1" and call: "bake_group n c t V1 = Some (tt, tg, V2)"
        have m: "member_of c name t" using find_group_member [OF Some] t by simp
        have V1: "sound_visits c V1" using P by (simp add: P_def)
        note IH = Suc.IH [OF call V1]
        have "reaches c name x" if "x \<in> set tt \<union> set tg \<union> {t}" for x
          using that IH reaches_member [OF m] reaches_refl by blast
        then show "P (pre @ [t]) (a @ (if tt = [] then [t] else tt)) (b @ tg) V2"
          using P IH by (auto simp: P_def)
      qed
      then show ?thesis using grp V' by (auto simp: P_def sound_visits_def mget_set)
    qed
  qed
qed simp

text \<open>The groups a call adds to the memo are listed in its result, with every target that is a member of
  one of them, and each of their members is in the memo itself if it is a group.\<close>

definition covered :: "Config \<Rightarrow> visits \<Rightarrow> string list \<Rightarrow> string list \<Rightarrow> visits \<Rightarrow> string set \<Rightarrow> bool" where
  "covered c V ts gs V' pending \<longleftrightarrow>
     (\<forall>g. mget V g \<noteq> None \<longrightarrow> mget V' g \<noteq> None) \<and>
     (\<forall>g. mget V' g \<noteq> None \<longrightarrow> mget V g = None \<longrightarrow> g \<in> set gs) \<and>
     (\<forall>g t. mget V' g \<noteq> None \<longrightarrow> mget V g = None \<longrightarrow> g \<notin> pending \<longrightarrow> member_of c g t \<longrightarrow>
        (if is_group c t then mget V' t \<noteq> None else t \<in> set ts))"

lemma coveredD:
  assumes "covered c V ts gs V' pending"
  shows "mget V g \<noteq> None \<Longrightarrow> mget V' g \<noteq> None"
    and "mget V' g \<noteq> None \<Longrightarrow> mget V g = None \<Longrightarrow> g \<in> set gs"
    and "mget V' g \<noteq> None \<Longrightarrow> mget V g = None \<Longrightarrow> g \<notin> pending \<Longrightarrow> member_of c g t \<Longrightarrow> is_group c t \<Longrightarrow> mget V' t \<noteq> None"
    and "mget V' g \<noteq> None \<Longrightarrow> mget V g = None \<Longrightarrow> g \<notin> pending \<Longrightarrow> member_of c g t \<Longrightarrow> \<not> is_group c t \<Longrightarrow> t \<in> set ts"
  using assms unfolding covered_def by presburger+

lemma coveredI:
  assumes "\<And>g. mget V g \<noteq> None \<Longrightarrow> mget V' g \<noteq> None"
    and "\<And>g. mget V' g \<noteq> None \<Longrightarrow> mget V g = None \<Longrightarrow> g \<in> set gs"
    and "\<And>g t. mget V' g \<noteq> None \<Longrightarrow> mget V g = None \<Longrightarrow> g \<notin> pending \<Longrightarrow> member_of c g t \<Longrightarrow> is_group c t \<Longrightarrow> mget V' t \<noteq> None"
    and "\<And>g t. mget V' g \<noteq> None \<Longrightarrow> mget V g = None \<Longrightarrow> g \<notin> pending \<Longrightarrow> member_of c g t \<Longrightarrow> \<not> is_group c t \<Longrightarrow> t \<in> set ts"
  shows "covered c V ts gs V' pending"
  unfolding covered_def using assms by presburger

lemma covered_trans:
  assumes 1: "covered c V a b V1 pending" and 2: "covered c V1 tt tg V2 {}" and sub: "set tt \<subseteq> set tt'"
  shows "covered c V (a @ tt') (b @ tg) V2 pending"
proof (rule coveredI)
  fix g assume "mget V g \<noteq> None"
  then show "mget V2 g \<noteq> None" using coveredD(1) [OF 1] coveredD(1) [OF 2] by blast
next
  fix g assume "mget V2 g \<noteq> None" "mget V g = None"
  then show "g \<in> set (b @ tg)" using coveredD(2) [OF 1] coveredD(2) [OF 2] by (cases "mget V1 g = None") auto
next
  fix g t assume "mget V2 g \<noteq> None" "mget V g = None" "g \<notin> pending" "member_of c g t" "is_group c t"
  then show "mget V2 t \<noteq> None"
    using coveredD(3) [OF 1] coveredD(1,3) [OF 2] by (cases "mget V1 g = None") blast+
next
  fix g t assume "mget V2 g \<noteq> None" "mget V g = None" "g \<notin> pending" "member_of c g t" "\<not> is_group c t"
  then have "t \<in> set a \<or> t \<in> set tt"
    using coveredD(4) [OF 1] coveredD(4) [OF 2] by (cases "mget V1 g = None") blast+
  then show "t \<in> set (a @ tt')" using sub by auto
qed

lemma covered_refl: "covered c V [] [] V {}"
  by (rule coveredI) simp_all

lemma sound_visits_group: "sound_visits c V \<Longrightarrow> mget V x \<noteq> None \<Longrightarrow> is_group c x"
  unfolding sound_visits_def by fastforce

lemma covered_enter: "covered c V [] [name] (mset_key name v V) {name}"
  by (rule coveredI) (auto simp: mget_set split: if_splits)

text \<open>A finished group: its own members are covered too.\<close>

lemma covered_finish:
  assumes cov: "covered c V ts gs W {name}"
    and mem: "\<And>t. member_of c name t \<Longrightarrow> if is_group c t then mget W t \<noteq> None else t \<in> set ts" and gs: "name \<in> set gs"
  shows "covered c V ts gs (mset_key name v W) {}"
proof (rule coveredI)
  fix g assume "mget V g \<noteq> None"
  then show "mget (mset_key name v W) g \<noteq> None" using coveredD(1) [OF cov] by (simp add: mget_set)
next
  fix g assume "mget (mset_key name v W) g \<noteq> None" "mget V g = None"
  then show "g \<in> set gs" using coveredD(2) [OF cov, of g] gs by (simp add: mget_set split: if_splits)
next
  fix g t assume g: "mget (mset_key name v W) g \<noteq> None" "mget V g = None" "member_of c g t" "is_group c t"
  have "mget W t \<noteq> None"
  proof (cases "g = name")
    case True
    then show ?thesis using mem [of t] g by simp
  next
    case False
    then have "mget W g \<noteq> None" using g(1) by (simp add: mget_set)
    then show ?thesis using coveredD(3) [OF cov, of g t] g False by blast
  qed
  then show "mget (mset_key name v W) t \<noteq> None" by (simp add: mget_set)
next
  fix g t assume g: "mget (mset_key name v W) g \<noteq> None" "mget V g = None" "member_of c g t" "\<not> is_group c t"
  show "t \<in> set ts"
  proof (cases "g = name")
    case True
    then show ?thesis using mem [of t] g by simp
  next
    case False
    then have "mget W g \<noteq> None" using g(1) by (simp add: mget_set)
    then show ?thesis using coveredD(4) [OF cov, of g t] g False by blast
  qed
qed

lemma bake_group_covers:
  assumes "bake_group n c name V = Some (ts, gs, V')" and "sound_visits c V"
  shows "covered c V ts gs V' {} \<and> (if is_group c name then mget V' name \<noteq> None else name \<in> set ts)"
  using assms
proof (induction n arbitrary: name V ts gs V')
  case (Suc n)
  show ?case
  proof (cases "mget V name")
    case (Some v)
    then have "V' = V" using Suc.prems(1) by (auto split: prod.splits)
    then show ?thesis using Some sound_visits_group [OF Suc.prems(2), of name] by (auto intro!: coveredI)
  next
    case new: None
    show ?thesis
    proof (cases "find_group c name")
      case None
      then show ?thesis using new Suc.prems by (auto simp: is_group_def intro!: coveredI)
    next
      case (Some g)
      from Suc.prems(1) new Some obtain W
        where l: "group_loop (bake_group n c) (g_Targets g) [] [name] (mset_key name ([], []) V) = Some (ts, gs, W)"
          and V': "V' = mset_key name (ts, gs) W" by (auto split: option.splits)
      define P where "P = (\<lambda>pre ts gs W. covered c V ts gs W {name} \<and> sound_visits c W \<and> name \<in> set gs \<and>
        (\<forall>t \<in> set pre. if is_group c t then mget W t \<noteq> None else t \<in> set ts))"
      have "P (g_Targets g) ts gs W"
      proof (rule group_loop_inv [OF l])
        have "sound_visits c (mset_key name ([], []) V)"
          using Suc.prems(2) Some by (auto simp: sound_visits_def mget_set is_group_def)
        then show "P [] [] [name] (mset_key name ([], []) V)" by (simp add: P_def covered_enter)
      next
        fix pre t post a b V1 tt tg V2
        assume P: "P pre a b V1" and call: "bake_group n c t V1 = Some (tt, tg, V2)"
        have V1: "sound_visits c V1" using P by (simp add: P_def)
        have IH: "covered c V1 tt tg V2 {}" "if is_group c t then mget V2 t \<noteq> None else t \<in> set tt"
          using Suc.IH [OF call V1] by simp_all
        define tt' where "tt' = (if tt = [] then [t] else tt)"
        have "name \<in> set (b @ tg)" using P by (simp add: P_def)
        moreover have "covered c V (a @ tt') (b @ tg) V2 {name}"
          using P covered_trans [OF _ IH(1), of V a b "{name}" tt'] by (auto simp: P_def tt'_def)
        moreover have "if is_group c x then mget V2 x \<noteq> None else x \<in> set (a @ tt')" if "x \<in> set (pre @ [t])" for x
          using that P IH(2) coveredD(1) [OF IH(1), of x] by (auto simp: P_def tt'_def split: if_splits)
        ultimately show "P (pre @ [t]) (a @ (if tt = [] then [t] else tt)) (b @ tg) V2"
          using bake_group_sound [OF call V1] unfolding P_def tt'_def [symmetric] by blast
      qed
      then have "covered c V ts gs V' {}"
        unfolding V' using find_group_member [OF Some] by (intro covered_finish) (auto simp: P_def)
      then show ?thesis using V' Some by (simp add: mget_set is_group_def)
    qed
  qed
qed simp

lemma sound_visits_Nil [simp]: "sound_visits c []"
  by (simp add: sound_visits_def)

text \<open>From the empty memo everything that can be reached is covered.\<close>

lemma reaches_covered:
  assumes "reaches c a x" and cov: "covered c [] ts gs V' {}"
    and "if is_group c a then mget V' a \<noteq> None else a \<in> set ts"
  shows "if is_group c x then mget V' x \<noteq> None else x \<in> set ts"
  using assms(1,3)
proof (induction rule: reaches.induct)
  case (reaches_step a b d)
  have "is_group c b" using reaches_step.hyps(2) by (auto simp: member_of_def is_group_def split: option.splits)
  then show ?case
    using reaches_step coveredD(3,4) [OF cov, of b d] by auto
qed simp

text \<open>C31 (ResolveGroup_reaches): resolving a name always returns.  The groups it gives are exactly the groups that
  can be reached from the name through group members, without repetition; the targets it gives, without
  repetition, contain every name that can be reached and is not a group, and nothing that cannot be
  reached.\<close>

theorem ResolveGroup_reaches:
  "\<exists>ts gs. ResolveGroup c name = Some (ts, gs) \<and> distinct ts \<and> distinct gs \<and>
     set gs = {g. reaches c name g \<and> is_group c g} \<and>
     {t. reaches c name t \<and> \<not> is_group c t} \<subseteq> set ts \<and> set ts \<subseteq> {t. reaches c name t}"
proof -
  have "card (unvisited c []) < group_fuel c"
    using card_group_names [of c] by (simp add: unvisited_def group_fuel_def)
  then obtain ts gs V' where r: "bake_group (group_fuel c) c name [] = Some (ts, gs, V')"
    using bake_group_total by blast
  note sound = bake_group_sound [OF r sound_visits_Nil]
  have cov: "covered c [] ts gs V' {}" and start: "if is_group c name then mget V' name \<noteq> None else name \<in> set ts"
    using bake_group_covers [OF r sound_visits_Nil] by simp_all
  have all: "if is_group c x then mget V' x \<noteq> None else x \<in> set ts" if "reaches c name x" for x
    by (rule reaches_covered [OF that cov start])
  have "set gs = {g. reaches c name g \<and> is_group c g}"
    using sound all coveredD(2) [OF cov] by (fastforce split: if_splits)
  moreover have "{t. reaches c name t \<and> \<not> is_group c t} \<subseteq> set ts" using all by (auto split: if_splits)
  moreover have "set ts \<subseteq> {t. reaches c name t}" using sound by auto
  ultimately show ?thesis by (simp add: ResolveGroup_def r)
qed

section \<open>Groups without cycles\<close>

text \<open>With a rank that falls from a group to its members a call never meets a group that is still open,
  and the names it gives are not groups.\<close>

definition ranked :: "Config \<Rightarrow> (string \<Rightarrow> nat) \<Rightarrow> bool" where
  "ranked c rank \<longleftrightarrow> list_all (\<lambda>g. g_Targets g \<noteq> [] \<and> list_all (\<lambda>t. rank t < rank (g_Name g)) (g_Targets g)) (c_Groups c)"

lemma rankedD:
  assumes "ranked c rank" "find_group c name = Some g"
  shows "g_Targets g \<noteq> []" "t \<in> set (g_Targets g) \<Longrightarrow> rank t < rank name"
  using assms by (auto simp: ranked_def find_group_def list_all_iff find_Some_iff)

definition leaf_visits :: "Config \<Rightarrow> string set \<Rightarrow> visits \<Rightarrow> bool" where
  "leaf_visits c opened V \<longleftrightarrow> (\<forall>g ts gs. mget V g = Some (ts, gs) \<longrightarrow> g \<notin> opened \<longrightarrow>
     ts \<noteq> [] \<and> (\<forall>t \<in> set ts. \<not> is_group c t))"

lemma bake_group_leaves:
  assumes "ranked c rank" "bake_group n c name V = Some (ts, gs, V')" "leaf_visits c opened V"
    "\<And>g. g \<in> opened \<Longrightarrow> rank name < rank g"
  shows "leaf_visits c opened V' \<and> ts \<noteq> [] \<and> (\<forall>t \<in> set ts. \<not> is_group c t)"
  using assms(2-)
proof (induction n arbitrary: name V ts gs V' opened)
  case (Suc n)
  have "name \<notin> opened" using Suc.prems(3) by blast
  show ?case
  proof (cases "mget V name")
    case (Some v)
    then have "mget V name = Some (ts, gs)" "V' = V" using Suc.prems(1) by (auto split: prod.splits)
    then show ?thesis using Suc.prems(2) \<open>name \<notin> opened\<close> unfolding leaf_visits_def by blast
  next
    case new: None
    show ?thesis
    proof (cases "find_group c name")
      case None
      then show ?thesis using new Suc.prems by (auto simp: is_group_def)
    next
      case (Some g)
      from Suc.prems(1) new Some obtain W
        where l: "group_loop (bake_group n c) (g_Targets g) [] [name] (mset_key name ([], []) V) = Some (ts, gs, W)"
          and V': "V' = mset_key name (ts, gs) W" by (auto split: option.splits)
      define P where "P = (\<lambda>(pre :: string list) ts (gs :: string list) W. leaf_visits c (insert name opened) W \<and>
        (pre \<noteq> [] \<longrightarrow> ts \<noteq> []) \<and> (\<forall>t \<in> set ts. \<not> is_group c t))"
      have P: "P (g_Targets g) ts gs W"
      proof (rule group_loop_inv [OF l])
        show "P [] [] [name] (mset_key name ([], []) V)"
          using Suc.prems(2) by (auto simp: P_def leaf_visits_def mget_set)
      next
        fix pre t post a b V1 tt tg V2
        assume t: "g_Targets g = pre @ t # post" and P: "P pre a b V1" and call: "bake_group n c t V1 = Some (tt, tg, V2)"
        have "rank t < rank name" using rankedD(2) [OF assms(1) Some] t by simp
        then have "rank t < rank x" if "x \<in> insert name opened" for x
          using that Suc.prems(3) by (auto intro: less_trans)
        then have "leaf_visits c (insert name opened) V2 \<and> tt \<noteq> [] \<and> (\<forall>x \<in> set tt. \<not> is_group c x)"
          using Suc.IH [OF call, of "insert name opened"] P by (simp add: P_def)
        then show "P (pre @ [t]) (a @ (if tt = [] then [t] else tt)) (b @ tg) V2"
          using P by (auto simp: P_def)
      qed
      then have "ts \<noteq> [] \<and> (\<forall>t \<in> set ts. \<not> is_group c t)"
        using rankedD(1) [OF assms(1) Some] by (simp add: P_def)
      then show ?thesis using P by (auto simp: V' P_def leaf_visits_def mget_set)
    qed
  qed
qed simp

text \<open>C32 (ResolveGroup_leaves): in a configuration whose groups are not empty and do not contain each other in a
  cycle (every member of a group has a smaller rank than the group), the targets of a name are exactly
  the names that can be reached from it and are not groups.\<close>

theorem ResolveGroup_leaves:
  assumes "ranked c rank"
  shows "map_option (\<lambda>(ts, _). set ts) (ResolveGroup c name) = Some {t. reaches c name t \<and> \<not> is_group c t}"
proof -
  have "card (unvisited c []) < group_fuel c"
    using card_group_names [of c] by (simp add: unvisited_def group_fuel_def)
  then obtain ts gs V' where r: "bake_group (group_fuel c) c name [] = Some (ts, gs, V')"
    using bake_group_total by blast
  have "leaf_visits c {} []" by (simp add: leaf_visits_def)
  then have leaf: "\<not> is_group c t" if "t \<in> set ts" for t
    using bake_group_leaves [OF assms r, of "{}"] that by simp
  have cov: "covered c [] ts gs V' {}" and start: "if is_group c name then mget V' name \<noteq> None else name \<in> set ts"
    using bake_group_covers [OF r sound_visits_Nil] by simp_all
  have "x \<in> set ts" if "reaches c name x" "\<not> is_group c x" for x
    using reaches_covered [OF that(1) cov start] that(2) by simp
  then have "set ts = {t. reaches c name t \<and> \<not> is_group c t}"
    using leaf bake_group_sound [OF r sound_visits_Nil] by blast
  then show ?thesis by (simp add: ResolveGroup_def r)
qed

definition group_example :: Config where
  "group_example = \<lparr>c_Groups = [\<lparr>g_Name = ''default'', g_Description = [], g_Targets = [''app'', ''all'']\<rparr>,
     \<lparr>g_Name = ''all'', g_Description = [], g_Targets = [''app'', ''db'']\<rparr>], c_Targets = []\<rparr>"

theorem ResolveGroup_leaves_witness:
  "ResolveGroup group_example ''default'' = Some ([''app'', ''db''], [''default'', ''all'']) \<and>
   {''app'', ''db''} = {t. reaches group_example ''default'' t \<and> \<not> is_group group_example t}"
proof -
  have run: "ResolveGroup group_example ''default'' = Some ([''app'', ''db''], [''default'', ''all''])" by code_simp
  have "ranked group_example (\<lambda>n. if n = ''default'' then 2 else if n = ''all'' then 1 else 0)" by code_simp
  from ResolveGroup_leaves [OF this, of "''default''"] run show ?thesis by simp
qed

text \<open>A group that contains itself, or an empty one, is given as a target.\<close>

lemma ResolveGroup_cycle:
  "ResolveGroup \<lparr>c_Groups = [\<lparr>g_Name = ''a'', g_Description = [], g_Targets = [''a'', ''b'']\<rparr>], c_Targets = []\<rparr> ''a'' =
     Some ([''a'', ''b''], [''a''])"
  by code_simp

lemma ResolveGroup_empty:
  "ResolveGroup \<lparr>c_Groups = [\<lparr>g_Name = ''a'', g_Description = [], g_Targets = [''e'']\<rparr>,
      \<lparr>g_Name = ''e'', g_Description = [], g_Targets = []\<rparr>], c_Targets = []\<rparr> ''a'' =
     Some ([''e''], [''a'', ''e''])"
  by code_simp

end
