(* ===== verification/BakeInherit.thy ===== *)
theory BakeInherit
  imports BakeGroups
begin

text \<open>
  Inheritance of targets (\<open>bake/bake.go\<close>, \<open>target\<close> and \<open>ResolveTarget\<close>): the memoised recursion never runs out
  of the fuel given, whatever the overrides, and without overrides it computes the plain recursive
  definition of a target from its parents.
\<close>

section \<open>Errors of the overrides\<close>

lemma disable_push_error: "disable_push hp rs = Inl e \<Longrightarrow> e = BkPanicNilMap"
  by (induction hp rs rule: disable_push.induct)
     (auto simp: result_iff set_push_def split: if_splits option.splits)

lemma enable_push_error: "enable_push rs hp = Inl e \<Longrightarrow> e = BkPanicNilMap"
  unfolding enable_push_def
  by (induction rs arbitrary: hp) (auto simp: result_iff set_push_def split: if_splits option.splits)

lemma setPushOverride_error: "setPushOverride hp os b = Inl e \<Longrightarrow> e = BkPanicNilMap"
  by (auto simp: setPushOverride_def result_iff disable_push_error enable_push_error split: if_splits option.splits)

lemma parseArrValue_error: "parseArrValue u s = Inl e \<Longrightarrow> \<exists>x. e = BkFlag x"
  by (auto simp: parseArrValue_def map_err_iff)

lemma parse_bool_key_error: "parse_bool_key k v = Inl e \<Longrightarrow> e = BkBool v k"
  by (simp add: parse_bool_key_def split: option.splits)

lemma add_override_error:
  assumes "e = BkOutOfFuel \<or> e = BkPanicNilTarget"
  shows "add_override ov st \<noteq> Inl e"
proof
  assume "add_override ov st = Inl e"
  then show False
    using assms
    by (cases ov)
       (auto simp: add_override_def Let_def set_target_def result_iff split: if_splits option.splits prod.splits
        dest!: setPushOverride_error parseArrValue_error parse_bool_key_error)
qed

lemma rfold_no_error:
  assumes "\<And>x s. f x s \<noteq> Inl e"
  shows "rfold f xs s \<noteq> Inl e"
  by (induction xs arbitrary: s) (auto simp: assms result_iff)

lemma AddOverrides_error: "e = BkOutOfFuel \<or> e = BkPanicNilTarget \<Longrightarrow> AddOverrides ovs st \<noteq> Inl e"
  unfolding AddOverrides_def by (rule rfold_no_error) (rule add_override_error)

section \<open>Termination\<close>

definition target_names :: "Config \<Rightarrow> string set" where
  "target_names c = t_Name ` set (c_Targets c)"

definition unresolved :: "Config \<Rightarrow> target_state \<Rightarrow> string set" where
  "unresolved c st = {n \<in> target_names c. mget (ts_visited st) n = None}"

lemma finite_unresolved [simp]: "finite (unresolved c st)"
  by (simp add: unresolved_def target_names_def)

lemma find_target_name: "find_target c name = Some t \<Longrightarrow> t_Name t = name \<and> t \<in> set (c_Targets c)"
  by (auto simp: find_target_def find_Some_iff)

lemma find_target_names: "find_target c name \<noteq> None \<longleftrightarrow> name \<in> target_names c"
  by (auto simp: find_target_def target_names_def find_None_iff)

definition progress :: "Config \<Rightarrow> target_state \<Rightarrow> bake_error + 'a \<times> target_state \<Rightarrow> bool" where
  "progress c st r \<longleftrightarrow> r \<noteq> Inl BkOutOfFuel \<and> (\<forall>t st'. r = Inr (t, st') \<longrightarrow> unresolved c st' \<subseteq> unresolved c st)"

lemma progress_mono: "progress c st1 r \<Longrightarrow> unresolved c st1 \<subseteq> unresolved c st \<Longrightarrow> progress c st r"
  unfolding progress_def by blast

lemma progress_rbind:
  assumes "progress c st m" and "\<And>x st1. m = Inr (x, st1) \<Longrightarrow> progress c st1 (f (x, st1))"
  shows "progress c st (rbind m f)"
proof (cases m)
  case (Inl e)
  then show ?thesis using assms(1) by (simp add: progress_def)
next
  case (Inr r)
  obtain x st1 where r: "r = (x, st1)" by (cases r)
  then show ?thesis using assms Inr progress_mono [of c st1 "f (x, st1)" st] by (simp add: progress_def)
qed

lemma inherit_loop_progress:
  assumes "\<And>name st'. unresolved c st' \<subseteq> unresolved c st \<Longrightarrow> progress c st' (call name st')"
  shows "progress c st (inherit_loop call names tt st)"
proof -
  have "progress c st (inherit_loop call names tt st1)" if "unresolved c st1 \<subseteq> unresolved c st" for st1
    using that
  proof (induction names arbitrary: tt st1)
    case (Cons name names)
    have p: "progress c st1 (call name st1)" by (rule assms [OF Cons.prems])
    show ?case
    proof (cases "call name st1")
      case (Inl e)
      then show ?thesis using p by (simp add: progress_def)
    next
      case (Inr r)
      obtain t st2 where r: "r = (t, st2)" by (cases r)
      have "unresolved c st2 \<subseteq> unresolved c st" using p Inr r Cons.prems by (auto simp: progress_def)
      then show ?thesis using Cons.IH Inr r by simp
    qed
  qed (simp add: progress_def)
  then show ?thesis by simp
qed

lemma finish_target_progress: "progress c st (finish_target ovs name tt t st)"
  using AddOverrides_error [of BkOutOfFuel]
  by (auto simp: progress_def finish_target_def result_iff Let_def unresolved_def mget_set split: if_splits)

lemma bake_target_progress: "card (unresolved c st) < n \<Longrightarrow> progress c st (bake_target n c ovs name st)"
proof (induction n arbitrary: name st)
  case (Suc n)
  define st1 where "st1 = st\<lparr>ts_visited := mset_key name None (ts_visited st)\<rparr>"
  have sub: "unresolved c st1 \<subseteq> unresolved c st"
    by (auto simp: st1_def unresolved_def mget_set split: if_splits)
  show ?case
  proof (cases "mget (ts_visited st) name = None \<and> find_target c name \<noteq> None")
    case False
    then show ?thesis by (auto simp: progress_def Let_def split: option.splits)
  next
    case True
    then obtain t where t: "find_target c name = Some t" and new: "mget (ts_visited st) name = None" by auto
    have "name \<in> unresolved c st" "name \<notin> unresolved c st1"
      using True find_target_names by (auto simp: unresolved_def st1_def mget_set)
    then have less: "card (unresolved c st1) < card (unresolved c st)"
      using sub by (intro psubset_card_mono) auto
    have "progress c st1 (inherit_loop (bake_target n c ovs) (t_Inherits t) defaultTarget st1)"
    proof (rule inherit_loop_progress)
      fix nm st2 assume "unresolved c st2 \<subseteq> unresolved c st1"
      then have "card (unresolved c st2) < n"
        using card_mono [of "unresolved c st1" "unresolved c st2"] less Suc.prems by simp
      then show "progress c st2 (bake_target n c ovs nm st2)" by (rule Suc.IH)
    qed
    then have "progress c st1 (rbind (inherit_loop (bake_target n c ovs) (t_Inherits t) defaultTarget st1)
        (\<lambda>(tt, st). finish_target ovs name tt t st))"
      by (rule progress_rbind) (simp add: finish_target_progress)
    then show ?thesis using t new progress_mono [OF _ sub] by (simp add: Let_def st1_def)
  qed
qed simp

lemma bake_target_first:
  "bake_target n c ovs name st = Inr (t, st') \<Longrightarrow> mget (ts_visited st) name = None \<Longrightarrow> t \<noteq> None"
  by (cases n) (auto simp: Let_def result_iff finish_target_def split: option.splits)

lemma inherit_loop_error:
  assumes "\<And>name st. call name st \<noteq> Inl e"
  shows "inherit_loop call names tt st \<noteq> Inl e"
  by (induction names arbitrary: tt st) (auto simp: assms result_iff)

lemma bake_target_no_panic: "bake_target n c ovs name st \<noteq> Inl BkPanicNilTarget"
proof (induction n arbitrary: name st)
  case (Suc n)
  then show ?case
    using inherit_loop_error [of "bake_target n c ovs" BkPanicNilTarget] AddOverrides_error [of BkPanicNilTarget]
    by (auto simp: Let_def result_iff finish_target_def split: option.splits)
qed simp

lemma start_fuel: "card (unresolved c \<lparr>ts_visited = [], ts_heap = hp, ts_ent = ent\<rparr>) < target_fuel c"
proof -
  have "card (target_names c) \<le> length (c_Targets c)"
    by (simp add: target_names_def card_image_le [THEN order_trans] card_length)
  then show ?thesis by (simp add: unresolved_def target_fuel_def)
qed

lemma ResolveTarget_error:
  assumes "e = BkOutOfFuel \<or> e = BkPanicNilTarget"
  shows "ResolveTarget c ovs name hp ent \<noteq> Inl e"
proof -
  define r where "r = bake_target (target_fuel c) c ovs name \<lparr>ts_visited = [], ts_heap = hp, ts_ent = ent\<rparr>"
  have "r \<noteq> Inl BkOutOfFuel"
    using bake_target_progress [OF start_fuel, of c hp ent ovs name] by (simp add: progress_def r_def)
  moreover have "r \<noteq> Inl BkPanicNilTarget" by (simp add: r_def bake_target_no_panic)
  moreover have "t \<noteq> None" if "r = Inr (t, st)" for t st
    using bake_target_first [of "target_fuel c" c ovs name _ t st] that by (simp add: r_def)
  ultimately show ?thesis
    using assms unfolding ResolveTarget_def r_def [symmetric] by (cases r) (auto split: option.splits)
qed

text \<open>Whatever the inheritance between targets, cyclic or not, and whatever the overrides,
  resolving a target ends, and it never dereferences the nil target that marks a target still being
  resolved.\<close>

theorem ResolveTarget_ends:
  "ResolveTarget c ovs name hp ent \<notin> {Inl BkOutOfFuel, Inl BkPanicNilTarget}"
  using ResolveTarget_error by blast

section \<open>The plain definition of inheritance\<close>

definition merge_parents :: "Target list \<Rightarrow> Target" where
  "merge_parents ps = fold (\<lambda>p tt. Target_Merge tt p) ps defaultTarget"

text \<open>A target on its own: its parents resolved and merged in order, the target merged over them, the
  result normalised.\<close>

inductive inherited :: "Config \<Rightarrow> heap \<Rightarrow> string \<Rightarrow> Target \<Rightarrow> bool" for c hp where
  inherited_target: "find_target c name = Some t \<Longrightarrow> list_all2 (inherited c hp) (t_Inherits t) ps \<Longrightarrow>
    inherited c hp name (Target_normalize hp (Target_Merge (Target_Merge defaultTarget (merge_parents ps)) t))"

inductive_cases inheritedE: "inherited c hp name r"

lemma inherited_unique: "inherited c hp name r \<Longrightarrow> inherited c hp name r' \<Longrightarrow> r = r'"
proof (induction arbitrary: r' rule: inherited.induct)
  case (inherited_target name t ps)
  from inherited_target.prems obtain ps' where
    r': "r' = Target_normalize hp (Target_Merge (Target_Merge defaultTarget (merge_parents ps')) t)"
    and ps': "list_all2 (inherited c hp) (t_Inherits t) ps'"
    using inherited_target.hyps by (auto elim!: inheritedE)
  have "ps = ps'"
    using inherited_target.IH ps'
    by (auto simp: list_all2_conv_all_nth intro!: nth_equalityI)
  then show ?case using r' by simp
qed

definition inherit_ranked :: "Config \<Rightarrow> (string \<Rightarrow> nat) \<Rightarrow> bool" where
  "inherit_ranked c rank \<longleftrightarrow> list_all (\<lambda>t. list_all (\<lambda>p. rank p < rank (t_Name t) \<and> find_target c p \<noteq> None) (t_Inherits t)) (c_Targets c)"

lemma inherit_rankedD:
  assumes "inherit_ranked c rank" "find_target c name = Some t" "p \<in> set (t_Inherits t)"
  shows "rank p < rank name" "find_target c p \<noteq> None"
  using assms find_target_name [OF assms(2)] by (auto simp: inherit_ranked_def list_all_iff)

definition memo_ok :: "Config \<Rightarrow> string set \<Rightarrow> target_state \<Rightarrow> bool" where
  "memo_ok c opened st \<longleftrightarrow> (\<forall>n v. mget (ts_visited st) n = Some v \<longrightarrow> n \<notin> opened \<longrightarrow>
     (\<exists>r. v = Some r \<and> inherited c (ts_heap st) n r))"

text \<open>The result of a call: out of fuel, or the value with a memo that is still right.\<close>

definition returns :: "Config \<Rightarrow> string set \<Rightarrow> target_state \<Rightarrow> ('a \<Rightarrow> bool) \<Rightarrow> bake_error + 'a \<times> target_state \<Rightarrow> bool" where
  "returns c opened st P r \<longleftrightarrow> r = Inl BkOutOfFuel \<or>
     (\<exists>x st'. r = Inr (x, st') \<and> P x \<and> memo_ok c opened st' \<and> ts_heap st' = ts_heap st \<and> ts_ent st' = ts_ent st)"

lemma inherit_loop_returns:
  assumes "memo_ok c opened st"
    and "\<And>name st'. \<lbrakk>name \<in> set names; memo_ok c opened st'; ts_heap st' = ts_heap st; ts_ent st' = ts_ent st\<rbrakk> \<Longrightarrow>
           returns c opened st' (\<lambda>x. \<exists>r. x = Some r \<and> inherited c (ts_heap st) name r) (call name st')"
  shows "returns c opened st (\<lambda>tt'. \<exists>ps. list_all2 (inherited c (ts_heap st)) names ps \<and>
           tt' = fold (\<lambda>p tt. Target_Merge tt p) ps tt) (inherit_loop call names tt st)"
  using assms
proof (induction names arbitrary: tt st)
  case (Cons name names)
  have "returns c opened st (\<lambda>x. \<exists>r. x = Some r \<and> inherited c (ts_heap st) name r) (call name st)"
    using Cons.prems(2) [of name st] Cons.prems(1) by simp
  then consider "call name st = Inl BkOutOfFuel"
    | r st1 where "call name st = Inr (Some r, st1)" "inherited c (ts_heap st) name r" "memo_ok c opened st1"
        "ts_heap st1 = ts_heap st" "ts_ent st1 = ts_ent st"
    unfolding returns_def by blast
  then show ?case
  proof cases
    case 1
    then show ?thesis by (simp add: returns_def)
  next
    case 2
    have "returns c opened st1 (\<lambda>tt'. \<exists>ps. list_all2 (inherited c (ts_heap st1)) names ps \<and>
           tt' = fold (\<lambda>p tt. Target_Merge tt p) ps (Target_Merge tt r)) (inherit_loop call names (Target_Merge tt r) st1)"
      using Cons.prems(2) 2(4,5) by (intro Cons.IH [OF 2(3)]) simp
    then show ?thesis
      using 2 unfolding returns_def by (fastforce simp: list_all2_Cons1)
  qed
qed (simp add: returns_def)

lemma AddOverrides_none [simp]: "AddOverrides (mget_or [] [] name) st = Inr st"
  by (simp add: AddOverrides_def mget_or_def)

lemma finish_target_plain:
  "finish_target [] name tt t st =
     (let r = Target_normalize (ts_heap st) (Target_Merge (Target_Merge defaultTarget tt) t)
      in Inr (Some r, st\<lparr>ts_visited := mset_key name (Some r) (ts_visited st)\<rparr>))"
  by (simp add: finish_target_def Let_def)

lemma bake_target_returns:
  assumes "inherit_ranked c rank"
  shows "\<lbrakk>find_target c name \<noteq> None; memo_ok c opened st; \<And>n. n \<in> opened \<Longrightarrow> rank name < rank n\<rbrakk> \<Longrightarrow>
    returns c opened st (\<lambda>x. \<exists>r. x = Some r \<and> inherited c (ts_heap st) name r) (bake_target n c [] name st)"
proof (induction n arbitrary: name st opened)
  case (Suc n)
  have "name \<notin> opened" using Suc.prems(3) by blast
  obtain t where t: "find_target c name = Some t" using Suc.prems(1) by blast
  show ?case
  proof (cases "mget (ts_visited st) name")
    case (Some v)
    then show ?thesis using Suc.prems(2) \<open>name \<notin> opened\<close> by (auto simp: returns_def memo_ok_def)
  next
    case None
    define st1 where "st1 = st\<lparr>ts_visited := mset_key name None (ts_visited st)\<rparr>"
    have "memo_ok c (insert name opened) st1"
      using Suc.prems(2) by (auto simp: memo_ok_def st1_def mget_set)
    then have "returns c (insert name opened) st1 (\<lambda>tt'. \<exists>ps. list_all2 (inherited c (ts_heap st1)) (t_Inherits t) ps \<and>
        tt' = merge_parents ps) (inherit_loop (bake_target n c []) (t_Inherits t) defaultTarget st1)"
      unfolding merge_parents_def
    proof (rule inherit_loop_returns)
      fix p st2 assume p: "p \<in> set (t_Inherits t)" and st2: "memo_ok c (insert name opened) st2" "ts_heap st2 = ts_heap st1"
      have "rank p < rank m" if "m \<in> insert name opened" for m
        using inherit_rankedD(1) [OF assms t p] that Suc.prems(3) by (auto intro: less_trans)
      then show "returns c (insert name opened) st2 (\<lambda>x. \<exists>r. x = Some r \<and> inherited c (ts_heap st1) p r) (bake_target n c [] p st2)"
        using Suc.IH [OF inherit_rankedD(2) [OF assms t p] st2(1)] st2(2) by simp
    qed
    then consider "inherit_loop (bake_target n c []) (t_Inherits t) defaultTarget st1 = Inl BkOutOfFuel"
      | ps st2 where "inherit_loop (bake_target n c []) (t_Inherits t) defaultTarget st1 = Inr (merge_parents ps, st2)"
          "list_all2 (inherited c (ts_heap st)) (t_Inherits t) ps" "memo_ok c (insert name opened) st2"
          "ts_heap st2 = ts_heap st" "ts_ent st2 = ts_ent st"
      unfolding returns_def st1_def by auto
    then show ?thesis
    proof cases
      case 1
      then show ?thesis using None t by (simp add: returns_def st1_def Let_def)
    next
      case 2
      have "inherited c (ts_heap st) name
          (Target_normalize (ts_heap st) (Target_Merge (Target_Merge defaultTarget (merge_parents ps)) t))"
        by (rule inherited_target [OF t 2(2)])
      then show ?thesis
        using None t 2 by (auto simp: returns_def st1_def [symmetric] Let_def finish_target_plain memo_ok_def mget_set)
    qed
  qed
qed (simp add: returns_def)

definition with_defaults :: "Target \<Rightarrow> Target" where
  "with_defaults t = t\<lparr>t_Inherits := [], t_Context := Some (case t_Context t of None \<Rightarrow> ''.'' | Some p \<Rightarrow> p),
     t_Dockerfile := Some (case t_Dockerfile t of None \<Rightarrow> ''Dockerfile'' | Some p \<Rightarrow> p)\<rparr>"


definition inherit_example :: Config where
  "inherit_example = \<lparr>c_Groups = [], c_Targets =
     [defaultTarget\<lparr>t_Name := ''base'', t_Tags := Some [''x'', ''x''], t_Platforms := Some [''linux'']\<rparr>,
      defaultTarget\<lparr>t_Name := ''app'', t_Inherits := [''base''], t_Tags := Some [''y'']\<rparr>]\<rparr>"

definition no_entitlements :: EntitlementConf where
  "no_entitlements = \<lparr>ec_NetworkHost = False, ec_SecurityInsecure = False, ec_Devices = None, ec_FSRead = [],
     ec_FSWrite = [], ec_ImagePush = [], ec_ImageLoad = [], ec_SSH = False\<rparr>"


text \<open>A target that inherits from itself is resolved as if it had no parents.\<close>

lemma inherit_self:
  "ResolveTarget \<lparr>c_Groups = [], c_Targets = [defaultTarget\<lparr>t_Name := ''a'', t_Inherits := [''a''], t_Tags := Some [''y'']\<rparr>]\<rparr>
     [] ''a'' [] ent = Inr (with_defaults (defaultTarget\<lparr>t_Tags := Some [''y'']\<rparr>), [], ent)"
  by (cases ent) code_simp

end
