(* ===== verification/BakeLinks.thy ===== *)
theory BakeLinks
  imports BakeInherit
begin

text \<open>
  Links between targets (\<open>bake/bake.go\<close>, \<open>loadLinks\<close>, \<open>newOverrides\<close> and \<open>ReadTargets\<close>): reading the targets of a command
  always ends, and every link of a target that is read leads to a target that is read too, whose
  entitlements the first one has and whose platforms suit it.
\<close>

section \<open>Termination\<close>

lemma ResolveTarget_known: "ResolveTarget c ovs name hp ent = Inr r \<Longrightarrow> name \<in> target_names c"
  using find_target_names [of c name]
  by (auto simp: ResolveTarget_def target_fuel_def result_iff Let_def split: option.splits)

definition read_names :: "link_state \<Rightarrow> string set" where
  "read_names st = {n. mget (ls_targets st) n \<noteq> None}"

abbreviation stuck :: "bake_error \<Rightarrow> bool" where
  "stuck e \<equiv> e = BkOutOfFuel \<or> e = BkPanicNilTarget"

text \<open>A step is safe if it does not get stuck, forgets no target and reads only targets of the files.\<close>

definition safe_links :: "Config \<Rightarrow> link_state \<Rightarrow> bake_error + link_state \<Rightarrow> bool" where
  "safe_links c st r \<longleftrightarrow> (\<forall>e. r = Inl e \<longrightarrow> \<not> stuck e) \<and>
     (\<forall>st'. r = Inr st' \<longrightarrow> read_names st \<subseteq> read_names st' \<and> read_names st' \<subseteq> target_names c)"

lemma safe_links_rbind:
  assumes "safe_links c st m" and "\<And>st1. m = Inr st1 \<Longrightarrow> safe_links c st1 (f st1)"
  shows "safe_links c st (rbind m f)"
  using assms unfolding safe_links_def by (cases m) (simp, simp, blast)

lemma rfold_safe_links:
  assumes "read_names st \<subseteq> target_names c"
    and "\<And>x st'. \<lbrakk>x \<in> set xs; read_names st \<subseteq> read_names st'; read_names st' \<subseteq> target_names c\<rbrakk> \<Longrightarrow> safe_links c st' (f x st')"
  shows "safe_links c st (rfold f xs st)"
proof -
  have "safe_links c st1 (rfold f xs st1)" if "read_names st \<subseteq> read_names st1" "read_names st1 \<subseteq> target_names c" for st1
    using that assms(2)
  proof (induction xs arbitrary: st1)
    case Nil
    then show ?case by (simp add: safe_links_def)
  next
    case (Cons x xs)
    have x: "safe_links c st1 (f x st1)" using Cons.prems by simp
    show ?case
      unfolding rfold.simps
    proof (rule safe_links_rbind [OF x])
      fix st2 assume "f x st1 = Inr st2"
      then have "read_names st \<subseteq> read_names st2" "read_names st2 \<subseteq> target_names c"
        using x Cons.prems(1) by (auto simp: safe_links_def)
      then show "safe_links c st2 (rfold f xs st2)" using Cons.IH Cons.prems(3) by simp
    qed
  qed
  then show ?thesis using assms(1) by simp
qed

lemma link_target_safe:
  assumes "read_names st \<subseteq> target_names c"
  shows "safe_links c st (link_target c ovs target st)"
    and "link_target c ovs target st = Inr st' \<Longrightarrow> target \<in> read_names st'"
  using assms ResolveTarget_error [of _ c ovs target "ls_heap st" "ls_ent st"]
    ResolveTarget_known [of c ovs target "ls_heap st" "ls_ent st"]
  by (auto simp: link_target_def safe_links_def read_names_def result_iff mget_set subset_iff split: option.splits if_splits)

lemma link_step_safe:
  assumes "read_names st \<subseteq> target_names c" "name \<in> read_names st"
    and "\<And>target st'. \<lbrakk>target \<notin> set visited; target \<in> read_names st'; read_names st' \<subseteq> target_names c\<rbrakk> \<Longrightarrow> safe_links c st' (call target st')"
  shows "safe_links c st (link_step call c ovs name visited v st)"
proof -
  define target where "target = trim_prefix ''target:'' v"
  have last: "safe_links c st' (link_store name target st')"
    if "name \<in> read_names st'" "target \<in> read_names st'" "read_names st' \<subseteq> target_names c" for st'
    using that by (auto simp: link_store_def safe_links_def read_names_def Let_def mget_set split: option.splits if_splits)
  have "safe_links c st (rbind (link_target c ovs target st) (\<lambda>st. rbind (call target st) (link_store name target)))"
    if "target \<notin> set visited"
  proof (rule safe_links_rbind [OF link_target_safe(1) [OF assms(1)]])
    fix st1 assume 1: "link_target c ovs target st = Inr st1"
    have r1: "target \<in> read_names st1" "name \<in> read_names st1" "read_names st1 \<subseteq> target_names c"
      using link_target_safe(1) [OF assms(1), of ovs target] link_target_safe(2) [OF assms(1) 1] 1 assms(2)
      by (auto simp: safe_links_def)
    show "safe_links c st1 (rbind (call target st1) (link_store name target))"
    proof (rule safe_links_rbind [OF assms(3) [OF that r1(1,3)]])
      fix st2 assume "call target st1 = Inr st2"
      then show "safe_links c st2 (link_store name target st2)"
        using assms(3) [OF that r1(1,3)] r1 by (intro last) (auto simp: safe_links_def)
    qed
  qed
  then show ?thesis
    using assms(1) unfolding link_step_def Let_def target_def [symmetric]
    by (simp add: safe_links_def)
qed

lemma loadLinks_safe:
  assumes "read_names st \<subseteq> target_names c" "name \<in> read_names st" "name \<notin> set visited"
    "distinct visited" "set visited \<subseteq> target_names c" "card (target_names c) \<le> length visited + n"
  shows "safe_links c st (loadLinks n c ovs visited name st)"
  using assms
proof (induction n arbitrary: visited name st)
  case 0
  have "length visited < card (target_names c)"
  proof -
    have "card (set (name # visited)) \<le> card (target_names c)"
      using 0 by (intro card_mono) (auto simp: target_names_def)
    then show ?thesis using 0 by (simp add: distinct_card)
  qed
  then show ?case using 0 by simp
next
  case (Suc n)
  obtain t where t: "mget (ls_targets st) name = Some t" using Suc.prems(2) by (auto simp: read_names_def)
  have name: "name \<in> target_names c" using Suc.prems(1,2) by blast
  have "safe_links c st (rfold (\<lambda>(_, v). link_step (loadLinks n c ovs (visited @ [name])) c ovs name (visited @ [name]) v)
          (mrange (t_Contexts t)) st)"
  proof (rule rfold_safe_links [OF Suc.prems(1)])
    fix x st1 assume st1: "read_names st \<subseteq> read_names st1" "read_names st1 \<subseteq> target_names c"
    have "safe_links c st1 (link_step (loadLinks n c ovs (visited @ [name])) c ovs name (visited @ [name]) v st1)" for v
    proof (rule link_step_safe)
      fix target st2 assume "target \<notin> set (visited @ [name])" "target \<in> read_names st2" "read_names st2 \<subseteq> target_names c"
      then show "safe_links c st2 (loadLinks n c ovs (visited @ [name]) target st2)"
        using Suc.prems name by (intro Suc.IH) auto
    qed (use st1 Suc.prems(2) in auto)
    then show "safe_links c st1 ((case x of (_, v) \<Rightarrow> link_step (loadLinks n c ovs (visited @ [name])) c ovs name (visited @ [name]) v) st1)"
      by (cases x) simp
  qed
  then show ?case using t by simp
qed

lemma rmap_error: "rmap f xs = Inl e \<Longrightarrow> \<exists>x \<in> set xs. f x = Inl e"
  by (induction xs) (auto simp: result_iff)

lemma expandTargets_error: "expandTargets c p = Inl e \<Longrightarrow> \<not> stuck e"
  by (auto simp: expandTargets_def result_iff dest!: rmap_error split: if_splits option.splits)

lemma newOverrides_error: "stuck e \<Longrightarrow> newOverrides env c vs \<noteq> Inl e"
  unfolding newOverrides_def
proof (rule rfold_no_error)
  fix v m assume e: "stuck e"
  have "override_target env whole keys val name m \<noteq> Inl e" for whole keys val name m
    using e by (auto simp: override_target_def update_override_def Let_def result_iff split: if_splits option.splits)
  then have loop: "rfold (override_target env whole keys val) names m \<noteq> Inl e" for whole keys val names m
    by (rule rfold_no_error)
  have "(let keys = splitn 3 (CHR ''.'') whole
      in if length keys < 2 then Inl (BkOverrideKey whole)
         else if val = None \<and> keys ! 1 \<noteq> ''args'' then Inl (BkOverride v)
         else rbind (expandTargets c (hd keys)) (\<lambda>names. rfold (override_target env whole keys val) names m)) \<noteq> Inl e" for whole val
    using e loop by (auto simp: Let_def result_iff dest: expandTargets_error)
  then show "override_arg env c v m \<noteq> Inl e" by (auto simp: override_arg_def split: option.splits)
qed

lemma ResolveGroup_total: "\<exists>ts gs. ResolveGroup c name = Some (ts, gs)"
proof -
  have "card (unvisited c []) < group_fuel c"
    using card_group_names [of c] by (simp add: unvisited_def group_fuel_def)
  then show ?thesis using bake_group_total [of c "[]" "group_fuel c" name] by (auto simp: ResolveGroup_def)
qed

lemma read_name_error: "stuck e \<Longrightarrow> read_name c ovs target st \<noteq> Inl e"
proof -
  assume e: "stuck e"
  have "read_target c ovs tname st \<noteq> Inl e" for tname st
    using ResolveTarget_error [OF e] by (auto simp: read_target_def result_iff)
  then have "rfold (read_target c ovs) ts st \<noteq> Inl e" for ts by (rule rfold_no_error)
  then show ?thesis using ResolveGroup_total [of c target] by (auto simp: read_name_def result_iff)
qed

lemma read_name_known:
  assumes "read_name c ovs target st = Inr st'" "fst ` set (rs_targets st) \<subseteq> target_names c"
  shows "fst ` set (rs_targets st') \<subseteq> target_names c"
proof -
  from assms(1) obtain ts gs st1 where loop: "rfold (read_target c ovs) ts st = Inr st1"
    and st': "st' = st1\<lparr>rs_groups := fold (read_group c) gs (rs_groups st1)\<rparr>"
    by (auto simp: read_name_def result_iff split: option.splits)
  have "fst ` set (rs_targets st1) \<subseteq> target_names c"
  proof (rule rfold_invariant [OF loop, of "\<lambda>s. fst ` set (rs_targets s) \<subseteq> target_names c"])
    show "fst ` set (rs_targets st) \<subseteq> target_names c" by (rule assms(2))
    fix tname s s' assume "fst ` set (rs_targets s) \<subseteq> target_names c" "read_target c ovs tname s = Inr s'"
    moreover from this(2) obtain t where "rs_targets s' = mset_key tname t (rs_targets s)" "tname \<in> target_names c"
      using ResolveTarget_known [of c ovs tname] by (auto simp: read_target_def result_iff)
    ultimately show "fst ` set (rs_targets s') \<subseteq> target_names c" by (simp add: set_mset_key_keys)
  qed
  then show ?thesis by (simp add: st')
qed

lemma read_names_keys: "read_names st = fst ` set (ls_targets st)"
  by (auto simp: read_names_def mget_def map_of_eq_None_iff domIff [symmetric] dom_map_of_conv_image_fst)

text \<open>C33 (ReadTargets_ends): reading the targets of a command ends for every configuration, every list of names and
  every list of overrides: no recursion through groups, parents or links goes on for ever, and no nil
  target is dereferenced.  What is returned is either the targets or one of the errors of the code.\<close>

theorem ReadTargets_ends:
  "ReadTargets env c targets overrides hp ent \<notin> {Inl BkOutOfFuel, Inl BkPanicNilTarget}"
proof -
  have "ReadTargets env c targets overrides hp ent \<noteq> Inl e" if e: "stuck e" for e
  proof
    assume r: "ReadTargets env c targets overrides hp ent = Inl e"
    define ts where "ts = map sanitizeTargetName targets"
    define st0 where "st0 = \<lparr>rs_targets = [], rs_groups = [], rs_heap = hp, rs_ent = ent\<rparr>"
    obtain ovs where ovs: "newOverrides env c overrides = Inr ovs"
      using r newOverrides_error [OF e] by (cases "newOverrides env c overrides") (auto simp: ReadTargets_def Let_def)
    have "rfold (read_name c ovs) ts st0 \<noteq> Inl e" by (rule rfold_no_error) (rule read_name_error [OF e])
    then obtain st where st: "rfold (read_name c ovs) ts st0 = Inr st"
      using r ovs by (cases "rfold (read_name c ovs) ts st0") (auto simp: ReadTargets_def Let_def ts_def st0_def)
    define ls where "ls = \<lparr>ls_targets = rs_targets st, ls_heap = rs_heap st, ls_ent = rs_ent st\<rparr>"
    have bad: "rfold (loadLinks (link_fuel c) c ovs []) (mkeys (rs_targets st)) ls = Inl e"
      using r ovs st by (simp add: ReadTargets_def Let_def ts_def st0_def ls_def result_iff)
    have known: "read_names ls \<subseteq> target_names c"
      using rfold_invariant [OF st, of "\<lambda>st. fst ` set (rs_targets st) \<subseteq> target_names c"] read_name_known
      by (simp add: read_names_keys ls_def st0_def)
    have fuel: "card (target_names c) \<le> link_fuel c"
      by (simp add: link_fuel_def target_names_def card_image_le [THEN order_trans] card_length le_SucI)
    have "safe_links c ls (rfold (loadLinks (link_fuel c) c ovs []) (mkeys (rs_targets st)) ls)"
    proof (rule rfold_safe_links [OF known])
      fix x ls' assume "x \<in> set (mkeys (rs_targets st))" "read_names ls \<subseteq> read_names ls'" "read_names ls' \<subseteq> target_names c"
      then show "safe_links c ls' (loadLinks (link_fuel c) c ovs [] x ls')"
        using fuel by (intro loadLinks_safe) (auto simp: read_names_keys ls_def mkeys_def)
    qed
    then show False using bad e by (simp add: safe_links_def)
  qed
  then show ?thesis by blast
qed

section \<open>What a link brings\<close>

definition entitlements_of :: "Target \<Rightarrow> string set" where
  "entitlements_of t = set (elems (t_Entitlements t))"

definition link_ok :: "Target \<Rightarrow> Target \<Rightarrow> bool" where
  "link_ok t t2 \<longleftrightarrow> entitlements_of t2 \<subseteq> entitlements_of t \<and>
     \<not> (1 < length (elems (t_Platforms t)) \<and> 1 < length (elems (t_Platforms t2)) \<and>
        \<not> isSubset (elems (t_Platforms t)) (elems (t_Platforms t2)))"

definition link_names :: "string list \<Rightarrow> string set" where
  "link_names vs = {x. ''target:'' @ x \<in> set vs}"

definition links :: "Target \<Rightarrow> string set" where
  "links t = link_names (map snd (mrange (t_Contexts t)))"

text \<open>A set of targets whose links stay in the set and are all honoured.\<close>

definition linked_ok :: "Target gomap \<Rightarrow> string set \<Rightarrow> bool" where
  "linked_ok m S \<longleftrightarrow> (\<forall>x \<in> S. \<exists>t. mget m x = Some t \<and>
     (\<forall>y \<in> links t. y \<in> S \<and> (\<exists>t2. mget m y = Some t2 \<and> link_ok t t2)))"

definition grows :: "Target gomap \<Rightarrow> Target gomap \<Rightarrow> bool" where
  "grows m m' \<longleftrightarrow> (\<forall>x t. mget m x = Some t \<longrightarrow> (\<exists>t'. mget m' x = Some t' \<and> t_Contexts t' = t_Contexts t \<and>
     t_Platforms t' = t_Platforms t \<and> entitlements_of t \<subseteq> entitlements_of t'))"

definition keeps :: "string set \<Rightarrow> Target gomap \<Rightarrow> Target gomap \<Rightarrow> bool" where
  "keeps S m m' \<longleftrightarrow> (\<forall>x \<in> S. mget m' x = mget m x)"

lemma inherit_fold_set:
  "set (elems (fold (\<lambda>e es. if e \<in> set (elems es) then es else go_append es [e]) l es)) = set (elems es) \<union> set l"
  by (induction l arbitrary: es) (auto simp: go_append_def)

lemma inherit_fold_id:
  "set l \<subseteq> set (elems es) \<Longrightarrow> fold (\<lambda>e es. if e \<in> set (elems es) then es else go_append es [e]) l es = es"
  by (induction l) auto

lemma inherit_entitlements_simps [simp]:
  "entitlements_of (inherit_entitlements t t2) = entitlements_of t \<union> entitlements_of t2"
  "t_Contexts (inherit_entitlements t t2) = t_Contexts t" "t_Platforms (inherit_entitlements t t2) = t_Platforms t"
  by (simp_all add: entitlements_of_def inherit_entitlements_def inherit_fold_set)

lemma inherit_entitlements_id: "entitlements_of t2 \<subseteq> entitlements_of t \<Longrightarrow> inherit_entitlements t t2 = t"
  by (simp add: inherit_entitlements_def inherit_fold_id entitlements_of_def)

lemma grows_refl [simp]: "grows m m"
  by (simp add: grows_def)

lemma grows_trans: "grows m m1 \<Longrightarrow> grows m1 m2 \<Longrightarrow> grows m m2"
  unfolding grows_def by fastforce

lemma keeps_trans: "keeps S m m1 \<Longrightarrow> keeps S' m1 m2 \<Longrightarrow> S \<subseteq> S' \<Longrightarrow> keeps S m m2"
  unfolding keeps_def by auto

lemma linked_ok_keeps: "linked_ok m S \<Longrightarrow> keeps S m m' \<Longrightarrow> linked_ok m' S"
  unfolding linked_ok_def keeps_def by auto

lemma links_grows: "t_Contexts t' = t_Contexts t \<Longrightarrow> links t' = links t"
  by (simp add: links_def)

lemma link_ok_grows:
  "link_ok t t2 \<Longrightarrow> t_Platforms t' = t_Platforms t \<Longrightarrow> entitlements_of t \<subseteq> entitlements_of t' \<Longrightarrow> link_ok t' t2"
  by (auto simp: link_ok_def)

text \<open>What a run has done: targets only grew, those of a good set are as they were, and there is a larger
  good set with the given name and every target that was added.\<close>

definition extends :: "string set \<Rightarrow> Target gomap \<Rightarrow> string set \<Rightarrow> Target gomap \<Rightarrow> bool" where
  "extends S m S' m' \<longleftrightarrow> S \<subseteq> S' \<and> linked_ok m' S' \<and> grows m m' \<and> keeps S m m' \<and>
     (\<forall>x. mget m' x \<noteq> None \<longrightarrow> mget m x \<noteq> None \<or> x \<in> S')"

lemma extends_refl: "linked_ok m S \<Longrightarrow> extends S m S m"
  by (simp add: extends_def keeps_def)

lemma extends_trans: "extends S m S1 m1 \<Longrightarrow> extends S1 m1 S2 m2 \<Longrightarrow> extends S m S2 m2"
  unfolding extends_def using grows_trans [of m m1 m2] keeps_trans [of S m m1 S1 m2] by blast

lemma link_target_extends:
  assumes "link_target c ovs y st = Inr st1" "linked_ok (ls_targets st) S"
  shows "linked_ok (ls_targets st1) S \<and> grows (ls_targets st) (ls_targets st1) \<and> keeps S (ls_targets st) (ls_targets st1) \<and>
    (\<forall>x. mget (ls_targets st1) x \<noteq> None \<longrightarrow> mget (ls_targets st) x \<noteq> None \<or> x = y)"
proof (cases "mget (ls_targets st) y")
  case (Some t)
  then show ?thesis using assms by (simp add: link_target_def keeps_def)
next
  case None
  then obtain t where st1: "ls_targets st1 = mset_key y t (ls_targets st)"
    using assms(1) by (auto simp: link_target_def result_iff)
  have "y \<notin> S" using None assms(2) by (auto simp: linked_ok_def)
  then have k: "keeps S (ls_targets st) (ls_targets st1)" by (auto simp: keeps_def st1 mget_set)
  have "grows (ls_targets st) (ls_targets st1)" using None by (auto simp: grows_def st1 mget_set)
  then show ?thesis using k linked_ok_keeps [OF assms(2) k] by (simp add: st1 mget_set)
qed

definition honoured :: "Target gomap \<Rightarrow> string set \<Rightarrow> string \<Rightarrow> string \<Rightarrow> bool" where
  "honoured m S name y \<longleftrightarrow> y \<in> S \<and> (\<exists>t t2. mget m name = Some t \<and> mget m y = Some t2 \<and> link_ok t t2)"

lemma honoured_extends:
  assumes "honoured m S name y" "extends S m S' m'"
  shows "honoured m' S' name y"
proof -
  from assms(1) obtain t t2 where t: "mget m name = Some t" "mget m y = Some t2" "link_ok t t2" "y \<in> S"
    by (auto simp: honoured_def)
  obtain t' where t': "mget m' name = Some t'" "t_Platforms t' = t_Platforms t" "entitlements_of t \<subseteq> entitlements_of t'"
    using assms(2) t(1) unfolding extends_def grows_def by metis
  have "mget m' y = Some t2" using assms(2) t by (simp add: extends_def keeps_def)
  then show ?thesis using t t' link_ok_grows [OF t(3) t'(2,3)] assms(2) by (auto simp: honoured_def extends_def)
qed

lemma linked_ok_link:
  "linked_ok m S \<Longrightarrow> x \<in> S \<Longrightarrow> mget m x = Some t \<Longrightarrow> y \<in> links t \<Longrightarrow> \<exists>t2. mget m y = Some t2 \<and> link_ok t t2"
  by (auto simp: linked_ok_def)

text \<open>Storing the inherited entitlements of a link.\<close>

lemma store_inherited:
  assumes "linked_ok m S" "y \<in> S" "y \<noteq> name" "mget m name = Some t" "mget m y = Some t2" "y \<in> links t"
    and ok: "\<not> (1 < length (elems (t_Platforms t)) \<and> 1 < length (elems (t_Platforms t2)) \<and>
                \<not> isSubset (elems (t_Platforms t)) (elems (t_Platforms t2)))"
  shows "extends S m S (mset_key name (inherit_entitlements t t2) m) \<and>
    honoured (mset_key name (inherit_entitlements t t2) m) S name y"
proof -
  define m' where "m' = mset_key name (inherit_entitlements t t2) m"
  have "name \<in> S \<Longrightarrow> inherit_entitlements t t2 = t"
    using linked_ok_link [OF assms(1) _ assms(4,6)] assms(5) by (intro inherit_entitlements_id) (auto simp: link_ok_def)
  then have k: "keeps S m m'" using assms(4) by (auto simp: keeps_def m'_def mget_set)
  have "grows m m'" using assms(4) by (auto simp: grows_def m'_def mget_set)
  then have "extends S m S m'"
    using k linked_ok_keeps [OF assms(1) k] assms(4) by (auto simp: extends_def m'_def mget_set)
  moreover have "link_ok (inherit_entitlements t t2) t2" using ok by (auto simp: link_ok_def)
  ultimately show ?thesis using assms(2,3,5) unfolding m'_def by (simp add: honoured_def mget_set)
qed

lemma link_step_extends:
  assumes step: "link_step call c ovs name visited v st = Inr st'" and ok: "linked_ok (ls_targets st) S"
    and name: "mget (ls_targets st) name = Some t" and v: "v \<in> set (map snd (mrange (t_Contexts t)))"
    and call: "\<And>y st1 st2. call y st1 = Inr st2 \<Longrightarrow> linked_ok (ls_targets st1) S \<Longrightarrow>
       \<exists>S'. extends S (ls_targets st1) S' (ls_targets st2) \<and> y \<in> S'"
  shows "\<exists>S'. extends S (ls_targets st) S' (ls_targets st') \<and> (\<forall>y \<in> link_names [v]. honoured (ls_targets st') S' name y)"
proof (cases "has_prefix ''target:'' v")
  case False
  then have "st' = st" "link_names [v] = {}" using step by (auto simp: link_step_def link_names_def has_prefix_iff)
  then show ?thesis using extends_refl [OF ok] by blast
next
  case True
  then obtain y where vy: "v = ''target:'' @ y" by (auto simp: has_prefix_iff)
  then have tp: "trim_prefix ''target:'' v = y" by (simp add: trim_prefix_def)
  have hp: "has_prefix ''target:'' v" by (rule True)
  from step obtain st1 st2 t1 t2 where st1: "link_target c ovs y st = Inr st1" and st2: "call y st1 = Inr st2"
    and neq: "y \<noteq> name" and t1: "mget (ls_targets st2) name = Some t1" and t2: "mget (ls_targets st2) y = Some t2"
    and plat: "\<not> (1 < length (elems (t_Platforms t1)) \<and> 1 < length (elems (t_Platforms t2)) \<and>
                \<not> isSubset (elems (t_Platforms t1)) (elems (t_Platforms t2)))"
    and st': "ls_targets st' = mset_key name (inherit_entitlements t1 t2) (ls_targets st2)"
  proof -
    from step obtain st1 st2 where "link_target c ovs y st = Inr st1" "call y st1 = Inr st2" "y \<noteq> name"
      and "link_store name y st2 = Inr st'"
      by (auto simp: link_step_def hp tp Let_def result_iff split: if_splits)
    moreover from this(4) obtain t1 t2 where "mget (ls_targets st2) name = Some t1" "mget (ls_targets st2) y = Some t2"
      by (auto simp: link_store_def split: option.splits)
    ultimately show ?thesis using that [of st1 st2 t1 t2] by (auto simp: link_store_def Let_def split: if_splits)
  qed
  note e1 = link_target_extends [OF st1 ok]
  obtain S1 where e2: "extends S (ls_targets st1) S1 (ls_targets st2)" and y: "y \<in> S1" using call [OF st2] e1 by blast
  have "grows (ls_targets st) (ls_targets st2)" using e1 e2 grows_trans by (auto simp: extends_def)
  then have "t_Contexts t1 = t_Contexts t" using name t1 unfolding grows_def by (metis option.inject)
  then have "y \<in> links t1" using v vy by (simp add: links_def link_names_def)
  then have e3: "extends S1 (ls_targets st2) S1 (ls_targets st')" and h: "honoured (ls_targets st') S1 name y"
    using store_inherited [OF _ y neq t1 t2 _ plat] e2 unfolding st' by (auto simp: extends_def)
  have "extends S (ls_targets st) S1 (ls_targets st2)"
    using e1 e2 y \<open>grows (ls_targets st) (ls_targets st2)\<close> keeps_trans [of S "ls_targets st" "ls_targets st1" S "ls_targets st2"]
    unfolding extends_def by blast
  then show ?thesis using extends_trans [OF _ e3] h by (auto simp: link_names_def vy)
qed

lemma link_loop_extends:
  assumes "rfold (\<lambda>(_, v). link_step call c ovs name visited v) cs st = Inr st'" "linked_ok (ls_targets st) S"
    and "mget (ls_targets st) name = Some t" "set cs \<subseteq> set (mrange (t_Contexts t))"
    and call: "\<And>y S st1 st2. call y st1 = Inr st2 \<Longrightarrow> linked_ok (ls_targets st1) S \<Longrightarrow>
       \<exists>S'. extends S (ls_targets st1) S' (ls_targets st2) \<and> y \<in> S'"
  shows "\<exists>S'. extends S (ls_targets st) S' (ls_targets st') \<and>
    (\<forall>y \<in> link_names (map snd cs). honoured (ls_targets st') S' name y)"
  using assms(1-4)
proof (induction cs arbitrary: st S t)
  case Nil
  then show ?case using extends_refl by (fastforce simp: link_names_def)
next
  case (Cons kv cs)
  obtain k v where kv: "kv = (k, v)" by (cases kv)
  from Cons.prems(1) obtain st1 where step: "link_step call c ovs name visited v st = Inr st1"
    and rest: "rfold (\<lambda>(_, v). link_step call c ovs name visited v) cs st1 = Inr st'"
    by (auto simp: kv result_iff)
  have v: "v \<in> set (map snd (mrange (t_Contexts t)))" using Cons.prems(4) kv by force
  obtain S1 where e1: "extends S (ls_targets st) S1 (ls_targets st1)" and h1: "\<forall>y \<in> link_names [v]. honoured (ls_targets st1) S1 name y"
    using link_step_extends [OF step Cons.prems(2,3) v call] by blast
  obtain t1 where t1: "mget (ls_targets st1) name = Some t1" "t_Contexts t1 = t_Contexts t"
    using e1 Cons.prems(3) unfolding extends_def grows_def by metis
  have ok1: "linked_ok (ls_targets st1) S1" using e1 by (simp add: extends_def)
  obtain S2 where e2: "extends S1 (ls_targets st1) S2 (ls_targets st')"
    and h2: "\<forall>y \<in> link_names (map snd cs). honoured (ls_targets st') S2 name y"
    using Cons.IH [OF rest ok1 t1(1)] Cons.prems(4) t1(2) by auto
  have "honoured (ls_targets st') S2 name y" if "y \<in> link_names (map snd (kv # cs))" for y
  proof (cases "y \<in> link_names [v]")
    case True
    then show ?thesis using h1 honoured_extends [OF _ e2] by blast
  next
    case False
    then show ?thesis using that h2 kv by (auto simp: link_names_def)
  qed
  then show ?case using extends_trans [OF e1 e2] by blast
qed

lemma loadLinks_extends:
  "loadLinks n c ovs visited name st = Inr st' \<Longrightarrow> linked_ok (ls_targets st) S \<Longrightarrow>
   \<exists>S'. extends S (ls_targets st) S' (ls_targets st') \<and> name \<in> S'"
proof (induction n arbitrary: visited name st st' S)
  case (Suc n)
  from Suc.prems(1) obtain t where t: "mget (ls_targets st) name = Some t"
    and loop: "rfold (\<lambda>(_, v). link_step (loadLinks n c ovs (visited @ [name])) c ovs name (visited @ [name]) v)
       (mrange (t_Contexts t)) st = Inr st'"
    by (auto split: option.splits)
  obtain S1 where e: "extends S (ls_targets st) S1 (ls_targets st')"
    and h: "\<forall>y \<in> links t. honoured (ls_targets st') S1 name y"
    using link_loop_extends [OF loop Suc.prems(2) t order_refl] Suc.IH unfolding links_def by blast
  obtain t' where t': "mget (ls_targets st') name = Some t'" "t_Contexts t' = t_Contexts t"
    using e t unfolding extends_def grows_def by metis
  have "linked_ok (ls_targets st') (insert name S1)"
    using h t' e links_grows [OF t'(2)] unfolding linked_ok_def honoured_def extends_def by fastforce
  then have "extends S (ls_targets st) (insert name S1) (ls_targets st')" using e by (auto simp: extends_def)
  then show ?case by blast
qed simp

lemma loadLinks_all_extends:
  assumes "rfold (loadLinks n c ovs []) names st = Inr st'" "linked_ok (ls_targets st) S"
  shows "\<exists>S'. extends S (ls_targets st) S' (ls_targets st') \<and> set names \<subseteq> S'"
  using assms
proof (induction names arbitrary: st S)
  case Nil
  then show ?case using extends_refl by fastforce
next
  case (Cons name names)
  from Cons.prems(1) obtain st1 where 1: "loadLinks n c ovs [] name st = Inr st1"
    and rest: "rfold (loadLinks n c ovs []) names st1 = Inr st'" by (auto simp: result_iff)
  obtain S1 where e1: "extends S (ls_targets st) S1 (ls_targets st1)" "name \<in> S1"
    using loadLinks_extends [OF 1 Cons.prems(2)] by blast
  then obtain S2 where e2: "extends S1 (ls_targets st1) S2 (ls_targets st')" "set names \<subseteq> S2"
    using Cons.IH [OF rest, of S1] unfolding extends_def by blast
  have "name \<in> S2" using e1(2) e2(1) by (auto simp: extends_def)
  then show ?case using extends_trans [OF e1(1) e2(1)] e2(2) by auto
qed

text \<open>C29 (ReadTargets_links): when targets are read, every named context \<open>target:x\<close> of a target that is read refers
  to a target that is read too.  The entitlements of the linked target are all entitlements of the target
  that links to it, so a build cannot drop an entitlement by going through a link, and if both are built
  for several platforms those of the target are among those of the linked one.\<close>

theorem ReadTargets_links:
  assumes "ReadTargets env c targets overrides hp ent = Inr (m, groups, hp', ent')"
    and "mget m name = Some t" and "(ctx, ''target:'' @ x) \<in> set (mrange (t_Contexts t))"
  shows "\<exists>t2. mget m x = Some t2 \<and> set (elems (t_Entitlements t2)) \<subseteq> set (elems (t_Entitlements t)) \<and>
    (1 < length (elems (t_Platforms t)) \<and> 1 < length (elems (t_Platforms t2)) \<longrightarrow>
       set (elems (t_Platforms t)) \<subseteq> set (elems (t_Platforms t2)))"
proof -
  from assms(1) obtain ovs ls and st :: read_state where
    loop: "rfold (loadLinks (link_fuel c) c ovs []) (mkeys (rs_targets st))
       \<lparr>ls_targets = rs_targets st, ls_heap = rs_heap st, ls_ent = rs_ent st\<rparr> = Inr ls" and m: "m = ls_targets ls"
    by (auto simp: ReadTargets_def Let_def result_iff)
  have "linked_ok (rs_targets st) {}" by (simp add: linked_ok_def)
  then obtain S where e: "extends {} (rs_targets st) S m" and all: "set (mkeys (rs_targets st)) \<subseteq> S"
    using loadLinks_all_extends [OF loop, of "{}"] m by auto
  have "name \<in> S"
    using e all assms(2) mget_None_iff [of "rs_targets st" name] unfolding extends_def by auto
  moreover have "x \<in> links t" using assms(3) by (force simp: links_def link_names_def)
  ultimately obtain t2 where "mget m x = Some t2" "link_ok t t2"
    using linked_ok_link [of m S name t x] e assms(2) by (auto simp: extends_def)
  then show ?thesis by (auto simp: link_ok_def entitlements_of_def isSubset_def list_all_iff)
qed

definition link_example :: Config where
  "link_example = \<lparr>c_Groups = [], c_Targets =
     [defaultTarget\<lparr>t_Name := ''base'', t_Entitlements := Some [''network.host'']\<rparr>,
      defaultTarget\<lparr>t_Name := ''app'', t_Contexts := Some [(''b'', ''target:base'')]\<rparr>]\<rparr>"

theorem ReadTargets_links_witness:
  "\<exists>m groups t t2. ReadTargets (\<lambda>_. None) link_example [''app''] [] [] no_entitlements = Inr (m, groups,
       [\<lparr>ee_Type = ''cacheonly'', ee_Attrs = None, ee_Destination = []\<rparr>], no_entitlements) \<and>
     mget m ''app'' = Some t \<and> mget m ''base'' = Some t2 \<and> t_Entitlements t2 = Some [''network.host''] \<and>
     set (elems (t_Entitlements t2)) \<subseteq> set (elems (t_Entitlements t))"
proof -
  have run: "map_sum (\<lambda>x. x) (\<lambda>(m, g, hp, ent). (map_option t_Contexts (mget m ''app''), map_option t_Entitlements (mget m ''base''), hp, ent))
      (ReadTargets (\<lambda>_. None) link_example [''app''] [] [] no_entitlements) =
    Inr (Some (Some [(''b'', ''target:base'')]), Some (Some [''network.host'']),
      [\<lparr>ee_Type = ''cacheonly'', ee_Attrs = None, ee_Destination = []\<rparr>], no_entitlements)"
    by code_simp
  then obtain m g t t2 where r: "ReadTargets (\<lambda>_. None) link_example [''app''] [] [] no_entitlements = Inr (m, g,
       [\<lparr>ee_Type = ''cacheonly'', ee_Attrs = None, ee_Destination = []\<rparr>], no_entitlements)"
    and t: "mget m ''app'' = Some t" "t_Contexts t = Some [(''b'', ''target:base'')]"
    and t2: "mget m ''base'' = Some t2" "t_Entitlements t2 = Some [''network.host'']"
    by (cases "ReadTargets (\<lambda>_. None) link_example [''app''] [] [] no_entitlements") auto
  have "(''b'', ''target:'' @ ''base'') \<in> set (mrange (t_Contexts t))" using t(2) by simp
  from ReadTargets_links [OF r t(1) this] t2 r t show ?thesis by auto
qed

end
