(* ===== verification/BakeOverrides.thy ===== *)
theory BakeOverrides
  imports BakeInherit "HOL-Library.Multiset"
begin

text \<open>
  Overrides of bake targets (\<open>bake/bake.go\<close>, \<open>setPushOverride\<close>, \<open>newOverrides\<close> and \<open>AddOverrides\<close>): exactly what the push
  override does to the outputs and to the entries they point to, and which settings of the command line
  reach the target.
\<close>

section \<open>Pushing\<close>

definition with_push :: "string \<Rightarrow> ExportEntry \<Rightarrow> ExportEntry" where
  "with_push val e = e\<lparr>ee_Attrs := Some (mset_key ''push'' val (mrange (ee_Attrs e)))\<rparr>"

text \<open>The heap in which the image entries of a list of outputs carry the push attribute.\<close>

definition marked :: "string \<Rightarrow> nat list \<Rightarrow> heap \<Rightarrow> heap" where
  "marked val rs hp = map (\<lambda>r. if r \<in> set rs \<and> ee_Type (hp ! r) = ''image'' then with_push val (hp ! r) else hp ! r) [0..<length hp]"

definition outputs_ok :: "heap \<Rightarrow> nat list \<Rightarrow> bool" where
  "outputs_ok hp rs \<longleftrightarrow> list_all (\<lambda>r. r < length hp \<and> (ee_Type (hp ! r) = ''image'' \<longrightarrow>
     (\<exists>m. ee_Attrs (hp ! r) = Some m \<and> wf_map m))) rs"

lemma with_push_Type [simp]: "ee_Type (with_push val e) = ee_Type e"
  by (simp add: with_push_def)

lemma with_push_idem: "\<exists>m. ee_Attrs e = Some m \<and> wf_map m \<Longrightarrow> with_push val (with_push val e) = with_push val e"
  by (auto simp: with_push_def mset_key_overwrite)

lemma marked_length [simp]: "length (marked val rs hp) = length hp"
  by (simp add: marked_def)

lemma marked_nth:
  "r < length hp \<Longrightarrow> marked val rs hp ! r = (if r \<in> set rs \<and> ee_Type (hp ! r) = ''image'' then with_push val (hp ! r) else hp ! r)"
  by (simp add: marked_def)

lemma marked_Nil [simp]: "marked val [] hp = hp"
  by (simp add: marked_def map_nth)

lemma marked_skip: "r < length hp \<Longrightarrow> ee_Type (hp ! r) \<noteq> ''image'' \<Longrightarrow> marked val (r # rs) hp = marked val rs hp"
  by (rule nth_equalityI) (auto simp: marked_nth)

lemma marked_set: "set rs = set rs' \<Longrightarrow> marked val rs hp = marked val rs' hp"
  by (simp add: marked_def)

lemma set_push_eq:
  "r < length hp \<Longrightarrow> ee_Attrs (hp ! r) = Some m \<Longrightarrow> set_push val r hp = Inr (hp[r := with_push val (hp ! r)])"
  by (simp add: set_push_def with_push_def)

lemma marked_step:
  assumes "outputs_ok hp (r # rs)" "ee_Type (hp ! r) = ''image''"
  shows "marked val rs (hp[r := with_push val (hp ! r)]) = marked val (r # rs) hp"
    and "outputs_ok (hp[r := with_push val (hp ! r)]) rs"
proof -
  have r: "r < length hp" and m: "\<exists>m. ee_Attrs (hp ! r) = Some m \<and> wf_map m"
    using assms by (auto simp: outputs_ok_def)
  show "marked val rs (hp[r := with_push val (hp ! r)]) = marked val (r # rs) hp"
    using assms(2) r with_push_idem [OF m, of val]
    by (intro nth_equalityI) (auto simp: marked_nth nth_list_update)
  show "outputs_ok (hp[r := with_push val (hp ! r)]) rs"
    using assms m by (auto simp: outputs_ok_def list_all_iff nth_list_update with_push_def)
qed

lemma enable_push_marked: "outputs_ok hp rs \<Longrightarrow> enable_push rs hp = Inr (marked ''true'' rs hp)"
proof (induction rs arbitrary: hp)
  case Nil
  then show ?case by (simp add: enable_push_def)
next
  case (Cons r rs)
  have r: "r < length hp" using Cons.prems by (simp add: outputs_ok_def)
  show ?case
  proof (cases "ee_Type (hp ! r) = ''image''")
    case True
    obtain m where "ee_Attrs (hp ! r) = Some m" using Cons.prems True by (auto simp: outputs_ok_def)
    from set_push_eq [OF r this] show ?thesis
      using True Cons.IH [OF marked_step(2) [OF Cons.prems True]] marked_step(1) [OF Cons.prems True, of "''true''"]
      by (simp add: enable_push_def)
  next
    case False
    then show ?thesis using Cons r marked_skip [OF r False] by (simp add: enable_push_def outputs_ok_def)
  qed
qed

lemma mset_rotate: "rs \<noteq> [] \<Longrightarrow> mset (last rs # butlast rs) = mset rs"
  by (cases rs rule: rev_cases) simp_all

lemma outputs_ok_mset: "mset rs = mset rs' \<Longrightarrow> outputs_ok hp rs \<Longrightarrow> outputs_ok hp rs'"
  using mset_eq_setD [of rs rs'] by (simp add: outputs_ok_def list_all_iff)

lemma update_Type: "r < length hp \<Longrightarrow> ee_Type (hp[r := with_push val (hp ! r)] ! i) = ee_Type (hp ! i)"
  by (cases "i = r") simp_all

lemma disable_push_marked:
  "outputs_ok hp rs \<Longrightarrow> \<exists>rs'. disable_push hp rs = Inr (marked ''false'' rs hp, rs') \<and>
     mset rs' = mset (filter (\<lambda>r. ee_Type (hp ! r) \<noteq> ''registry'') rs)"
proof (induction hp rs rule: disable_push.induct)
  case (1 hp)
  then show ?case by simp
next
  case (2 hp r rs)
  have r: "r < length hp" and rs: "outputs_ok hp rs" using 2(3) by (simp_all add: outputs_ok_def)
  show ?case
  proof (cases "ee_Type (hp ! r) = ''registry''")
    case True
    define l where "l = (if rs = [] then [] else last rs # butlast rs)"
    have l: "mset l = mset rs" using mset_rotate [of rs] by (simp add: l_def)
    then obtain rs' where "disable_push hp l = Inr (marked ''false'' l hp, rs')"
      and "mset rs' = mset (filter (\<lambda>r. ee_Type (hp ! r) \<noteq> ''registry'') l)"
      using 2(1) [OF True] outputs_ok_mset [OF l [symmetric] rs] unfolding l_def by blast
    moreover have "marked ''false'' (r # rs) hp = marked ''false'' l hp"
      using marked_skip [OF r] True marked_set [OF mset_eq_setD [OF l]] by simp
    ultimately show ?thesis using True l by (simp add: l_def mset_filter)
  next
    case False
    note noreg = this
    show ?thesis
    proof (cases "ee_Type (hp ! r) = ''image''")
      case True
      define hp1 where "hp1 = hp[r := with_push ''false'' (hp ! r)]"
      obtain m where "ee_Attrs (hp ! r) = Some m" using 2(3) True by (auto simp: outputs_ok_def)
      then have sp: "set_push ''false'' r hp = Inr hp1" using set_push_eq [OF r] by (simp add: hp1_def)
      then obtain rs' where "disable_push hp1 rs = Inr (marked ''false'' rs hp1, rs')"
        and "mset rs' = mset (filter (\<lambda>r. ee_Type (hp1 ! r) \<noteq> ''registry'') rs)"
        using 2(2) [OF noreg, of hp1] True marked_step(2) [OF 2(3) True] by (auto simp: hp1_def)
      then show ?thesis
        using True noreg sp marked_step(1) [OF 2(3) True, of "''false''"] update_Type [OF r] by (simp add: hp1_def)
    next
      case False
      then obtain rs' where "disable_push hp rs = Inr (marked ''false'' rs hp, rs')"
        and "mset rs' = mset (filter (\<lambda>r. ee_Type (hp ! r) \<noteq> ''registry'') rs)"
        using 2(2) [OF noreg, of hp] rs by auto
      then show ?thesis using False noreg marked_skip [OF r False] by simp
    qed
  qed
qed

text \<open>Disabling push on outputs whose image entries have attributes keeps, up to
  order, exactly the outputs that are not of type registry.  It sets \<open>push=false\<close> on every image entry that
  one of the outputs points to, also for other targets that point to the same entry, and changes no
  other entry.\<close>

theorem setPushOverride_disables:
  assumes "outputs_ok hp rs"
  shows "\<exists>rs'. setPushOverride hp (Some rs) False = Inr (marked ''false'' rs hp, Some rs') \<and>
    mset rs' = mset (filter (\<lambda>r. ee_Type (hp ! r) \<noteq> ''registry'') rs)"
  using disable_push_marked [OF assms] by (auto simp: setPushOverride_def)

definition push_example :: heap where
  "push_example = [\<lparr>ee_Type = ''image'', ee_Attrs = Some [(''name'', ''x'')], ee_Destination = []\<rparr>,
     \<lparr>ee_Type = ''registry'', ee_Attrs = Some [], ee_Destination = []\<rparr>, \<lparr>ee_Type = ''docker'', ee_Attrs = None, ee_Destination = []\<rparr>]"

lemma push_example_ok: "outputs_ok push_example [1, 0, 2]" "outputs_ok push_example [0]"
  by (simp_all add: outputs_ok_def push_example_def wf_map_def)

lemma push_example_types:
  "map (\<lambda>r. ee_Type (push_example ! r)) [0, 1, 2] = [''image'', ''registry'', ''docker'']"
  by (simp add: push_example_def)

theorem setPushOverride_disables_witness:
  "\<exists>rs'. setPushOverride push_example (Some [1, 0, 2]) False = Inr (marked ''false'' [1, 0, 2] push_example, Some rs') \<and>
     mset rs' = {#0, 2#}"
  using setPushOverride_disables [OF push_example_ok(1)] push_example_types by simp

text \<open>Enabling push sets \<open>push=true\<close> on every image entry of the outputs and changes no
  other entry; the outputs stay as they are, except that a pushing image output is added when all of them
  are of type docker (or there are none).\<close>

theorem setPushOverride_enables:
  assumes "outputs_ok hp (elems outputs)"
  shows "setPushOverride hp outputs True =
    (if list_all (\<lambda>r. ee_Type (hp ! r) = ''docker'') (elems outputs)
     then Inr (marked ''true'' (elems outputs) hp @ [\<lparr>ee_Type = ''image'', ee_Attrs = Some [(''push'', ''true'')], ee_Destination = []\<rparr>],
               Some (elems outputs @ [length hp]))
     else Inr (marked ''true'' (elems outputs) hp, outputs))"
  using enable_push_marked [OF assms] by (simp add: setPushOverride_def)

theorem setPushOverride_enables_witness:
  "setPushOverride push_example (Some [0]) True = Inr (marked ''true'' [0] push_example, Some [0])"
  using setPushOverride_enables [of push_example "Some [0]"] push_example_ok(2) push_example_types by simp

section \<open>From the command line to the target\<close>

text \<open>The override \<open>name.key=val\<close> for a target of the configuration.\<close>

definition override_text :: "string \<Rightarrow> string \<Rightarrow> string \<Rightarrow> string" where
  "override_text name key val = name @ ''.'' @ key @ ''='' @ val"

definition plain_word :: "string \<Rightarrow> bool" where
  "plain_word s \<longleftrightarrow> CHR ''.'' \<notin> set s \<and> CHR ''='' \<notin> set s"

lemma override_cut:
  assumes "plain_word name" "plain_word key"
  shows "cut equals (override_text name key val) = Some (name @ ''.'' @ key, val)"
proof -
  have "equals \<notin> set (name @ ''.'' @ key)" using assms by (simp add: plain_word_def)
  from cut_append [OF this, of val] show ?thesis by (simp add: override_text_def)
qed

lemma splitn_key:
  assumes "plain_word name" "plain_word key"
  shows "splitn 3 (CHR ''.'') (name @ ''.'' @ key) = [name, key]" "splitn 2 (CHR ''.'') (name @ ''.'' @ key) = [name, key]"
proof -
  have "cut (CHR ''.'') (name @ CHR ''.'' # key) = Some (name, key)" "cut (CHR ''.'') key = None"
    using assms by (simp_all add: cut_append cut_none_iff plain_word_def)
  then show "splitn 3 (CHR ''.'') (name @ ''.'' @ key) = [name, key]" "splitn 2 (CHR ''.'') (name @ ''.'' @ key) = [name, key]"
    by (simp_all add: numeral_3_eq_3 numeral_2_eq_2)
qed

lemma newOverrides_single:
  assumes "plain_word name" "plain_word key" "find_target c name \<noteq> None" "key \<noteq> ''args''" "key \<noteq> ''contexts''"
  shows "newOverrides env c [override_text name key val] =
    Inr [(name, [(key, if key \<in> set arr_keys then \<lparr>ov_Value = [], ov_ArrValue = Some [val]\<rparr> else \<lparr>ov_Value = val, ov_ArrValue = None\<rparr>)])]"
proof -
  have "expandTargets c name = Inr [name]"
    using assms(3) find_target_names [of c name] by (simp add: expandTargets_def target_names_def)
  moreover have "update_override env (name @ ''.'' @ key) [name, key] (Some val) no_override =
      Inr (Some (if key \<in> set arr_keys then \<lparr>ov_Value = [], ov_ArrValue = Some [val]\<rparr> else \<lparr>ov_Value = val, ov_ArrValue = None\<rparr>))"
    using assms(4,5) by (simp add: update_override_def no_override_def)
  ultimately show ?thesis
    using override_cut [OF assms(1,2), of val] splitn_key [OF assms(1,2)]
    by (simp add: newOverrides_def override_arg_def override_target_def mget_or_def)
qed

lemma AddOverrides_single: "AddOverrides (mget_or [] [(name, [(key, ov)])] name) st = add_override (key, ov) st"
  by (cases "add_override (key, ov) st") (simp_all add: AddOverrides_def mget_or_def mget_def)

definition set_value :: "string \<Rightarrow> string \<Rightarrow> Target \<Rightarrow> Target" where
  "set_value key val t =
     (if key = ''context'' then t\<lparr>t_Context := Some val\<rparr>
      else if key = ''dockerfile'' then t\<lparr>t_Dockerfile := Some val\<rparr>
      else if key = ''target'' then t\<lparr>t_Target := Some val\<rparr>
      else if key = ''call'' then t\<lparr>t_Call := Some val\<rparr>
      else t\<lparr>t_ShmSize := Some val\<rparr>)"

lemma value_keys_plain: "key \<in> {''context'', ''dockerfile'', ''target'', ''call'', ''shm-size''} \<Longrightarrow>
    plain_word key \<and> key \<noteq> ''args'' \<and> key \<noteq> ''contexts'' \<and> key \<notin> set arr_keys \<and> cut (CHR ''.'') key = None"
  by (auto simp: plain_word_def arr_keys_def)

text \<open>An override \<open>name.key=val\<close> of the command line for one of the settings that are
  plain values is stored in the target as given, and nothing else of the target, of the outputs or of the
  entitlements changes.\<close>

theorem override_value_reaches:
  assumes "find_target c name \<noteq> None" "plain_word name" "key \<in> {''context'', ''dockerfile'', ''target'', ''call'', ''shm-size''}"
  shows "rbind (newOverrides env c [override_text name key val]) (\<lambda>ovs. AddOverrides (mget_or [] ovs name) st) =
    Inr (st\<lparr>bs_target := set_value key val (bs_target st)\<rparr>)"
proof -
  note k = value_keys_plain [OF assms(3)]
  have "add_override (key, \<lparr>ov_Value = val, ov_ArrValue = None\<rparr>) st = Inr (st\<lparr>bs_target := set_value key val (bs_target st)\<rparr>)"
    using assms(3) by (elim insertE) (simp_all add: add_override_def Let_def set_target_def set_value_def)
  then show ?thesis using newOverrides_single [OF assms(2) _ assms(1)] k by (simp add: AddOverrides_single)
qed

theorem override_value_reaches_witness:
  "rbind (newOverrides (\<lambda>_. None) inherit_example [override_text ''app'' ''dockerfile'' ''a.b=c'']) (\<lambda>ovs.
      AddOverrides (mget_or [] ovs ''app'') \<lparr>bs_heap = [], bs_target = defaultTarget, bs_ent = no_entitlements\<rparr>) =
    Inr \<lparr>bs_heap = [], bs_target = defaultTarget\<lparr>t_Dockerfile := Some ''a.b=c''\<rparr>, bs_ent = no_entitlements\<rparr>"
proof -
  have "find_target inherit_example ''app'' \<noteq> None" "plain_word ''app''" by code_simp+
  from override_value_reaches [OF this, of "''dockerfile''"] show ?thesis by (simp add: set_value_def)
qed

text \<open>The value of an override \<open>name.network=val\<close> is lost: it is collected as an element
  of a list, and the target is given the empty network mode, whatever the value was.\<close>

theorem override_network_lost:
  assumes "find_target c name \<noteq> None" "plain_word name"
  shows "rbind (newOverrides env c [override_text name ''network'' val]) (\<lambda>ovs. AddOverrides (mget_or [] ovs name) st) =
    Inr (st\<lparr>bs_target := (bs_target st)\<lparr>t_NetworkMode := Some []\<rparr>\<rparr>)"
proof -
  have "plain_word ''network''" "''network'' \<in> set arr_keys" by (simp_all add: plain_word_def arr_keys_def)
  moreover have "add_override (''network'', \<lparr>ov_Value = [], ov_ArrValue = Some [val]\<rparr>) st =
      Inr (st\<lparr>bs_target := (bs_target st)\<lparr>t_NetworkMode := Some []\<rparr>\<rparr>)"
    by (simp add: add_override_def Let_def set_target_def)
  ultimately show ?thesis using newOverrides_single [OF assms(2) _ assms(1)] by (simp add: AddOverrides_single)
qed

theorem override_network_lost_witness:
  "rbind (newOverrides (\<lambda>_. None) inherit_example [override_text ''app'' ''network'' ''host'']) (\<lambda>ovs.
      AddOverrides (mget_or [] ovs ''app'') \<lparr>bs_heap = [], bs_target = defaultTarget, bs_ent = no_entitlements\<rparr>) =
    Inr \<lparr>bs_heap = [], bs_target = defaultTarget\<lparr>t_NetworkMode := Some []\<rparr>, bs_ent = no_entitlements\<rparr>"
proof -
  have "find_target inherit_example ''app'' \<noteq> None" "plain_word ''app''" by code_simp+
  from override_network_lost [OF this] show ?thesis by simp
qed

text \<open>The settings that are read as lists but collected as values: the override resets them or does nothing.\<close>

lemma override_list_lost:
  assumes "find_target c name \<noteq> None" "plain_word name"
  shows "rbind (newOverrides env c [override_text name ''ulimits'' val]) (\<lambda>ovs. AddOverrides (mget_or [] ovs name) st) =
      Inr (st\<lparr>bs_target := (bs_target st)\<lparr>t_Ulimits := None\<rparr>\<rparr>)"
    and "rbind (newOverrides env c [override_text name ''no-cache-filter'' val]) (\<lambda>ovs. AddOverrides (mget_or [] ovs name) st) =
      Inr (st\<lparr>bs_target := (bs_target st)\<lparr>t_NoCacheFilter := None\<rparr>\<rparr>)"
    and "rbind (newOverrides env c [override_text name ''annotations'' val]) (\<lambda>ovs. AddOverrides (mget_or [] ovs name) st) = Inr st"
  using newOverrides_single [OF assms(2) _ assms(1), of _ env val]
  by (simp_all add: AddOverrides_single plain_word_def arr_keys_def add_override_def Let_def set_target_def go_append_def)

section \<open>Shared outputs\<close>

text \<open>Two targets that inherit an image output from a third one share its entry: after the first is resolved
  with \<open>push=false\<close>, the entry of the second, for which there is no override, has it too.\<close>

definition shared_example :: Config where
  "shared_example = \<lparr>c_Groups = [], c_Targets =
     [defaultTarget\<lparr>t_Name := ''base'', t_Outputs := Some [0]\<rparr>,
      defaultTarget\<lparr>t_Name := ''a'', t_Inherits := [''base'']\<rparr>, defaultTarget\<lparr>t_Name := ''b'', t_Inherits := [''base'']\<rparr>]\<rparr>"

lemma push_override_leaks:
  "rbind (newOverrides (\<lambda>_. None) shared_example [''a.push=false'']) (\<lambda>ovs.
   rbind (ResolveTarget shared_example ovs ''a'' [\<lparr>ee_Type = ''image'', ee_Attrs = Some [], ee_Destination = []\<rparr>] no_entitlements) (\<lambda>(_, hp, ent).
   rbind (ResolveTarget shared_example ovs ''b'' hp ent) (\<lambda>(t, hp, _).
     Inr (map (\<lambda>r. ee_Attrs (hp ! r)) (elems (t_Outputs t)))))) = Inr [Some [(''push'', ''false'')]]"
  by code_simp

end
