(* ===== verification/BuildOptions.thy ===== *)
theory BuildOptions
  imports BakeTarget GoPath
begin

text \<open>
  The options of one build as the packages \<open>bake\<close> and \<open>controller/build\<close> hand them to the package \<open>build\<close>
  (\<open>build/build.go\<close>, \<open>build/utils.go\<close>).  Values that only the BuildKit client looks into are kept as what they were made
  from: a state of the build graph as the path it copies, the writer of an export as the place it writes to, an
  attachment of the session as the options it serves.
\<close>

section \<open>Inputs\<close>

text \<open>A state copies a path of the remote input (its contents only, for a main context), or is the result of a build.\<close>

datatype llb_state = LlbCopy string bool | LlbResult string

record NamedContext =
  nc_Path :: string
  nc_State :: "llb_state option"

text \<open>\<open>bi_InStream\<close> says whether there is an input stream.\<close>

record Inputs =
  bi_ContextPath :: string
  bi_DockerfilePath :: string
  bi_InStream :: bool
  bi_ContextState :: "llb_state option"
  bi_DockerfileInline :: string
  bi_NamedContexts :: "NamedContext gomap"
  bi_DockerfileMappingSrc :: string
  bi_DockerfileMappingDst :: string

section \<open>Exports and attachments\<close>

datatype export_output = OutStdout | OutFile string | OutLoad string

text \<open>An export of the client; every place of the code that makes one makes its map of attributes.\<close>

record ClientExport =
  ce_Type :: string
  ce_Attrs :: "string gomap"
  ce_Output :: "export_output option"
  ce_OutputDir :: string

datatype attachable = AtAuth | AtSecrets "Secret list" | AtSSH "SSH list" | AtUpload

text \<open>\<open>bo_Ulimits\<close> lists the limits as they print; \<open>bo_SourcePolicy\<close> is the policy file as it was read.\<close>

record Options =
  bo_Inputs :: Inputs
  bo_Ref :: string
  bo_Allow :: "string list"
  bo_Attests :: "string option gomap"
  bo_BuildArgs :: "string gomap"
  bo_CacheFrom :: "CacheOptionsEntry list"
  bo_CacheTo :: "CacheOptionsEntry list"
  bo_CgroupParent :: string
  bo_Exports :: "ClientExport list"
  bo_ExportsLocalPathsTemporary :: "string list"
  bo_ExtraHosts :: "string list"
  bo_Labels :: "string gomap"
  bo_NetworkMode :: string
  bo_NoCache :: bool
  bo_NoCacheFilter :: "string list"
  bo_Platforms :: "platform list"
  bo_Pull :: bool
  bo_SecretSpecs :: "Secret list"
  bo_SSHSpecs :: "SSH list"
  bo_ShmSize :: int
  bo_Tags :: "string list"
  bo_Target :: string
  bo_Ulimits :: "string list"
  bo_Session :: "attachable list"
  bo_Linked :: bool
  bo_CallFunc :: "CallFunc option"
  bo_ProvenanceResponseMode :: string
  bo_SourcePolicy :: "string option"
  bo_GroupRef :: string

text \<open>The zero values of the structs.\<close>

definition no_inputs :: Inputs where
  "no_inputs = \<lparr>bi_ContextPath = [], bi_DockerfilePath = [], bi_InStream = False, bi_ContextState = None,
     bi_DockerfileInline = [], bi_NamedContexts = [], bi_DockerfileMappingSrc = [], bi_DockerfileMappingDst = []\<rparr>"

definition no_options :: Options where
  "no_options = \<lparr>bo_Inputs = no_inputs, bo_Ref = [], bo_Allow = [], bo_Attests = [], bo_BuildArgs = [], bo_CacheFrom = [],
     bo_CacheTo = [], bo_CgroupParent = [], bo_Exports = [], bo_ExportsLocalPathsTemporary = [], bo_ExtraHosts = [],
     bo_Labels = [], bo_NetworkMode = [], bo_NoCache = False, bo_NoCacheFilter = [], bo_Platforms = [], bo_Pull = False,
     bo_SecretSpecs = [], bo_SSHSpecs = [], bo_ShmSize = 0, bo_Tags = [], bo_Target = [], bo_Ulimits = [],
     bo_Session = [], bo_Linked = False, bo_CallFunc = None, bo_ProvenanceResponseMode = [], bo_SourcePolicy = None,
     bo_GroupRef = []\<rparr>"

section \<open>Remote references\<close>

text \<open>\<open>git\<close> says which references the parser of BuildKit accepts.\<close>

definition isHTTPURL :: "string \<Rightarrow> bool" where
  "isHTTPURL str \<longleftrightarrow> has_prefix ''https://'' str \<or> has_prefix ''http://'' str"

definition IsRemoteURL :: "(string \<Rightarrow> bool) \<Rightarrow> string \<Rightarrow> bool" where
  "IsRemoteURL git c \<longleftrightarrow> isHTTPURL c \<or> git c"

end
