(* ===== verification/Entitlements.thy ===== *)
theory Entitlements
  imports BuildOptions
begin

text \<open>
  The entitlements of bake (\<open>bake/entitlements.go\<close>): the permissions given on the command line, those a
  build asks for, and the paths of the host among them.  What the host says of its files, the reference
  parser of Git and the terminal are parameters.  A Go set of strings is the sorted list of its elements.
\<close>

datatype ent_error =
    EnCsv csv_error
  | EnUnknownKey string
  | EnEvaluate string
  | EnGetwd
  | EnLstat string
  | EnReadlink string
  | EnNotDir
  | EnTooManySymlinks
  | EnParseBool string string
  | EnPrivileges
  | EnPanicIndex

section \<open>Paths of a build\<close>

text \<open>What the host tells: which references Git can parse, the working directory, and \<open>Lstat\<close> of a path,
  with the target that \<open>Readlink\<close> gives for a symbolic link.\<close>

datatype lstat_result = LNotExist | LError | LDir | LFile | LSymlink "string option"

record ent_host =
  eh_git :: "string \<Rightarrow> bool"
  eh_cwd :: "string option"
  eh_lstat :: "string \<Rightarrow> lstat_result"

definition isLocalPath :: "(string \<Rightarrow> bool) \<Rightarrow> string \<Rightarrow> string option" where
  "isLocalPath git p =
     (if IsRemoteURL git p \<or> has_prefix ''target:'' p \<or> has_prefix ''docker-image:'' p then None
      else Some (trim_prefix ''cwd://'' p))"

definition opt_list :: "'a option \<Rightarrow> 'a list" where
  "opt_list x = (case x of None \<Rightarrow> [] | Some v \<Rightarrow> [v])"

definition collectLocalPaths :: "(string \<Rightarrow> bool) \<Rightarrow> Inputs \<Rightarrow> string list" where
  "collectLocalPaths git t =
     (if bi_ContextState t = None then opt_list (isLocalPath git (bi_ContextPath t)) @ opt_list (isLocalPath git (bi_DockerfilePath t))
      else if has_prefix ''cwd://'' (bi_ContextPath t) then [trim_prefix ''cwd://'' (bi_ContextPath t)] else []) @
     concat (map (\<lambda>(_, v). if nc_State v \<noteq> None then [] else opt_list (isLocalPath git (nc_Path v))) (bi_NamedContexts t))"

section \<open>Parsing\<close>

definition no_conf :: EntitlementConf where
  "no_conf = \<lparr>ec_NetworkHost = False, ec_SecurityInsecure = False, ec_Devices = None, ec_FSRead = [],
     ec_FSWrite = [], ec_ImagePush = [], ec_ImageLoad = [], ec_SSH = False\<rparr>"

definition cut_or :: "char \<Rightarrow> string \<Rightarrow> string \<times> string" where
  "cut_or c s = (case cut c s of None \<Rightarrow> (s, []) | Some kv \<Rightarrow> kv)"

definition add_device :: "string \<Rightarrow> EntitlementConf \<Rightarrow> ent_error + EntitlementConf" where
  "add_device v conf =
     rbind (map_err EnCsv (csv_fields v)) (\<lambda>fields.
       case fields of
         [] \<Rightarrow> Inl EnPanicIndex
       | f # _ \<Rightarrow>
           (let d = (case ec_Devices conf of None \<Rightarrow> \<lparr>ed_All = False, ed_Devices = []\<rparr> | Some d \<Rightarrow> d)
            in Inr (conf\<lparr>ec_Devices := Some (d\<lparr>ed_Devices := insort_insert f (ed_Devices d)\<rparr>)\<rparr>)))"

definition parse_entitlement :: "string \<Rightarrow> EntitlementConf \<Rightarrow> ent_error + EntitlementConf" where
  "parse_entitlement e conf =
     (if e = ''network.host'' then Inr (conf\<lparr>ec_NetworkHost := True\<rparr>)
      else if e = ''security.insecure'' then Inr (conf\<lparr>ec_SecurityInsecure := True\<rparr>)
      else if e = ''ssh'' then Inr (conf\<lparr>ec_SSH := True\<rparr>)
      else
        let (k, v) = cut_or (CHR ''='') e
        in if k = ''device'' then
             (if v = [] then Inr (conf\<lparr>ec_Devices := Some \<lparr>ed_All = True, ed_Devices = []\<rparr>\<rparr>) else add_device v conf)
           else if k = ''fs.read'' then Inr (conf\<lparr>ec_FSRead := ec_FSRead conf @ [v]\<rparr>)
           else if k = ''fs.write'' then Inr (conf\<lparr>ec_FSWrite := ec_FSWrite conf @ [v]\<rparr>)
           else if k = ''fs'' then Inr (conf\<lparr>ec_FSRead := ec_FSRead conf @ [v], ec_FSWrite := ec_FSWrite conf @ [v]\<rparr>)
           else if k = ''image.push'' then Inr (conf\<lparr>ec_ImagePush := ec_ImagePush conf @ [v]\<rparr>)
           else if k = ''image.load'' then Inr (conf\<lparr>ec_ImageLoad := ec_ImageLoad conf @ [v]\<rparr>)
           else if k = ''image'' then Inr (conf\<lparr>ec_ImagePush := ec_ImagePush conf @ [v], ec_ImageLoad := ec_ImageLoad conf @ [v]\<rparr>)
           else Inl (EnUnknownKey k))"

definition ParseEntitlements :: "string list \<Rightarrow> ent_error + EntitlementConf" where
  "ParseEntitlements ins = rfold parse_entitlement ins no_conf"

section \<open>Paths that exist\<close>

text \<open>\<open>dest[:r]\<close> for the last separator after the volume, which is the leading slash on Unix.\<close>

definition before_last_sep :: "string \<Rightarrow> string option" where
  "before_last_sep dest =
     (let pre = rev (dropWhile (\<lambda>c. c \<noteq> slash) (rev (tl dest)))
      in if pre = [] then None else Some (take (length pre) dest))"

definition after_last_sep :: "string \<Rightarrow> string" where
  "after_last_sep dest = rev (takeWhile (\<lambda>c. c \<noteq> slash) (rev (tl dest)))"

definition dot_dot :: "string \<Rightarrow> string" where
  "dot_dot dest =
     (case before_last_sep dest of
        Some d \<Rightarrow> if after_last_sep dest = ''..'' then dest @ ''/..'' else d
      | None \<Rightarrow> (if 1 < length dest then dest @ ''/'' else dest) @ ''..'')"

definition parent_dest :: "string \<Rightarrow> string" where
  "parent_dest dest = (case before_last_sep dest of None \<Rightarrow> ''/'' | Some d \<Rightarrow> d)"

definition max_links :: nat where
  "max_links = 255"

lemma comp_shorter:
  assumes "takeWhile (\<lambda>c. c \<noteq> slash) (dropWhile (\<lambda>c. c = slash) rest) \<noteq> []"
  shows "length (dropWhile (\<lambda>c. c \<noteq> slash) (dropWhile (\<lambda>c. c = slash) rest)) < length rest"
proof -
  define here where "here = dropWhile (\<lambda>c. c = slash) rest"
  have "length here = length (takeWhile (\<lambda>c. c \<noteq> slash) here) + length (dropWhile (\<lambda>c. c \<noteq> slash) here)"
    by (simp flip: length_append)
  moreover have "length here \<le> length rest" by (simp add: here_def length_dropWhile_le)
  moreover have "0 < length (takeWhile (\<lambda>c. c \<noteq> slash) here)" using assms by (simp add: here_def)
  ultimately show ?thesis unfolding here_def [symmetric] by linarith
qed

text \<open>The loop of \<open>evaluateToExistingPath\<close>: \<open>rest\<close> is what remains of the path, \<open>dest\<close> what is resolved.\<close>

function walk_path :: "(string \<Rightarrow> lstat_result) \<Rightarrow> nat \<Rightarrow> string \<Rightarrow> string \<Rightarrow> ent_error + string \<times> string" where
  "walk_path lstat links rest dest =
     (let here = dropWhile (\<lambda>c. c = slash) rest;
          comp = takeWhile (\<lambda>c. c \<noteq> slash) here;
          after = dropWhile (\<lambda>c. c \<noteq> slash) here
      in if comp = [] then Inr (path_clean dest, [])
         else if comp = ''.'' then walk_path lstat links after dest
         else if comp = ''..'' then walk_path lstat links after (dot_dot dest)
         else
           let dest = (if dest \<noteq> [] \<and> last dest \<noteq> slash then dest @ ''/'' else dest) @ comp
           in (case lstat dest of
                 LNotExist \<Rightarrow> Inr (parent_dest dest, here)
               | LError \<Rightarrow> Inl (EnLstat dest)
               | LDir \<Rightarrow> walk_path lstat links after dest
               | LFile \<Rightarrow> if after \<noteq> [] then Inl EnNotDir else walk_path lstat links after dest
               | LSymlink target \<Rightarrow>
                   if max_links < links + 1 then Inl EnTooManySymlinks
                   else (case target of
                           None \<Rightarrow> Inl (EnReadlink dest)
                         | Some link \<Rightarrow>
                             if is_abs link then walk_path lstat (links + 1) (tl link @ after) ''/''
                             else walk_path lstat (links + 1) (link @ after) (parent_dest dest))))"
  by pat_completeness auto

termination
proof (relation "measures [\<lambda>(_, links, _, _). max_links - links, \<lambda>(_, _, rest, _). length rest]")
qed (auto simp: comp_shorter)

declare walk_path.simps [simp del]

definition evaluateToExistingPath :: "ent_host \<Rightarrow> string \<Rightarrow> ent_error + string \<times> string" where
  "evaluateToExistingPath h p =
     (case filepath_Abs (eh_cwd h) p of
        None \<Rightarrow> Inl EnGetwd
      | Some a \<Rightarrow> walk_path (eh_lstat h) 0 (tl a) ''/'')"

section \<open>Missing paths\<close>

definition path_set :: "string list \<Rightarrow> string list" where
  "path_set ps = fold insort_insert ps []"

definition evaluate_path :: "ent_host \<Rightarrow> string \<Rightarrow> string list \<times> bool \<Rightarrow> ent_error + string list \<times> bool" where
  "evaluate_path h p = (\<lambda>(out, any).
     if p = ''*'' then Inr (out, True)
     else (case filepath_Abs (eh_cwd h) p of
             None \<Rightarrow> Inr (out, any)
           | Some v \<Rightarrow>
               rbind (evaluateToExistingPath h v) (\<lambda>(v, rest).
               Inr (out @ [if rest \<noteq> [] then path_join [v, rest] else v], any))))"

definition evaluatePaths :: "ent_host \<Rightarrow> string list \<Rightarrow> ent_error + string list \<times> bool" where
  "evaluatePaths h ins = rfold (evaluate_path h) ins ([], False)"

definition evaluateToExistingPaths :: "ent_host \<Rightarrow> string list \<Rightarrow> ent_error + string list" where
  "evaluateToExistingPaths h ins = rbind (rmap (\<lambda>p. rbind (evaluateToExistingPath h p) (\<lambda>(v, _). Inr v)) ins) (\<lambda>vs. Inr (path_set vs))"

definition isParentOrEqualPath :: "string \<Rightarrow> string \<Rightarrow> bool" where
  "isParentOrEqualPath p parent \<longleftrightarrow> p = parent \<or> parent = ''/'' \<or> has_prefix (path_clean (parent @ ''/'')) p"

fun dedup_paths_loop :: "string list \<Rightarrow> string list \<Rightarrow> string list" where
  "dedup_paths_loop [] m = m"
| "dedup_paths_loop (p # ps) m =
     dedup_paths_loop ps (if list_ex (\<lambda>parent. has_prefix (parent @ ''/'') p) m then m else insort_insert p m)"

definition dedupPaths :: "string list \<Rightarrow> string list" where
  "dedupPaths ins = dedup_paths_loop (sort_key length (map path_clean ins)) []"

definition findMissingPaths :: "ent_host \<Rightarrow> string list \<Rightarrow> string list \<Rightarrow> ent_error + string list" where
  "findMissingPaths h granted paths =
     rbind (evaluatePaths h granted) (\<lambda>(granted, any).
       if any then Inr []
       else rbind (evaluateToExistingPaths h paths) (\<lambda>paths.
            Inr (sort (filter (\<lambda>p. \<not> list_ex (isParentOrEqualPath p) granted) (dedupPaths paths)))))"

section \<open>The check of a build\<close>

definition check_allow :: "EntitlementConf \<Rightarrow> string \<Rightarrow> EntitlementConf \<Rightarrow> ent_error + EntitlementConf" where
  "check_allow c e expected =
     (let (k, v) = cut_or (CHR ''='') e
      in if k = ''device'' \<and> v = [] then
           Inr (case ec_Devices c of
                  Some d \<Rightarrow> if ed_All d then expected else expected\<lparr>ec_Devices := Some \<lparr>ed_All = True, ed_Devices = []\<rparr>\<rparr>
                | None \<Rightarrow> expected\<lparr>ec_Devices := Some \<lparr>ed_All = True, ed_Devices = []\<rparr>\<rparr>)
         else
           rbind (if k = ''device'' then add_device v expected else Inr expected) (\<lambda>expected.
             Inr (if e = ''network.host'' then (if ec_NetworkHost c then expected else expected\<lparr>ec_NetworkHost := True\<rparr>)
                  else if e = ''security.insecure'' then
                    (if ec_SecurityInsecure c then expected else expected\<lparr>ec_SecurityInsecure := True\<rparr>)
                  else expected)))"

definition read_paths :: "(string \<Rightarrow> bool) \<Rightarrow> Options \<Rightarrow> string list" where
  "read_paths git bo = collectLocalPaths git (bo_Inputs bo) @ local_attr ''src'' (bo_CacheFrom bo) @
     filter (\<lambda>p. p \<noteq> []) (map se_FilePath (bo_SecretSpecs bo)) @ concat (map ss_Paths (bo_SSHSpecs bo))"

definition write_paths :: "Options \<Rightarrow> string list" where
  "write_paths bo = bo_ExportsLocalPathsTemporary bo @ local_attr ''dest'' (bo_CacheTo bo)"

definition check :: "ent_host \<Rightarrow> EntitlementConf \<Rightarrow> Options \<Rightarrow> EntitlementConf \<Rightarrow> ent_error + EntitlementConf" where
  "check h c bo expected =
     rbind (rfold (check_allow c) (bo_Allow bo) expected) (\<lambda>expected.
       let expected = (if list_ex (\<lambda>s. ss_Paths s = []) (bo_SSHSpecs bo) \<and> \<not> ec_SSH c then expected\<lparr>ec_SSH := True\<rparr> else expected)
       in rbind (findMissingPaths h (ec_FSRead c) (path_set (read_paths (eh_git h) bo))) (\<lambda>ro.
          rbind (findMissingPaths h (ec_FSWrite c) (path_set (write_paths bo))) (\<lambda>rw.
          Inr (expected\<lparr>ec_FSRead := ro, ec_FSWrite := rw\<rparr>))))"

text \<open>The options of the targets are a map; the list is the order in which Go visits them.\<close>

definition Validate :: "ent_host \<Rightarrow> EntitlementConf \<Rightarrow> Options list \<Rightarrow> ent_error + EntitlementConf" where
  "Validate h c m = rfold (check h c) m no_conf"

section \<open>The prompt\<close>

fun common_paths :: "string list \<Rightarrow> string list \<Rightarrow> string list" where
  "common_paths (a # as) (b # bs) =
     (if a = b then a # common_paths as bs else if a < b then common_paths as (b # bs) else common_paths (a # as) bs)"
| "common_paths _ _ = []"

fun removeCommonPaths :: "string list \<Rightarrow> string list \<Rightarrow> string list" where
  "removeCommonPaths [] common = []"
| "removeCommonPaths (p # ps) [] = p # removeCommonPaths ps []"
| "removeCommonPaths (p # ps) (c # cs) = (if p = c then removeCommonPaths ps cs else p # removeCommonPaths ps (c # cs))"

text \<open>The lists of missing paths are nil when they are empty.\<close>

definition groupSamePaths :: "string list \<Rightarrow> string list \<Rightarrow> string list \<times> string list \<times> string list" where
  "groupSamePaths in1 in2 =
     (if in1 = [] \<or> in2 = [] then (in1, in2, [])
      else let in1 = sort in1; in2 = sort in2; common = common_paths in1 in2
           in (removeCommonPaths in1 common, removeCommonPaths in2 common, common))"

fun strip_common :: "string list \<Rightarrow> string list \<Rightarrow> string list \<times> string list" where
  "strip_common (a # as) (b # bs) = (if a = b then strip_common as bs else (a # as, b # bs))"
| "strip_common as bs = (as, bs)"

definition filepath_Rel :: "string \<Rightarrow> string \<Rightarrow> string option" where
  "filepath_Rel basepath targpath =
     (if path_clean basepath = path_clean targpath then Some ''.''
      else if is_abs basepath \<noteq> is_abs targpath then None
      else (case strip_common (path_comps basepath) (path_comps targpath) of (bs, ts) \<Rightarrow>
              if bs \<noteq> [] \<and> hd bs = ''..'' then None else Some (join ''/'' (map (\<lambda>_. ''..'') bs @ ts))))"

definition relative_path :: "string \<Rightarrow> string \<Rightarrow> string" where
  "relative_path wd p =
     (case filepath_Rel wd p of None \<Rightarrow> p | Some rel \<Rightarrow> if has_prefix ''../..'' rel then p else rel)"

definition toRelativePaths :: "string list \<Rightarrow> string \<Rightarrow> string list" where
  "toRelativePaths ins wd = map (relative_path wd) ins"

text \<open>The messages and flags of a set of entitlements, those of the file system apart.\<close>

definition prompt_msgs :: "EntitlementConf \<Rightarrow> (string \<times> string) list" where
  "prompt_msgs c =
     (if ec_NetworkHost c then [('' - Running build containers that can access host network'', ''network.host'')] else []) @
     (if ec_SecurityInsecure c then [('' - Running privileged containers that can make system changes'', ''security.insecure'')] else []) @
     (case ec_Devices c of
        None \<Rightarrow> []
      | Some d \<Rightarrow> if ed_All d then [('' - Access to CDI devices'', ''device'')]
                  else map (\<lambda>d. ('' - Access to device '' @ d, ''device='' @ d)) (ed_Devices d))"

definition prompt_fs :: "EntitlementConf \<Rightarrow> string \<Rightarrow> (string \<times> string) list" where
  "prompt_fs c wd =
     (case groupSamePaths (ec_FSRead c) (ec_FSWrite c) of (ro, rw, common) \<Rightarrow>
        (if ec_SSH c then [('' - Forwarding default SSH agent socket'', ''ssh'')] else []) @
        map (\<lambda>p. ('' - Read and write access to path '' @ p, ''fs='' @ p)) (toRelativePaths common wd) @
        map (\<lambda>p. ('' - Read access to path '' @ p, ''fs.read='' @ p)) (toRelativePaths ro wd) @
        map (\<lambda>p. ('' - Write access to path '' @ p, ''fs.write='' @ p)) (toRelativePaths rw wd))"

text \<open>What is printed: text and text in quotes.\<close>

datatype piece = Plain string | Quoted string

record prompt_env =
  pe_term :: bool
  pe_wd :: "string option"
  pe_args :: "string list"
  pe_env :: "string \<Rightarrow> string option"
  pe_answer :: "string option"

definition env_bool :: "prompt_env \<Rightarrow> string \<Rightarrow> ent_error + bool option" where
  "env_bool pe key =
     (case pe_env pe key of
        None \<Rightarrow> Inr None
      | Some v \<Rightarrow> (case parse_bool v of None \<Rightarrow> Inl (EnParseBool key v) | Some b \<Rightarrow> Inr (Some b)))"

definition full_command :: "prompt_env \<Rightarrow> string list \<Rightarrow> piece list" where
  "full_command pe flags =
     (let v = (case pe_env pe ''DOCKER_CLI_PLUGIN_ORIGINAL_CLI_COMMAND'' of None \<Rightarrow> [] | Some v \<Rightarrow> v);
          args = (if v \<noteq> [] then (pe_args pe)[0 := v] else pe_args pe);
          pre = takeWhile (\<lambda>a. a \<noteq> ''bake'') args
      in if length pre < length args then
           [Plain ''Your full command with requested privileges:'',
            Plain (join '' '' (pre @ [''bake'']) @ '' '' @ join '' '' flags @ '' '' @ join '' '' (drop (length pre + 1) args))]
         else [])"

definition prompt_decision :: "prompt_env \<Rightarrow> bool \<Rightarrow> bool \<Rightarrow> bool \<Rightarrow> ent_error + bool \<times> bool" where
  "prompt_decision pe isRemote msgs msgsFS =
     rbind (if isRemote then env_bool pe ''BAKE_ALLOW_REMOTE_FS_ACCESS'' else Inr None) (\<lambda>remote.
     rbind (env_bool pe ''BUILDX_BAKE_ENTITLEMENTS_FS'') (\<lambda>fs.
       let enabled = (case fs of Some b \<Rightarrow> b | None \<Rightarrow> (case remote of Some b \<Rightarrow> \<not> b | None \<Rightarrow> True))
       in Inr (\<not> enabled \<and> \<not> msgs, enabled \<and> fs = None \<and> msgsFS)))"

definition Prompt :: "EntitlementConf \<Rightarrow> prompt_env \<Rightarrow> bool \<Rightarrow> piece list \<times> (ent_error + unit)" where
  "Prompt c pe isRemote =
     (case pe_wd pe of
        None \<Rightarrow> ([], Inl EnGetwd)
      | Some wd \<Rightarrow>
          (let msgs = prompt_msgs c; msgsFS = prompt_fs c wd;
               flags = map (\<lambda>(_, f). ''--allow='' @ f) (msgs @ msgsFS);
               out = [Plain ''Your build is requesting privileges for following possibly insecure capabilities:''] @
                     map (\<lambda>(m, _). Plain m) (msgs @ msgsFS) @
                     (if pe_term pe
                      then [Plain ''In order to not see this message in the future pass '', Quoted (join '' '' flags), Plain '' to grant requested privileges.'']
                      else [Plain ''Pass '', Quoted (join '' '' flags), Plain '' to grant requested privileges.'']) @
                     full_command pe flags
           in if msgs = [] \<and> msgsFS = [] then ([], Inr ())
              else (case prompt_decision pe isRemote (msgs \<noteq> []) (msgsFS \<noteq> []) of
                      Inl e \<Rightarrow> (out, Inl e)
                    | Inr (skip, hint) \<Rightarrow>
                        if skip then (out, Inr ())
                        else (out @ (if hint then [Plain ''To disable filesystem entitlements checks, you can set BUILDX_BAKE_ENTITLEMENTS_FS=0 .''] else []) @
                                (if pe_term pe then [Plain ''Do you want to grant requested privileges and continue? [y/N] ''] else []),
                              if pe_term pe \<and> map_option to_lower (pe_answer pe) = Some ''y'' then Inr () else Inl EnPrivileges))))"

end
