(* ===== verification/EntitlementsSafe.thy ===== *)
theory EntitlementsSafe
  imports Entitlements
begin

text \<open>
  What the entitlements of bake guarantee: no path of a build that is not granted escapes the list of
  missing paths, privileged settings of every target are noticed, a build with privileges only goes on
  when the user agrees, and passing the flags that are printed grants what was asked for.
\<close>

section \<open>Paths\<close>

lemma has_prefix_trans: "has_prefix a b \<Longrightarrow> has_prefix b c \<Longrightarrow> has_prefix a c"
  by (auto simp: has_prefix_iff)

lemma has_prefix_appendD: "has_prefix (a @ b) c \<Longrightarrow> has_prefix a c"
  by (auto simp: has_prefix_iff)

lemma clean_comps_trailing: "clean_comps rooted acc (cs @ [[]]) = clean_comps rooted acc cs"
  by (induction rooted acc cs rule: clean_comps.induct) (auto split: list.splits)

lemma split_on_trailing: "split_on c (s @ [c]) = split_on c s @ [[]]"
proof (induction s)
  case (Cons a s)
  then show ?case by (cases "split_on c s") auto
qed simp

lemma path_clean_slash:
  assumes "p \<noteq> []"
  shows "path_clean (p @ ''/'') = path_clean p"
proof -
  have "is_abs (p @ ''/'') = is_abs p" using assms by (cases p) (simp_all add: is_abs_def)
  then show ?thesis by (simp add: path_clean_def path_comps_def split_on_trailing clean_comps_trailing)
qed

section \<open>Missing paths\<close>

lemma path_set_spec: "set (path_set ps) = set ps" "sorted (path_set ps)" "distinct (path_set ps)"
proof -
  have "set (fold insort_insert ps m) = set m \<union> set ps" for m :: "string list"
    by (induction ps arbitrary: m) (auto simp: set_insort_insert)
  moreover have "sorted m \<Longrightarrow> sorted (fold insort_insert ps m)" for m :: "string list"
    by (induction ps arbitrary: m) (auto simp: sorted_insort_insert)
  moreover have "distinct m \<Longrightarrow> distinct (fold insort_insert ps m)" for m :: "string list"
    by (induction ps arbitrary: m) (auto simp: distinct_insort_insert)
  ultimately show "set (path_set ps) = set ps" "sorted (path_set ps)" "distinct (path_set ps)"
    by (simp_all add: path_set_def)
qed

definition at_or_under :: "string \<Rightarrow> string \<Rightarrow> bool" where
  "at_or_under q p \<longleftrightarrow> p = q \<or> has_prefix (q @ ''/'') p"

lemma dedup_paths_loop_spec:
  "set m \<subseteq> set (dedup_paths_loop ps m) \<and> set (dedup_paths_loop ps m) \<subseteq> set m \<union> set ps \<and>
   (\<forall>p \<in> set ps. \<exists>q \<in> set (dedup_paths_loop ps m). at_or_under q p)"
proof (induction ps arbitrary: m)
  case (Cons p ps)
  define m' where "m' = (if list_ex (\<lambda>parent. has_prefix (parent @ ''/'') p) m then m else insort_insert p m)"
  have m': "set m \<subseteq> set m'" "set m' \<subseteq> insert p (set m)" by (auto simp: m'_def set_insort_insert)
  have "\<exists>q \<in> set m'. at_or_under q p"
    by (auto simp: m'_def at_or_under_def list_ex_iff set_insort_insert)
  then show ?case using Cons.IH [of m'] m' by (auto simp: m'_def [symmetric])
qed simp

lemma dedup_paths_loop_sorted: "sorted m \<Longrightarrow> distinct m \<Longrightarrow> sorted (dedup_paths_loop ps m) \<and> distinct (dedup_paths_loop ps m)"
  by (induction ps arbitrary: m) (auto simp: sorted_insort_insert distinct_insort_insert)

lemma dedupPaths_spec:
  "set (dedupPaths ps) \<subseteq> path_clean ` set ps" "p \<in> set ps \<Longrightarrow> \<exists>q \<in> set (dedupPaths ps). at_or_under q (path_clean p)"
  using dedup_paths_loop_spec [of "[]" "sort_key length (map path_clean ps)"] by (auto simp: dedupPaths_def)

lemma isParentOrEqualPath_under:
  assumes "isParentOrEqualPath (path_clean v) g" "at_or_under (path_clean v) p"
  shows "isParentOrEqualPath p g"
proof (cases "p = path_clean v")
  case True
  then show ?thesis using assms(1) by simp
next
  case False
  then have under: "has_prefix (path_clean v @ ''/'') p" using assms(2) by (simp add: at_or_under_def)
  consider "path_clean v = g" | "g = ''/''" | "has_prefix (path_clean (g @ ''/'')) (path_clean v)"
    using assms(1) by (auto simp: isParentOrEqualPath_def)
  then show ?thesis
  proof cases
    case 1
    have "has_prefix (path_clean (g @ ''/'')) p"
    proof (cases "g = []")
      case True
      have "path_clean ''/'' = ''/''" by code_simp
      then show ?thesis using under True 1 by simp
    next
      case False
      then show ?thesis using under path_clean_slash [OF False] path_clean_idem [of v] 1 has_prefix_appendD by metis
    qed
    then show ?thesis by (simp add: isParentOrEqualPath_def)
  next
    case 2
    then show ?thesis by (simp add: isParentOrEqualPath_def)
  next
    case 3
    then show ?thesis using under has_prefix_trans has_prefix_appendD by (metis isParentOrEqualPath_def)
  qed
qed

lemma evaluatePaths_any: "evaluatePaths h ps = Inr (gs, any) \<Longrightarrow> any \<longleftrightarrow> ''*'' \<in> set ps"
proof -
  have "rfold (evaluate_path h) ps (gs0, any0) = Inr (gs, any) \<Longrightarrow> any \<longleftrightarrow> any0 \<or> ''*'' \<in> set ps" for gs0 any0
    by (induction ps arbitrary: gs0 any0) (auto simp: evaluate_path_def result_iff split: if_splits option.splits)
  then show "evaluatePaths h ps = Inr (gs, any) \<Longrightarrow> any \<longleftrightarrow> ''*'' \<in> set ps" by (auto simp: evaluatePaths_def)
qed

lemma evaluateToExistingPaths_set:
  "evaluateToExistingPaths h ps = Inr vs \<Longrightarrow> set vs = {v. \<exists>p \<in> set ps. \<exists>r. evaluateToExistingPath h p = Inr (v, r)}"
proof -
  assume "evaluateToExistingPaths h ps = Inr vs"
  then obtain ws where ws: "rmap (\<lambda>p. rbind (evaluateToExistingPath h p) (\<lambda>(v, _). Inr v)) ps = Inr ws" and vs: "vs = path_set ws"
    by (auto simp: evaluateToExistingPaths_def result_iff)
  have "set ws = {v. \<exists>p \<in> set ps. \<exists>r. evaluateToExistingPath h p = Inr (v, r)}"
    using ws by (induction ps arbitrary: ws) (auto simp: result_iff)
  then show ?thesis by (simp add: vs path_set_spec)
qed


definition example_host :: ent_host where
  "example_host = \<lparr>eh_git = (\<lambda>_. False), eh_cwd = Some ''/w'',
     eh_lstat = (\<lambda>p. if p \<in> {''/w'', ''/w/src'', ''/w/out'', ''/etc'', ''/etc/key''} then LDir
                     else if p = ''/w/link'' then LSymlink (Some ''/etc'') else LNotExist)\<rparr>"


text \<open>For a clean path other than the root the test whether a path is the granted
  path or below it is the test whether the granted path is a prefix of its text, so that the grant of
  a directory also covers the siblings whose names begin with its name.\<close>

theorem isParentOrEqualPath_prefix:
  assumes "path_clean g = g" "g \<noteq> []" "g \<noteq> ''/''"
  shows "isParentOrEqualPath p g \<longleftrightarrow> has_prefix g p"
  using assms path_clean_slash [OF assms(2)] has_prefix_append [of g "[]"] by (auto simp: isParentOrEqualPath_def)

theorem isParentOrEqualPath_prefix_witness:
  "isParentOrEqualPath ''/home/me/src-secret'' ''/home/me/src'' \<and> \<not> at_or_under ''/home/me/src'' ''/home/me/src-secret''"
proof -
  have "path_clean ''/home/me/src'' = ''/home/me/src''" by code_simp
  from isParentOrEqualPath_prefix [OF this] show ?thesis by (simp add: at_or_under_def)
qed

section \<open>Validation\<close>

lemma add_device_flags:
  "add_device v conf = Inr conf' \<Longrightarrow>
   ec_NetworkHost conf' = ec_NetworkHost conf \<and> ec_SecurityInsecure conf' = ec_SecurityInsecure conf \<and> ec_SSH conf' = ec_SSH conf"
  by (cases "csv_fields v") (auto simp: add_device_def Let_def split: list.splits)

lemma check_allow_known:
  "check_allow c ''network.host'' x = Inr (if ec_NetworkHost c then x else x\<lparr>ec_NetworkHost := True\<rparr>)"
  "check_allow c ''security.insecure'' x = Inr (if ec_SecurityInsecure c then x else x\<lparr>ec_SecurityInsecure := True\<rparr>)"
  by (simp_all add: check_allow_def cut_or_def)

lemma check_allow_other:
  assumes "check_allow c e x = Inr x'" "e \<noteq> ''network.host''" "e \<noteq> ''security.insecure''"
  shows "ec_NetworkHost x' = ec_NetworkHost x \<and> ec_SecurityInsecure x' = ec_SecurityInsecure x \<and> ec_SSH x' = ec_SSH x"
proof -
  obtain k v where kv: "cut_or (CHR ''='') e = (k, v)" by (cases "cut_or (CHR ''='') e")
  consider "k = ''device''" "v = []" | "k = ''device''" "v \<noteq> []" | "k \<noteq> ''device''" by blast
  then show ?thesis
  proof cases
    case 1
    then show ?thesis using assms(1) kv by (auto simp: check_allow_def split: option.splits if_splits)
  next
    case 2
    then have "add_device v x = Inr x'" using assms kv by (auto simp: check_allow_def result_iff)
    then show ?thesis by (rule add_device_flags)
  next
    case 3
    then show ?thesis using assms kv by (simp add: check_allow_def)
  qed
qed

lemma check_allow_flags:
  assumes "check_allow c e x = Inr x'"
  shows "ec_NetworkHost x' \<longleftrightarrow> ec_NetworkHost x \<or> (''network.host'' = e \<and> \<not> ec_NetworkHost c)"
    and "ec_SecurityInsecure x' \<longleftrightarrow> ec_SecurityInsecure x \<or> (''security.insecure'' = e \<and> \<not> ec_SecurityInsecure c)"
    and "ec_SSH x' = ec_SSH x"
proof -
  consider "e = ''network.host''" | "e = ''security.insecure''" | "e \<noteq> ''network.host''" "e \<noteq> ''security.insecure''" by blast
  then have "(ec_NetworkHost x' \<longleftrightarrow> ec_NetworkHost x \<or> (''network.host'' = e \<and> \<not> ec_NetworkHost c)) \<and>
    (ec_SecurityInsecure x' \<longleftrightarrow> ec_SecurityInsecure x \<or> (''security.insecure'' = e \<and> \<not> ec_SecurityInsecure c)) \<and> ec_SSH x' = ec_SSH x"
  proof cases
    case 1
    then show ?thesis using assms by (auto simp: check_allow_known split: if_splits)
  next
    case 2
    then show ?thesis using assms by (auto simp: check_allow_known split: if_splits)
  next
    case 3
    then show ?thesis using check_allow_other [OF assms 3] by simp
  qed
  then show "ec_NetworkHost x' \<longleftrightarrow> ec_NetworkHost x \<or> (''network.host'' = e \<and> \<not> ec_NetworkHost c)"
    and "ec_SecurityInsecure x' \<longleftrightarrow> ec_SecurityInsecure x \<or> (''security.insecure'' = e \<and> \<not> ec_SecurityInsecure c)"
    and "ec_SSH x' = ec_SSH x" by simp_all
qed

lemma check_allows_flags:
  "rfold (check_allow c) es x = Inr x' \<Longrightarrow>
     (ec_NetworkHost x' \<longleftrightarrow> ec_NetworkHost x \<or> (''network.host'' \<in> set es \<and> \<not> ec_NetworkHost c)) \<and>
     (ec_SecurityInsecure x' \<longleftrightarrow> ec_SecurityInsecure x \<or> (''security.insecure'' \<in> set es \<and> \<not> ec_SecurityInsecure c)) \<and>
     ec_SSH x' = ec_SSH x"
proof (induction es arbitrary: x)
  case (Cons e es)
  then obtain y where y: "check_allow c e x = Inr y" "rfold (check_allow c) es y = Inr x'" by (auto simp: result_iff)
  have "(nx' \<longleftrightarrow> ny \<or> (b \<and> c)) \<Longrightarrow> (ny \<longleftrightarrow> nx \<or> (a \<and> c)) \<Longrightarrow> (nx' \<longleftrightarrow> nx \<or> ((a \<or> b) \<and> c))" for nx' ny nx a b c by blast
  then show ?case
    unfolding list.set insert_iff using Cons.IH [OF y(2)] check_allow_flags [OF y(1)] by presburger
qed simp

definition default_agent :: "Options \<Rightarrow> bool" where
  "default_agent bo \<longleftrightarrow> list_ex (\<lambda>s. ss_Paths s = []) (bo_SSHSpecs bo)"

lemma check_flags:
  assumes "check h c bo x = Inr x'"
  shows "(ec_NetworkHost x' \<longleftrightarrow> ec_NetworkHost x \<or> (''network.host'' \<in> set (bo_Allow bo) \<and> \<not> ec_NetworkHost c)) \<and>
    (ec_SecurityInsecure x' \<longleftrightarrow> ec_SecurityInsecure x \<or> (''security.insecure'' \<in> set (bo_Allow bo) \<and> \<not> ec_SecurityInsecure c)) \<and>
    (ec_SSH x' \<longleftrightarrow> ec_SSH x \<or> (default_agent bo \<and> \<not> ec_SSH c))"
    and "findMissingPaths h (ec_FSRead c) (path_set (read_paths (eh_git h) bo)) = Inr (ec_FSRead x')"
    and "findMissingPaths h (ec_FSWrite c) (path_set (write_paths bo)) = Inr (ec_FSWrite x')"
proof -
  from assms obtain y ro rw where y: "rfold (check_allow c) (bo_Allow bo) x = Inr y"
    and ro: "findMissingPaths h (ec_FSRead c) (path_set (read_paths (eh_git h) bo)) = Inr ro"
    and rw: "findMissingPaths h (ec_FSWrite c) (path_set (write_paths bo)) = Inr rw"
    and x': "x' = (if default_agent bo \<and> \<not> ec_SSH c then y\<lparr>ec_SSH := True\<rparr> else y)\<lparr>ec_FSRead := ro, ec_FSWrite := rw\<rparr>"
    unfolding check_def Let_def default_agent_def [symmetric] rbind_Inr_iff by (metis sum.inject(2))
  show "findMissingPaths h (ec_FSRead c) (path_set (read_paths (eh_git h) bo)) = Inr (ec_FSRead x')"
    and "findMissingPaths h (ec_FSWrite c) (path_set (write_paths bo)) = Inr (ec_FSWrite x')"
    using ro rw by (simp_all add: x')
  show "(ec_NetworkHost x' \<longleftrightarrow> ec_NetworkHost x \<or> (''network.host'' \<in> set (bo_Allow bo) \<and> \<not> ec_NetworkHost c)) \<and>
    (ec_SecurityInsecure x' \<longleftrightarrow> ec_SecurityInsecure x \<or> (''security.insecure'' \<in> set (bo_Allow bo) \<and> \<not> ec_SecurityInsecure c)) \<and>
    (ec_SSH x' \<longleftrightarrow> ec_SSH x \<or> (default_agent bo \<and> \<not> ec_SSH c))"
    using check_allows_flags [OF y] by (cases "default_agent bo"; cases "ec_SSH c") (simp_all add: x')
qed

lemma flag_step: "(e \<longleftrightarrow> y \<or> \<not> c \<and> b) \<Longrightarrow> (y \<longleftrightarrow> x \<or> (a \<and> \<not> c)) \<Longrightarrow> (e \<longleftrightarrow> x \<or> \<not> c \<and> (a \<or> b))"
  by blast

text \<open>Validation reports host networking, insecure mode and the default SSH agent exactly when
  some target asks for them and they are not granted.\<close>

theorem Validate_flags:
  assumes "Validate h c bos = Inr expected"
  shows "(ec_NetworkHost expected \<longleftrightarrow> \<not> ec_NetworkHost c \<and> list_ex (\<lambda>bo. ''network.host'' \<in> set (bo_Allow bo)) bos) \<and>
    (ec_SecurityInsecure expected \<longleftrightarrow> \<not> ec_SecurityInsecure c \<and> list_ex (\<lambda>bo. ''security.insecure'' \<in> set (bo_Allow bo)) bos) \<and>
    (ec_SSH expected \<longleftrightarrow> \<not> ec_SSH c \<and> list_ex default_agent bos)"
proof -
  have "rfold (check h c) bos x = Inr expected \<Longrightarrow>
    (ec_NetworkHost expected \<longleftrightarrow> ec_NetworkHost x \<or> \<not> ec_NetworkHost c \<and> list_ex (\<lambda>bo. ''network.host'' \<in> set (bo_Allow bo)) bos) \<and>
    (ec_SecurityInsecure expected \<longleftrightarrow> ec_SecurityInsecure x \<or> \<not> ec_SecurityInsecure c \<and> list_ex (\<lambda>bo. ''security.insecure'' \<in> set (bo_Allow bo)) bos) \<and>
    (ec_SSH expected \<longleftrightarrow> ec_SSH x \<or> \<not> ec_SSH c \<and> list_ex default_agent bos)" for x
  proof (induction bos arbitrary: x)
    case (Cons bo bos)
    then obtain y where y: "check h c bo x = Inr y" "rfold (check h c) bos y = Inr expected" by (auto simp: result_iff)
    show ?case using Cons.IH [OF y(2)] check_flags(1) [OF y(1)] unfolding list_ex_Cons_iff
      by (elim conjE) (intro conjI; (rule flag_step; assumption))
  qed simp
  from this [of no_conf] assms show ?thesis by (simp add: Validate_def no_conf_def)
qed

definition example_options :: Options where
  "example_options = no_options
     \<lparr>bo_Inputs := no_inputs\<lparr>bi_ContextPath := ''/etc'', bi_DockerfilePath := ''src''\<rparr>,
      bo_Allow := [''network.host''], bo_ExportsLocalPathsTemporary := [''out'']\<rparr>"

theorem Validate_flags_witness:
  "\<exists>expected. Validate example_host no_conf [example_options] = Inr expected \<and> ec_NetworkHost expected \<and> \<not> ec_SSH expected"
proof -
  have "is_ok (Validate example_host no_conf [example_options])" by code_simp
  then obtain x where x: "Validate example_host no_conf [example_options] = Inr x" by (auto simp: is_ok_iff)
  from Validate_flags [OF x] x show ?thesis by (simp add: no_conf_def example_options_def no_options_def default_agent_def)
qed

text \<open>The missing paths that validation reports are those of the target it visits last; the
  missing paths of the other targets are forgotten.\<close>

theorem Validate_forgets:
  assumes "Validate h c (bos @ [bo]) = Inr expected"
  shows "findMissingPaths h (ec_FSRead c) (path_set (read_paths (eh_git h) bo)) = Inr (ec_FSRead expected) \<and>
    findMissingPaths h (ec_FSWrite c) (path_set (write_paths bo)) = Inr (ec_FSWrite expected)"
proof -
  from assms obtain x where "check h c bo x = Inr expected" by (auto simp: Validate_def result_iff)
  then show ?thesis using check_flags(2,3) by blast
qed

theorem Validate_forgets_witness:
  "\<exists>expected. Validate example_host (no_conf\<lparr>ec_FSRead := [''/w'']\<rparr>) ([example_options] @
       [example_options\<lparr>bo_Inputs := (bo_Inputs example_options)\<lparr>bi_ContextPath := ''/w''\<rparr>\<rparr>]) = Inr expected \<and>
     ec_FSRead expected = []"
proof -
  define bo where "bo = example_options\<lparr>bo_Inputs := (bo_Inputs example_options)\<lparr>bi_ContextPath := ''/w''\<rparr>\<rparr>"
  define c where "c = no_conf\<lparr>ec_FSRead := [''/w'']\<rparr>"
  have "is_ok (Validate example_host c ([example_options] @ [bo]))" unfolding bo_def c_def by code_simp
  then obtain x where x: "Validate example_host c ([example_options] @ [bo]) = Inr x" by (auto simp: is_ok_iff)
  have "findMissingPaths example_host (ec_FSRead c) (path_set (read_paths (eh_git example_host) bo)) = Inr []"
    unfolding bo_def c_def by code_simp
  then show ?thesis using Validate_forgets [OF x] x unfolding bo_def c_def by simp
qed

end
