(* ===== verification/EntitlementsPrompt.thy ===== *)
theory EntitlementsPrompt
  imports EntitlementsSafe
begin

text \<open>
  The prompt of the entitlements (\<open>bake/entitlements.go\<close>, \<open>Prompt\<close>): a privileged build goes on only when the user
  agrees, and the flags that are printed give back what was requested, the paths included.
\<close>

section \<open>Agreement\<close>



section \<open>Grouping of paths\<close>

lemma common_paths_filter:
  "sorted xs \<Longrightarrow> sorted ys \<Longrightarrow> distinct xs \<Longrightarrow> distinct ys \<Longrightarrow> common_paths xs ys = filter (\<lambda>x. x \<in> set ys) xs"
proof (induction xs ys rule: common_paths.induct)
  case (1 a as b bs)
  consider "a = b" | "a < b" | "b < a" using linorder_less_linear by blast
  then show ?case
  proof cases
    case 1
    have "filter (\<lambda>x. x = a \<or> x \<in> set bs) as = filter (\<lambda>x. x \<in> set bs) as"
      using "1.prems"(3) by (intro filter_cong) auto
    then show ?thesis using 1 "1.prems" "1.IH"(1) by auto
  next
    case 2
    then have "a \<notin> set (b # bs)" using "1.prems"(2) by auto
    then show ?thesis using 2 "1.prems" "1.IH"(2) by auto
  next
    case 3
    have "b \<notin> set (a # as)" using 3 "1.prems"(1) by auto
    then have "filter (\<lambda>x. x \<in> set (b # bs)) (a # as) = filter (\<lambda>x. x \<in> set bs) (a # as)" by (intro filter_cong) auto
    then show ?thesis using 3 "1.prems" "1.IH"(3) by auto
  qed
qed simp_all

lemma removeCommonPaths_filter: "distinct xs \<Longrightarrow> removeCommonPaths xs (filter P xs) = filter (\<lambda>x. \<not> P x) xs"
proof (induction xs)
  case (Cons x xs)
  show ?case
  proof (cases "P x")
    case True
    then show ?thesis using Cons by simp
  next
    case False
    have "removeCommonPaths (x # xs) (filter P xs) = x # removeCommonPaths xs (filter P xs)"
    proof (cases "filter P xs")
      case (Cons c cs)
      then have "c \<in> set xs" by (metis filter_is_subset list.set_intros(1) subsetD)
      then show ?thesis using Cons \<open>distinct (x # xs)\<close> by auto
    qed simp
    then show ?thesis using False Cons by simp
  qed
qed simp

lemma common_paths_commute: "common_paths xs ys = common_paths ys xs"
  by (induction xs ys rule: common_paths.induct) auto

lemma groupSamePaths_spec:
  assumes "sorted xs" "distinct xs" "sorted ys" "distinct ys"
  shows "groupSamePaths xs ys = (filter (\<lambda>x. x \<notin> set ys) xs, filter (\<lambda>y. y \<notin> set xs) ys, filter (\<lambda>x. x \<in> set ys) xs)"
proof (cases "xs = [] \<or> ys = []")
  case True
  then show ?thesis by (auto simp: groupSamePaths_def)
next
  case False
  have c1: "common_paths xs ys = filter (\<lambda>x. x \<in> set ys) xs" using common_paths_filter assms by blast
  have c2: "common_paths xs ys = filter (\<lambda>y. y \<in> set xs) ys"
    using common_paths_filter [of ys xs] assms common_paths_commute [of xs ys] by simp
  have "removeCommonPaths xs (common_paths xs ys) = filter (\<lambda>x. x \<notin> set ys) xs"
    unfolding c1 using removeCommonPaths_filter [OF assms(2)] by simp
  moreover have "removeCommonPaths ys (common_paths xs ys) = filter (\<lambda>y. y \<notin> set xs) ys"
    unfolding c2 using removeCommonPaths_filter [OF assms(4)] by simp
  ultimately show ?thesis using False assms c1 by (simp add: groupSamePaths_def Let_def sort_key_id_if_sorted)
qed

section \<open>Relative paths\<close>

definition clean_abs :: "string \<Rightarrow> bool" where
  "clean_abs p \<longleftrightarrow> is_abs p \<and> path_clean p = p"

lemma strip_common_append: "strip_common xs ys = (as, bs) \<Longrightarrow> \<exists>cs. xs = cs @ as \<and> ys = cs @ bs"
proof (induction xs ys rule: strip_common.induct)
  case (1 a as' b bs')
  show ?case
  proof (cases "a = b")
    case True
    then obtain cs where "as' = cs @ as \<and> bs' = cs @ bs" using 1 by auto
    then have "a # as' = (a # cs) @ as \<and> b # bs' = (a # cs) @ bs" using True by simp
    then show ?thesis by blast
  next
    case False
    then show ?thesis using "1.prems" by simp
  qed
qed simp_all

lemma clean_comps_pop:
  "\<forall>b \<in> set bs. plain_comp b \<Longrightarrow> clean_comps True (bs @ acc) (map (\<lambda>_. ''..'') bs @ cs) = clean_comps True acc cs"
  by (induction bs) (auto simp: plain_comp_def)

lemma clean_comps_push:
  "\<forall>b \<in> set bs. plain_comp b \<Longrightarrow> clean_comps rooted acc (bs @ cs) = clean_comps rooted (rev bs @ acc) cs"
  by (induction bs arbitrary: acc) (auto simp: plain_comp_def)

lemma clean_abs_comps:
  assumes "clean_abs p"
  shows "p = slash # join [slash] (path_comps p)" "\<forall>c \<in> set (path_comps p). plain_comp c"
  using assms path_comps_norm [of p] by (auto simp: clean_abs_def path_clean_def render_path_def norm_comps_def)

lemma split_on_append: "split_on c (s @ c # t) = split_on c s @ split_on c t"
proof (induction s)
  case (Cons x s)
  then show ?case by (cases "split_on c s") auto
qed simp

lemma comps_append:
  assumes "clean_abs wd"
  shows "clean_comps True [] (split_on slash (wd @ slash # rel)) = clean_comps True (rev (path_comps wd)) (split_on slash rel)"
proof -
  define ws where "ws = path_comps wd"
  have wd: "wd = slash # join [slash] ws" and plain: "\<forall>c \<in> set ws. plain_comp c"
    using clean_abs_comps [OF assms] by (simp_all add: ws_def)
  have "split_on slash wd = [] # (if ws = [] then [[]] else ws)"
    using plain split_on_join [of ws slash] by (auto simp: wd plain_comp_def)
  then show ?thesis
    unfolding split_on_append using clean_comps_push [OF plain, of True "[]" "split_on slash rel"] by (auto simp: ws_def)
qed

lemma path_join_abs:
  assumes "clean_abs wd"
  shows "path_join [wd, rel] = slash # join [slash] (clean_comps True (rev (path_comps wd)) (split_on slash rel))"
proof -
  have "wd \<noteq> []" using assms by (auto simp: clean_abs_def is_abs_def)
  then have "path_join [wd, rel] = path_clean (wd @ slash # rel)" by (simp add: path_join_def)
  moreover have "is_abs (wd @ slash # rel)" using assms by (cases wd) (auto simp: clean_abs_def is_abs_def)
  ultimately show ?thesis by (simp add: path_clean_def path_comps_def render_path_def comps_append [OF assms])
qed

text \<open>Going back from the relative path to the absolute one.\<close>

lemma filepath_Rel_Abs:
  assumes "clean_abs wd" "clean_abs p" "filepath_Rel wd p = Some rel"
  shows "filepath_Abs (Some wd) rel = Some p"
proof (cases "wd = p")
  case True
  have "rel = ''.''" using assms(3) True by (simp add: filepath_Rel_def)
  moreover have "path_join [p, ''.''] = p"
    using path_join_abs [OF assms(2), of "''.''"] clean_abs_comps(1) [OF assms(2)] by simp
  ultimately show ?thesis using True by (simp add: filepath_Abs_def is_abs_def)
next
  case False
  obtain bs ts where st: "strip_common (path_comps wd) (path_comps p) = (bs, ts)"
    by (cases "strip_common (path_comps wd) (path_comps p)")
  define us where "us = map (\<lambda>_. ''..'') bs @ ts"
  have rel: "rel = join [slash] us"
    using assms False st by (auto simp: filepath_Rel_def clean_abs_def us_def split: if_splits)
  obtain cs where cs: "path_comps wd = cs @ bs" "path_comps p = cs @ ts" using strip_common_append [OF st] by blast
  have plain: "\<forall>b \<in> set (rev bs). plain_comp b" "\<forall>t \<in> set ts. plain_comp t"
    using clean_abs_comps(2) [OF assms(1)] clean_abs_comps(2) [OF assms(2)] unfolding cs by auto
  have us: "slash \<notin> set u \<and> u \<noteq> []" if "u \<in> set us" for u
  proof -
    have "u \<in> set ts" if "u \<noteq> ''..''" using \<open>u \<in> set us\<close> that by (auto simp: us_def)
    then have "u = ''..'' \<or> plain_comp u" using plain(2) by blast
    then show ?thesis by (elim disjE) (simp_all add: plain_comp_def)
  qed
  have ne: "us \<noteq> []"
  proof
    assume "us = []"
    then have "path_comps wd = path_comps p" using cs by (simp add: us_def)
    then show False using False clean_abs_comps(1) [OF assms(1)] clean_abs_comps(1) [OF assms(2)] by metis
  qed
  have "split_on slash rel = us" using split_on_join [OF ne, of slash] us rel by blast
  moreover have "clean_comps True (rev (cs @ bs)) us = cs @ ts"
    using clean_comps_pop [OF plain(1), of "rev cs" ts] clean_comps_plain [OF plain(2), of True "rev cs"]
    by (simp add: us_def map_replicate_const)
  ultimately have "path_join [wd, rel] = p"
    using path_join_abs [OF assms(1), of rel] clean_abs_comps(1) [OF assms(2)] cs by metis
  moreover have "\<not> is_abs rel" using is_abs_join [OF ne us] rel by simp
  ultimately show ?thesis by (simp add: filepath_Abs_def)
qed

lemma relative_path_Abs:
  assumes "clean_abs wd" "clean_abs p"
  shows "filepath_Abs (Some wd) (relative_path wd p) = Some p"
proof -
  have "filepath_Abs (Some wd) p = Some p" using assms(2) by (simp add: filepath_Abs_def clean_abs_def)
  then show ?thesis using filepath_Rel_Abs [OF assms] by (auto simp: relative_path_def split: option.splits)
qed

section \<open>Flags\<close>

lemma parse_known:
  "parse_entitlement ''network.host'' conf = Inr (conf\<lparr>ec_NetworkHost := True\<rparr>)"
  "parse_entitlement ''security.insecure'' conf = Inr (conf\<lparr>ec_SecurityInsecure := True\<rparr>)"
  "parse_entitlement ''ssh'' conf = Inr (conf\<lparr>ec_SSH := True\<rparr>)"
  "parse_entitlement ''device'' conf = Inr (conf\<lparr>ec_Devices := Some \<lparr>ed_All = True, ed_Devices = []\<rparr>\<rparr>)"
  by (simp_all add: parse_entitlement_def cut_or_def)

lemma parse_keyed:
  "parse_entitlement (''fs='' @ p) conf = Inr (conf\<lparr>ec_FSRead := ec_FSRead conf @ [p], ec_FSWrite := ec_FSWrite conf @ [p]\<rparr>)"
  "parse_entitlement (''fs.read='' @ p) conf = Inr (conf\<lparr>ec_FSRead := ec_FSRead conf @ [p]\<rparr>)"
  "parse_entitlement (''fs.write='' @ p) conf = Inr (conf\<lparr>ec_FSWrite := ec_FSWrite conf @ [p]\<rparr>)"
  "d \<noteq> [] \<Longrightarrow> parse_entitlement (''device='' @ d) conf = add_device d conf"
  by (simp_all add: parse_entitlement_def cut_or_def)

lemma parse_fs_loop:
  "rfold parse_entitlement (map (\<lambda>p. ''fs='' @ p) ps) conf =
     Inr (conf\<lparr>ec_FSRead := ec_FSRead conf @ ps, ec_FSWrite := ec_FSWrite conf @ ps\<rparr>)"
  "rfold parse_entitlement (map (\<lambda>p. ''fs.read='' @ p) ps) conf = Inr (conf\<lparr>ec_FSRead := ec_FSRead conf @ ps\<rparr>)"
  "rfold parse_entitlement (map (\<lambda>p. ''fs.write='' @ p) ps) conf = Inr (conf\<lparr>ec_FSWrite := ec_FSWrite conf @ ps\<rparr>)"
  by (induction ps arbitrary: conf) (simp_all only: list.map rfold.simps parse_keyed rbind_simps, simp_all)

text \<open>Device names as they are in a configuration: a sorted list without repetition, no name needing quotes.\<close>

definition plain_device :: "string \<Rightarrow> bool" where
  "plain_device d \<longleftrightarrow> d \<noteq> [] \<and> comma \<notin> set d \<and> dquote \<notin> set d \<and> last d \<noteq> CHR 0x0A"

definition devices_ok :: "EntitlementConf \<Rightarrow> bool" where
  "devices_ok c \<longleftrightarrow> (case ec_Devices c of None \<Rightarrow> True
     | Some d \<Rightarrow> sorted (ed_Devices d) \<and> distinct (ed_Devices d) \<and> list_all plain_device (ed_Devices d))"

lemma add_device_plain:
  "plain_device d \<Longrightarrow> add_device d conf =
     (let D = (case ec_Devices conf of None \<Rightarrow> \<lparr>ed_All = False, ed_Devices = []\<rparr> | Some D \<Rightarrow> D)
      in Inr (conf\<lparr>ec_Devices := Some (D\<lparr>ed_Devices := insort_insert d (ed_Devices D)\<rparr>)\<rparr>))"
  by (simp add: add_device_def plain_device_def csv_fields_plain split_on_no_sep)

lemma insort_insert_snoc: "sorted (xs @ [x]) \<Longrightarrow> distinct (xs @ [x]) \<Longrightarrow> insort_insert x xs = xs @ [x]"
  by (induction xs) (auto simp: insort_insert_key_def sorted_append split: if_splits)

definition devices_conf :: "string list \<Rightarrow> EntitlementsDevicesConf option" where
  "devices_conf ds = (if ds = [] then None else Some \<lparr>ed_All = False, ed_Devices = ds\<rparr>)"

lemma parse_devices:
  assumes "sorted ds" "distinct ds" "list_all plain_device ds" "ec_Devices conf = None"
  shows "rfold parse_entitlement (map (\<lambda>d. ''device='' @ d) ds) conf = Inr (conf\<lparr>ec_Devices := devices_conf ds\<rparr>)"
  using assms
proof (induction ds rule: rev_induct)
  case Nil
  then show ?case by (cases conf) (simp add: devices_conf_def)
next
  case (snoc d ds)
  have IH: "rfold parse_entitlement (map (\<lambda>d. ''device='' @ d) ds) conf = Inr (conf\<lparr>ec_Devices := devices_conf ds\<rparr>)"
    using snoc by (simp add: sorted_append)
  have d: "plain_device d" "d \<noteq> []" using snoc.prems(3) by (simp_all add: plain_device_def)
  have "insort_insert d ds = ds @ [d]" using snoc.prems by (intro insort_insert_snoc) auto
  then have "add_device d (conf\<lparr>ec_Devices := devices_conf ds\<rparr>) = Inr (conf\<lparr>ec_Devices := devices_conf (ds @ [d])\<rparr>)"
    using d by (cases "ds = []") (simp_all add: add_device_plain devices_conf_def Let_def)
  then show ?case using IH d by (simp only: map_append rfold_append rbind_simps list.map rfold.simps parse_keyed(4) [OF d(2)])
qed

lemma prompt_msgs_flags:
  "map snd (prompt_msgs c) =
     (if ec_NetworkHost c then [''network.host''] else []) @ (if ec_SecurityInsecure c then [''security.insecure''] else []) @
     (case ec_Devices c of None \<Rightarrow> [] | Some d \<Rightarrow> if ed_All d then [''device''] else map (\<lambda>d. ''device='' @ d) (ed_Devices d))"
  by (simp add: prompt_msgs_def comp_def split: option.splits)

lemma prompt_fs_flags:
  "groupSamePaths (ec_FSRead c) (ec_FSWrite c) = (ro, rw, common) \<Longrightarrow>
   map snd (prompt_fs c wd) = (if ec_SSH c then [''ssh''] else []) @ map (\<lambda>p. ''fs='' @ p) (toRelativePaths common wd) @
     map (\<lambda>p. ''fs.read='' @ p) (toRelativePaths ro wd) @ map (\<lambda>p. ''fs.write='' @ p) (toRelativePaths rw wd)"
  by (simp add: prompt_fs_def comp_def)

lemma parse_optional:
  "\<not> ec_NetworkHost conf \<Longrightarrow> rfold parse_entitlement (if b then [''network.host''] else []) conf = Inr (conf\<lparr>ec_NetworkHost := b\<rparr>)"
  "\<not> ec_SecurityInsecure conf \<Longrightarrow> rfold parse_entitlement (if b then [''security.insecure''] else []) conf = Inr (conf\<lparr>ec_SecurityInsecure := b\<rparr>)"
  "\<not> ec_SSH conf \<Longrightarrow> rfold parse_entitlement (if b then [''ssh''] else []) conf = Inr (conf\<lparr>ec_SSH := b\<rparr>)"
  by (cases conf; simp add: parse_known)+

definition granted_devices :: "EntitlementConf \<Rightarrow> EntitlementsDevicesConf option" where
  "granted_devices c = (case ec_Devices c of None \<Rightarrow> None
     | Some d \<Rightarrow> if ed_All d then Some \<lparr>ed_All = True, ed_Devices = []\<rparr> else devices_conf (ed_Devices d))"

lemma parse_device_flags:
  assumes "devices_ok c" "ec_Devices conf = None"
  shows "rfold parse_entitlement (case ec_Devices c of None \<Rightarrow> []
       | Some d \<Rightarrow> if ed_All d then [''device''] else map (\<lambda>d. ''device='' @ d) (ed_Devices d)) conf =
     Inr (conf\<lparr>ec_Devices := granted_devices c\<rparr>)"
proof (cases "ec_Devices c")
  case None
  then show ?thesis using assms(2) by (cases conf) (simp add: granted_devices_def)
next
  case (Some d)
  show ?thesis
  proof (cases "ed_All d")
    case True
    then show ?thesis using Some by (simp add: granted_devices_def parse_known)
  next
    case False
    have "rfold parse_entitlement (map (\<lambda>d. ''device='' @ d) (ed_Devices d)) conf = Inr (conf\<lparr>ec_Devices := devices_conf (ed_Devices d)\<rparr>)"
      using assms Some by (intro parse_devices) (simp_all add: devices_ok_def)
    then show ?thesis using Some False by (simp only: option.case if_False granted_devices_def)
  qed
qed

lemma parse_prompt_flags:
  assumes "devices_ok c" "groupSamePaths (ec_FSRead c) (ec_FSWrite c) = (ro, rw, common)"
  shows "ParseEntitlements (map snd (prompt_msgs c @ prompt_fs c wd)) =
    Inr (no_conf\<lparr>ec_NetworkHost := ec_NetworkHost c, ec_SecurityInsecure := ec_SecurityInsecure c, ec_Devices := granted_devices c,
      ec_SSH := ec_SSH c, ec_FSRead := map (relative_path wd) (common @ ro), ec_FSWrite := map (relative_path wd) (common @ rw)\<rparr>)"
  unfolding ParseEntitlements_def map_append prompt_msgs_flags prompt_fs_flags [OF assms(2)] rfold_append rbind_simps
  using assms(1) parse_device_flags
  by (simp add: no_conf_def parse_optional parse_device_flags parse_fs_loop) (simp add: toRelativePaths_def)



end
