(* ===== verification/MultiReader.thy ===== *)
theory MultiReader
  imports GoBase
begin

text \<open>
  The replicated input stream of a build (\<open>build/replicatedstream.go\<close>): one source read by several readers
  through a shared buffer that is filled again when every open reader has caught up.  A call of \<open>Read\<close> holds
  the mutex, so between two waits it is one step; the steps of the readers interleave in any order.
  The source is the list of results its next reads will give.
\<close>

datatype io_err = EOF | IOErr string

text \<open>\<open>rd_data\<close> and \<open>mr_log\<close> record what a reader was given and what was read from the source; the code keeps
  neither.\<close>

record reader =
  rd_offset :: nat
  rd_closed :: bool
  rd_data :: string

record SyncMultiReader =
  mr_source :: "(string \<times> io_err option) list"
  mr_buffer :: string
  mr_static :: "string option"
  mr_readers :: "reader list"
  mr_err :: "io_err option"
  mr_offset :: nat
  mr_log :: string

definition buffer_cap :: nat where
  "buffer_cap = 32 * 1024"

definition NewSyncMultiReader :: "(string \<times> io_err option) list \<Rightarrow> SyncMultiReader" where
  "NewSyncMultiReader source = \<lparr>mr_source = source, mr_buffer = [], mr_static = None, mr_readers = [], mr_err = None,
     mr_offset = 0, mr_log = []\<rparr>"

text \<open>\<open>Peek\<close> with the peek of the buffered source as a parameter, and \<open>Reset\<close>.\<close>

definition mr_Peek :: "(nat \<Rightarrow> string) \<Rightarrow> nat \<Rightarrow> SyncMultiReader \<Rightarrow> string" where
  "mr_Peek source_peek n mr =
     (case mr_static mr of Some s \<Rightarrow> drop (min n (length s)) s | None \<Rightarrow> source_peek n)"

definition mr_Reset :: "string \<Rightarrow> SyncMultiReader \<Rightarrow> SyncMultiReader" where
  "mr_Reset dt mr = mr\<lparr>mr_static := Some dt\<rparr>"

text \<open>A new reader: a reader of the static data, or the number of a new reader of the stream.\<close>

definition NewReadCloser :: "SyncMultiReader \<Rightarrow> (string + nat) \<times> SyncMultiReader" where
  "NewReadCloser mr =
     (case mr_static mr of
        Some s \<Rightarrow> (Inl s, mr)
      | None \<Rightarrow> (Inr (length (mr_readers mr)),
                 mr\<lparr>mr_readers := mr_readers mr @ [\<lparr>rd_offset = 0, rd_closed = False, rd_data = []\<rparr>]\<rparr>))"

definition mr_end :: "SyncMultiReader \<Rightarrow> nat" where
  "mr_end mr = mr_offset mr + length (mr_buffer mr)"

datatype outcome = Got string | Failed io_err | Blocked | Panicked | OutOfFuel

definition give :: "nat \<Rightarrow> string \<Rightarrow> SyncMultiReader \<Rightarrow> SyncMultiReader" where
  "give i dt mr = mr\<lparr>mr_readers := (mr_readers mr)[i :=
     (mr_readers mr ! i)\<lparr>rd_offset := rd_offset (mr_readers mr ! i) + length dt, rd_data := rd_data (mr_readers mr ! i) @ dt\<rparr>]\<rparr>"

text \<open>The end of \<open>read\<close>: the buffer is filled from the source.\<close>

definition load_buffer :: "nat \<Rightarrow> nat \<Rightarrow> SyncMultiReader \<Rightarrow> SyncMultiReader \<times> outcome" where
  "load_buffer i len mr =
     (let (dt, err, rest) = (case mr_source mr of [] \<Rightarrow> ([], Some EOF, []) | (dt, err) # rest \<Rightarrow> (dt, err, rest));
          mr = mr\<lparr>mr_offset := mr_end mr, mr_buffer := dt, mr_source := rest, mr_log := mr_log mr @ dt\<rparr>
      in case err of
           Some e \<Rightarrow> (mr\<lparr>mr_err := Some e\<rparr>, Failed e)
         | None \<Rightarrow> (give i (take len dt) mr, Got (take len dt)))"

text \<open>\<open>read\<close> from its first line or from the return of \<open>Wait\<close>; \<open>at\<close> is the end of the buffer that the call saw at its
  beginning.  The recursive call is counted.\<close>

primrec read_call :: "nat \<Rightarrow> nat \<Rightarrow> nat \<Rightarrow> nat \<Rightarrow> SyncMultiReader \<Rightarrow> SyncMultiReader \<times> outcome" where
  "read_call 0 i len at mr = (mr, OutOfFuel)"
| "read_call (Suc n) i len at mr =
     (let sr = mr_readers mr ! i
      in if rd_closed sr then (mr, Failed EOF)
         else if mr_err mr \<noteq> None \<and> rd_offset sr = mr_end mr then (mr, Failed (the (mr_err mr)))
         else if rd_offset sr < mr_offset mr \<or> mr_end mr < rd_offset sr then (mr, Panicked)
         else
           let dt = drop (rd_offset sr - mr_offset mr) (mr_buffer mr)
           in if dt \<noteq> [] then (give i (take len dt) mr, Got (take len dt))
              else if list_ex (\<lambda>r. \<not> rd_closed r \<and> rd_offset r < mr_end mr) (mr_readers mr) then (mr, Blocked)
              else if \<not> list_ex (\<lambda>r. \<not> rd_closed r) (mr_readers mr) then (mr, Failed EOF)
              else if at < mr_end mr \<or> mr_err mr \<noteq> None then read_call n i len (mr_end mr) mr
              else load_buffer i len mr)"

text \<open>The code calls itself at most once.\<close>

definition read_fuel :: nat where
  "read_fuel = 2"

definition mr_Read :: "nat \<Rightarrow> nat \<Rightarrow> SyncMultiReader \<Rightarrow> SyncMultiReader \<times> outcome" where
  "mr_Read i len mr = read_call read_fuel i len (mr_end mr) mr"

definition mr_Close :: "nat \<Rightarrow> SyncMultiReader \<Rightarrow> SyncMultiReader" where
  "mr_Close i mr = mr\<lparr>mr_readers := (mr_readers mr)[i := (mr_readers mr ! i)\<lparr>rd_closed := True\<rparr>]\<rparr>"

section \<open>Runs\<close>

text \<open>The steps of the readers.  A waiting call goes on with the end it saw before.  Readers are opened before
  the buffer is filled for the second time.\<close>

inductive mr_step :: "SyncMultiReader \<Rightarrow> SyncMultiReader \<Rightarrow> bool" where
  step_open: "mr_offset mr = 0 \<Longrightarrow> mr_step mr (snd (NewReadCloser mr))"
| step_reset: "mr_step mr (mr_Reset dt mr)"
| step_read: "i < length (mr_readers mr) \<Longrightarrow> at \<le> mr_end mr \<Longrightarrow> mr_step mr (fst (read_call read_fuel i len at mr))"
| step_close: "i < length (mr_readers mr) \<Longrightarrow> mr_step mr (mr_Close i mr)"

inductive mr_run :: "(string \<times> io_err option) list \<Rightarrow> SyncMultiReader \<Rightarrow> bool" for source where
  run_start: "mr_run source (NewSyncMultiReader source)"
| run_step: "mr_run source mr \<Longrightarrow> mr_step mr mr' \<Longrightarrow> mr_run source mr'"

text \<open>A source never gives more than it is asked for.\<close>

definition source_ok :: "(string \<times> io_err option) list \<Rightarrow> bool" where
  "source_ok source = list_all (\<lambda>(dt, _). length dt \<le> buffer_cap) source"

section \<open>The invariant\<close>

definition reader_ok :: "SyncMultiReader \<Rightarrow> reader \<Rightarrow> bool" where
  "reader_ok mr r \<longleftrightarrow> rd_offset r \<le> mr_end mr \<and> rd_data r = take (rd_offset r) (mr_log mr) \<and>
     (rd_closed r \<or> mr_offset mr \<le> rd_offset r)"

definition mr_inv :: "(string \<times> io_err option) list \<Rightarrow> SyncMultiReader \<Rightarrow> bool" where
  "mr_inv source mr \<longleftrightarrow> length (mr_log mr) = mr_end mr \<and> drop (mr_offset mr) (mr_log mr) = mr_buffer mr \<and>
     mr_log mr @ concat (map fst (mr_source mr)) = concat (map fst source) \<and>
     length (mr_buffer mr) \<le> buffer_cap \<and> source_ok (mr_source mr) \<and> list_all (reader_ok mr) (mr_readers mr)"

lemma mr_end_update [simp]:
  "mr_end (mr\<lparr>mr_readers := rs\<rparr>) = mr_end mr" "mr_end (mr\<lparr>mr_err := e\<rparr>) = mr_end mr" "mr_end (mr\<lparr>mr_static := s\<rparr>) = mr_end mr"
  "mr_end (mr\<lparr>mr_offset := k, mr_buffer := dt, mr_source := rest, mr_log := l\<rparr>) = k + length dt"
  by (simp_all add: mr_end_def)

lemma reader_ok_update [simp]:
  "reader_ok (mr\<lparr>mr_readers := rs\<rparr>) = reader_ok mr" "reader_ok (mr\<lparr>mr_err := e\<rparr>) = reader_ok mr"
  "reader_ok (mr\<lparr>mr_static := s\<rparr>) = reader_ok mr"
  by (simp_all add: reader_ok_def fun_eq_iff)

lemma mr_inv_readers:
  "mr_inv source mr \<Longrightarrow> list_all (reader_ok mr) rs \<Longrightarrow> mr_inv source (mr\<lparr>mr_readers := rs\<rparr>)"
  by (simp add: mr_inv_def)

lemma reader_nth: "mr_inv source mr \<Longrightarrow> i < length (mr_readers mr) \<Longrightarrow> reader_ok mr (mr_readers mr ! i)"
  by (simp add: mr_inv_def list_all_length)

lemma list_all_update: "list_all P xs \<Longrightarrow> P y \<Longrightarrow> list_all P (xs[i := y])"
  by (auto simp: list_all_iff dest: set_update_subset_insert [THEN subsetD])

text \<open>Giving a reader the next bytes of the log.\<close>

lemma give_inv:
  assumes inv: "mr_inv source mr" and i: "i < length (mr_readers mr)"
    and here: "mr_offset mr \<le> rd_offset (mr_readers mr ! i)"
    and dt: "dt = take len (drop (rd_offset (mr_readers mr ! i) - mr_offset mr) (mr_buffer mr))"
  shows "mr_inv source (give i dt mr)"
proof -
  define r where "r = mr_readers mr ! i"
  have r: "reader_ok mr r" using reader_nth [OF inv i] by (simp add: r_def)
  have "mr_buffer mr = drop (mr_offset mr) (mr_log mr)" using inv by (simp add: mr_inv_def)
  then have "drop (rd_offset r - mr_offset mr) (mr_buffer mr) = drop (rd_offset r) (mr_log mr)"
    using here by (simp add: r_def)
  then have dt': "dt = take len (drop (rd_offset r) (mr_log mr))" using dt by (simp add: r_def)
  have log: "length (mr_log mr) = mr_end mr" using inv by (simp add: mr_inv_def)
  have "take (rd_offset r + length dt) (mr_log mr) = take (rd_offset r) (mr_log mr) @ dt"
    by (simp add: take_add dt' min_def)
  then have "reader_ok mr (r\<lparr>rd_offset := rd_offset r + length dt, rd_data := rd_data r @ dt\<rparr>)"
    using r here log dt' by (auto simp: reader_ok_def r_def)
  then show ?thesis
    unfolding give_def r_def [symmetric] using inv by (intro mr_inv_readers) (auto simp: mr_inv_def intro: list_all_update)
qed

text \<open>Filling the buffer when every open reader has caught up.\<close>

lemma load_buffer_inv:
  assumes inv: "mr_inv source mr" and i: "i < length (mr_readers mr)"
    and up: "list_all (\<lambda>r. rd_closed r \<or> rd_offset r = mr_end mr) (mr_readers mr)"
    and i_open: "rd_offset (mr_readers mr ! i) = mr_end mr"
  shows "mr_inv source (fst (load_buffer i len mr))"
proof -
  obtain dt err rest where src: "(case mr_source mr of [] \<Rightarrow> ([], Some EOF, []) | (dt, err) # rest \<Rightarrow> (dt, err, rest)) = (dt, err, rest)"
    using prod_cases3 by blast
  define mr1 where "mr1 = mr\<lparr>mr_offset := mr_end mr, mr_buffer := dt, mr_source := rest, mr_log := mr_log mr @ dt\<rparr>"
  have dt: "length dt \<le> buffer_cap" "source_ok rest" "dt @ concat (map fst rest) = concat (map fst (mr_source mr))"
    using src inv by (auto simp: mr_inv_def source_ok_def split: list.splits prod.splits)
  have log: "length (mr_log mr) = mr_end mr" using inv by (simp add: mr_inv_def)
  have "reader_ok mr1 r" if "r \<in> set (mr_readers mr)" for r
    using that up inv log by (auto simp: mr1_def reader_ok_def mr_inv_def list_all_iff)
  then have inv1: "mr_inv source mr1"
    using inv dt log by (simp add: mr_inv_def mr1_def list_all_iff)
  have "mr_inv source (give i (take len dt) mr1)"
    using inv1 i i_open by (intro give_inv [where len = len]) (simp_all add: mr1_def)
  moreover have "mr_inv source (mr1\<lparr>mr_err := e\<rparr>)" for e using inv1 by (simp add: mr_inv_def)
  ultimately show ?thesis
    by (cases err) (simp_all add: load_buffer_def src mr1_def [symmetric] Let_def)
qed

lemma caught_up:
  assumes "mr_inv source mr" "\<not> list_ex (\<lambda>r. \<not> rd_closed r \<and> rd_offset r < mr_end mr) (mr_readers mr)"
  shows "list_all (\<lambda>r. rd_closed r \<or> rd_offset r = mr_end mr) (mr_readers mr)"
  using assms by (fastforce simp: mr_inv_def reader_ok_def list_all_iff list_ex_iff)

lemma read_call_inv:
  assumes inv: "mr_inv source mr" and i: "i < length (mr_readers mr)"
  shows "mr_inv source (fst (read_call n i len at mr))"
proof (induction n arbitrary: at)
  case (Suc n)
  define r where "r = mr_readers mr ! i"
  have r: "reader_ok mr r" using reader_nth [OF inv i] by (simp add: r_def)
  have log: "length (mr_log mr) = mr_end mr" using inv by (simp add: mr_inv_def)
  have give: "mr_inv source (give i (take len (drop (rd_offset r - mr_offset mr) (mr_buffer mr))) mr)" if "\<not> rd_offset r < mr_offset mr"
    using inv i that by (intro give_inv) (simp_all add: r_def)
  have load: "mr_inv source (fst (load_buffer i len mr))"
    if "\<not> list_ex (\<lambda>r. \<not> rd_closed r \<and> rd_offset r < mr_end mr) (mr_readers mr)" "\<not> rd_closed r"
  proof (rule load_buffer_inv [OF inv i caught_up [OF inv that(1)]])
    show "rd_offset (mr_readers mr ! i) = mr_end mr"
      using caught_up [OF inv that(1)] i that(2) by (auto simp: r_def list_all_length)
  qed
  show ?case using Suc inv give load by (simp add: Let_def r_def)
qed (simp add: inv)

lemma mr_step_inv: "mr_step mr mr' \<Longrightarrow> mr_inv source mr \<Longrightarrow> mr_inv source mr'"
proof (induction rule: mr_step.induct)
  case (step_open mr)
  have "list_all (reader_ok mr) (mr_readers mr @ [\<lparr>rd_offset = 0, rd_closed = False, rd_data = []\<rparr>])"
    using step_open by (simp add: mr_inv_def reader_ok_def)
  then show ?case using step_open mr_inv_readers by (simp add: NewReadCloser_def split: option.splits)
next
  case (step_reset mr dt)
  then show ?case by (simp add: mr_Reset_def mr_inv_def)
next
  case (step_read i mr at len)
  then show ?case using read_call_inv by blast
next
  case (step_close i mr)
  have "reader_ok mr ((mr_readers mr ! i)\<lparr>rd_closed := True\<rparr>)"
    using reader_nth [OF step_close(2,1)] by (simp add: reader_ok_def)
  then have "list_all (reader_ok mr) ((mr_readers mr)[i := (mr_readers mr ! i)\<lparr>rd_closed := True\<rparr>])"
    using step_close(2) by (intro list_all_update) (simp_all add: mr_inv_def)
  then show ?case unfolding mr_Close_def using step_close(2) mr_inv_readers by blast
qed

lemma mr_run_inv:
  assumes "mr_run source mr" "source_ok source"
  shows "mr_inv source mr"
  using assms(1)
proof (induction rule: mr_run.induct)
  case run_start
  then show ?case using assms(2) by (simp add: mr_inv_def NewSyncMultiReader_def mr_end_def)
next
  case (run_step mr mr')
  then show ?case using mr_step_inv by blast
qed

text \<open>C11 (replicated_prefix): whatever the order in which the readers read, wait and close, every reader has been given
  exactly the first bytes of the source, as many as its offset says, and has lost or repeated none.\<close>

theorem replicated_prefix:
  assumes "mr_run source mr" "source_ok source" "r \<in> set (mr_readers mr)"
  shows "rd_data r = take (rd_offset r) (concat (map fst source))"
proof -
  have inv: "mr_inv source mr" by (rule mr_run_inv [OF assms(1,2)])
  then have r: "reader_ok mr r" using assms(3) by (simp add: mr_inv_def list_all_iff)
  then have "rd_offset r \<le> length (mr_log mr)" "rd_data r = take (rd_offset r) (mr_log mr)"
    using inv by (simp_all add: reader_ok_def mr_inv_def)
  moreover have "concat (map fst source) = mr_log mr @ concat (map fst (mr_source mr))" using inv by (simp add: mr_inv_def)
  ultimately show ?thesis by simp
qed



section \<open>Examples\<close>

text \<open>Two readers, of which the first has read two bytes and the second one.\<close>

definition example_source :: "(string \<times> io_err option) list" where
  "example_source = [(''ab'', None), (''c'', None)]"

definition example_open :: SyncMultiReader where
  "example_open = snd (NewReadCloser (snd (NewReadCloser (NewSyncMultiReader example_source))))"

definition example_mr :: SyncMultiReader where
  "example_mr = fst (read_call read_fuel 1 1 2 (fst (read_call read_fuel 0 5 0 example_open)))"

lemma example_run: "mr_run example_source example_mr"
proof -
  have "mr_run example_source (snd (NewReadCloser (NewSyncMultiReader example_source)))"
    by (rule run_step [OF run_start step_open]) (simp add: NewSyncMultiReader_def)
  then have "mr_run example_source example_open"
    unfolding example_open_def by (rule run_step [OF _ step_open]) (simp add: NewReadCloser_def NewSyncMultiReader_def)
  moreover have "0 < length (mr_readers example_open)" "0 \<le> mr_end example_open" by code_simp+
  ultimately have "mr_run example_source (fst (read_call read_fuel 0 5 0 example_open))" by (blast intro: run_step step_read)
  moreover have "1 < length (mr_readers (fst (read_call read_fuel 0 5 0 example_open)))" "2 \<le> mr_end (fst (read_call read_fuel 0 5 0 example_open))"
    by code_simp+
  ultimately show ?thesis unfolding example_mr_def by (blast intro: run_step step_read)
qed

lemma example_readers:
  "mr_readers example_mr = [\<lparr>rd_offset = 2, rd_closed = False, rd_data = ''ab''\<rparr>, \<lparr>rd_offset = 1, rd_closed = False, rd_data = ''a''\<rparr>]"
  "source_ok example_source" "mr_end example_mr = 2"
proof -
  show "source_ok example_source" by (simp add: source_ok_def example_source_def buffer_cap_def)
qed code_simp+

theorem replicated_prefix_witness:
  "rd_data (mr_readers example_mr ! 1) = take 1 (concat (map fst example_source))"
  using replicated_prefix [OF example_run example_readers(2), of "mr_readers example_mr ! 1"] by (simp add: example_readers)



text \<open>A reader that is opened after the buffer was filled again panics at its first read.\<close>

lemma late_reader_panics:
  assumes "mr_static mr = None" "mr_err mr = None" "0 < mr_offset mr"
  shows "snd (mr_Read (length (mr_readers mr)) len (snd (NewReadCloser mr))) = Panicked"
  using assms by (simp add: mr_Read_def read_fuel_def numeral_2_eq_2 NewReadCloser_def Let_def)

text \<open>Bytes that the source gives together with an error are not given to the reader that asked for them.\<close>

lemma data_with_error:
  "snd (mr_Read 0 5 (snd (NewReadCloser (NewSyncMultiReader [(''ab'', Some EOF)])))) = Failed EOF"
  by code_simp

text \<open>After \<open>Reset\<close>, \<open>Peek\<close> gives what follows the first bytes instead of the first bytes.\<close>

lemma static_Peek: "mr_Peek peek n (mr_Reset dt mr) = drop n dt"
  by (simp add: mr_Peek_def mr_Reset_def min_def)

end
