(* ===== verification/WaitMap.thy ===== *)
theory WaitMap
  imports GoBase
begin

text \<open>
  The map on which readers wait for a key (\<open>util/waitmap/waitmap.go\<close>), through which the builds of a bake run hand
  their results to each other.  A channel is a number; closing one wakes the goroutines that receive from
  it.  \<open>Set\<close> and the parts of \<open>Get\<close> between lock and unlock are single steps.
\<close>

record 'v waitmap =
  wm_m :: "'v gomap"
  wm_ch :: "nat option gomap"
  wm_closed :: "nat set"
  wm_next :: nat

definition wm_New :: "'v waitmap" where
  "wm_New = \<lparr>wm_m = [], wm_ch = [], wm_closed = {}, wm_next = 0\<rparr>"

text \<open>None stands for the panic of closing a closed channel.\<close>

definition wm_Set :: "string \<Rightarrow> 'v \<Rightarrow> 'v waitmap \<Rightarrow> 'v waitmap option" where
  "wm_Set key value w =
     (let w = w\<lparr>wm_m := mset_key key value (wm_m w)\<rparr>
      in case mget (wm_ch w) key of
           Some (Some c) \<Rightarrow>
             if c \<in> wm_closed w then None
             else Some (w\<lparr>wm_closed := insert c (wm_closed w), wm_ch := mset_key key None (wm_ch w)\<rparr>)
         | _ \<Rightarrow> Some (w\<lparr>wm_ch := mset_key key None (wm_ch w)\<rparr>))"

text \<open>A call of \<open>Get\<close>: the keys that are left, the channel it waits on, and what it has found.\<close>

record 'v getter =
  g_todo :: "string list"
  g_wait :: "nat option"
  g_out :: "'v option gomap"
  g_failed :: bool

definition wm_Get :: "string list \<Rightarrow> 'v getter" where
  "wm_Get keys = \<lparr>g_todo = keys, g_wait = None, g_out = [], g_failed = False\<rparr>"

definition take_value :: "'v waitmap \<Rightarrow> 'v getter \<Rightarrow> 'v getter" where
  "take_value w g = (case g_todo g of
       [] \<Rightarrow> g
     | key # keys \<Rightarrow> g\<lparr>g_todo := keys, g_wait := None, g_out := mset_key key (mget (wm_m w) key) (g_out g)\<rparr>)"

text \<open>The next step of a call; None if it has returned or is blocked.\<close>

definition get_step :: "'v waitmap \<Rightarrow> 'v getter \<Rightarrow> ('v waitmap \<times> 'v getter) option" where
  "get_step w g =
     (case g_todo g of
        [] \<Rightarrow> None
      | key # _ \<Rightarrow>
          (case g_wait g of
             Some c \<Rightarrow> if c \<in> wm_closed w then Some (w, take_value w g) else None
           | None \<Rightarrow>
               (case mget (wm_ch w) key of
                  None \<Rightarrow> Some (w\<lparr>wm_ch := mset_key key (Some (wm_next w)) (wm_ch w), wm_next := wm_next w + 1\<rparr>,
                              g\<lparr>g_wait := Some (wm_next w)\<rparr>)
                | Some (Some c) \<Rightarrow> Some (w, g\<lparr>g_wait := Some c\<rparr>)
                | Some None \<Rightarrow> Some (w, take_value w g))))"

text \<open>The context of a waiting call is done.\<close>

definition get_cancel :: "'v getter \<Rightarrow> 'v getter" where
  "get_cancel g = g\<lparr>g_todo := [], g_wait := None, g_failed := True\<rparr>"

fun run_getter :: "nat \<Rightarrow> 'v waitmap \<Rightarrow> 'v getter \<Rightarrow> 'v waitmap \<times> 'v getter" where
  "run_getter 0 w g = (w, g)"
| "run_getter (Suc n) w g = (case get_step w g of None \<Rightarrow> (w, g) | Some (w, g) \<Rightarrow> run_getter n w g)"

section \<open>Runs\<close>

inductive wm_step :: "'v waitmap \<times> 'v getter list \<Rightarrow> 'v waitmap \<times> 'v getter list \<Rightarrow> bool" where
  step_set: "wm_Set key v w = Some w' \<Longrightarrow> wm_step (w, gs) (w', gs)"
| step_call: "wm_step (w, gs) (w, gs @ [wm_Get keys])"
| step_get: "i < length gs \<Longrightarrow> get_step w (gs ! i) = Some (w', g') \<Longrightarrow> wm_step (w, gs) (w', gs[i := g'])"
| step_cancel: "i < length gs \<Longrightarrow> g_wait (gs ! i) \<noteq> None \<Longrightarrow> wm_step (w, gs) (w, gs[i := get_cancel (gs ! i)])"

inductive wm_reachable :: "'v waitmap \<times> 'v getter list \<Rightarrow> bool" where
  reachable_start: "wm_reachable (wm_New, [])"
| reachable_step: "wm_reachable s \<Longrightarrow> wm_step s s' \<Longrightarrow> wm_reachable s'"

section \<open>The invariant\<close>

text \<open>An open channel belongs to one key that is not set; a set key has the nil channel.\<close>

definition map_ok :: "'v waitmap \<Rightarrow> bool" where
  "map_ok w \<longleftrightarrow> (\<forall>k. mget (wm_m w) k \<noteq> None \<longleftrightarrow> mget (wm_ch w) k = Some None) \<and>
     (\<forall>k c. mget (wm_ch w) k = Some (Some c) \<longrightarrow> c \<notin> wm_closed w \<and> c < wm_next w) \<and>
     (\<forall>k k' c. mget (wm_ch w) k = Some (Some c) \<longrightarrow> mget (wm_ch w) k' = Some (Some c) \<longrightarrow> k = k') \<and>
     (\<forall>c \<in> wm_closed w. c < wm_next w)"

text \<open>A waiting call waits on the channel of its next key, or on one that is closed because the key was set.\<close>

definition getter_ok :: "'v waitmap \<Rightarrow> 'v getter \<Rightarrow> bool" where
  "getter_ok w g \<longleftrightarrow> (\<forall>c. g_wait g = Some c \<longrightarrow> (\<exists>key keys. g_todo g = key # keys \<and>
     (mget (wm_ch w) key = Some (Some c) \<or> (c \<in> wm_closed w \<and> mget (wm_m w) key \<noteq> None))))"

definition wm_inv :: "'v waitmap \<times> 'v getter list \<Rightarrow> bool" where
  "wm_inv = (\<lambda>(w, gs). map_ok w \<and> (\<forall>g \<in> set gs. getter_ok w g))"

lemma wm_Set_Some: "map_ok w \<Longrightarrow> \<exists>w'. wm_Set key v w = Some w'"
  by (auto simp: wm_Set_def map_ok_def Let_def split: option.splits)

lemma wm_Set_ok:
  assumes "map_ok w" "wm_Set key v w = Some w'"
  shows "map_ok w'" "getter_ok w g \<Longrightarrow> getter_ok w' g"
proof -
  define closed where "closed = (case mget (wm_ch w) key of Some (Some c) \<Rightarrow> insert c (wm_closed w) | _ \<Rightarrow> wm_closed w)"
  have w': "w' = w\<lparr>wm_m := mset_key key v (wm_m w), wm_closed := closed, wm_ch := mset_key key None (wm_ch w)\<rparr>"
    using assms(2) by (cases w) (auto simp: wm_Set_def Let_def closed_def split: option.splits if_splits)
  have cl: "c \<in> closed \<longleftrightarrow> c \<in> wm_closed w \<or> mget (wm_ch w) key = Some (Some c)" for c
    by (auto simp: closed_def split: option.splits)
  show "map_ok w'"
    using assms(1) unfolding map_ok_def w' by (auto simp: mget_set cl)
  show "getter_ok w g \<Longrightarrow> getter_ok w' g"
    unfolding getter_ok_def w' by (fastforce simp: mget_set cl)
qed

lemma get_step_ok:
  assumes "map_ok w" "getter_ok w g" "get_step w g = Some (w', g')"
  shows "map_ok w'" "getter_ok w' g'" "getter_ok w h \<Longrightarrow> getter_ok w' h"
proof -
  obtain key keys where todo: "g_todo g = key # keys" using assms(3) by (auto simp: get_step_def split: list.splits)
  consider (take) "w' = w" "g' = take_value w g"
    | (wait) c where "mget (wm_ch w) key = Some (Some c)" "w' = w" "g' = g\<lparr>g_wait := Some c\<rparr>"
    | (new) "mget (wm_ch w) key = None" "g' = g\<lparr>g_wait := Some (wm_next w)\<rparr>"
        "w' = w\<lparr>wm_ch := mset_key key (Some (wm_next w)) (wm_ch w), wm_next := wm_next w + 1\<rparr>"
  proof (cases "g_wait g")
    case (Some c)
    then have "w' = w \<and> g' = take_value w g" using assms(3) by (auto simp: get_step_def todo split: if_splits)
    then show ?thesis using take by blast
  next
    case idle: None
    show ?thesis
    proof (cases "mget (wm_ch w) key")
      case None
      then have "g' = g\<lparr>g_wait := Some (wm_next w)\<rparr> \<and>
          w' = w\<lparr>wm_ch := mset_key key (Some (wm_next w)) (wm_ch w), wm_next := wm_next w + 1\<rparr>"
        using assms(3) idle by (auto simp: get_step_def todo)
      then show ?thesis using new None by blast
    next
      case (Some ch)
      then have "w' = w \<and> g' = (case ch of None \<Rightarrow> take_value w g | Some c \<Rightarrow> g\<lparr>g_wait := Some c\<rparr>)"
        using assms(3) idle by (auto simp: get_step_def todo split: option.splits)
      then show ?thesis using take wait Some by (cases ch) simp_all
    qed
  qed
  then have "map_ok w' \<and> getter_ok w' g' \<and> (getter_ok w h \<longrightarrow> getter_ok w' h)"
  proof cases
    case take
    then show ?thesis using assms(1) by (simp add: getter_ok_def take_value_def todo)
  next
    case wait
    then show ?thesis using assms(1) by (simp add: getter_ok_def todo)
  next
    case new
    have "map_ok w'"
      using assms(1) new(1) unfolding map_ok_def new(3) by (auto simp: mget_set less_Suc_eq)
    moreover have "getter_ok w' g'" by (simp add: getter_ok_def new(2,3) todo mget_set)
    moreover have "getter_ok w' h" if "getter_ok w h"
      using that new(1) unfolding getter_ok_def new(3) by (fastforce simp: mget_set)
    ultimately show ?thesis by blast
  qed
  then show "map_ok w'" "getter_ok w' g'" "getter_ok w h \<Longrightarrow> getter_ok w' h" by blast+
qed

lemma wm_step_inv: "wm_step s s' \<Longrightarrow> wm_inv s \<Longrightarrow> wm_inv s'"
proof (induction rule: wm_step.induct)
  case (step_set key v w w' gs)
  then show ?case using wm_Set_ok [OF _ step_set(1)] unfolding wm_inv_def by blast
next
  case (step_call w gs keys)
  then show ?case by (auto simp: wm_inv_def getter_ok_def wm_Get_def)
next
  case (step_get i gs w w' g')
  have ok: "map_ok w" "getter_ok w (gs ! i)" using step_get by (auto simp: wm_inv_def)
  note new = get_step_ok [OF ok step_get(2)]
  have "getter_ok w' g" if "g \<in> set (gs[i := g'])" for g
    using set_update_subset_insert [of gs i g'] that new(2,3) step_get(3) by (auto simp: wm_inv_def)
  then show ?case using new(1) by (simp add: wm_inv_def)
next
  case (step_cancel i gs w)
  have "getter_ok w g" if "g \<in> set (gs[i := get_cancel (gs ! i)])" for g
  proof -
    have "g = get_cancel (gs ! i) \<or> g \<in> set gs" using set_update_subset_insert [of gs i "get_cancel (gs ! i)"] that by blast
    moreover have "getter_ok w (get_cancel (gs ! i))" by (simp add: getter_ok_def get_cancel_def)
    ultimately show ?thesis using step_cancel(3) by (auto simp: wm_inv_def)
  qed
  then show ?case using step_cancel(3) by (simp add: wm_inv_def)
qed

lemma wm_reachable_inv: "wm_reachable s \<Longrightarrow> wm_inv s"
proof (induction rule: wm_reachable.induct)
  case reachable_start
  then show ?case by (simp add: wm_inv_def map_ok_def wm_New_def)
next
  case (reachable_step s s')
  then show ?case using wm_step_inv by blast
qed

text \<open>A call whose next key is set takes its value with its next step.\<close>

lemma get_step_set:
  assumes "map_ok w" "getter_ok w g" "g_todo g = key # keys" "mget (wm_m w) key \<noteq> None"
  shows "get_step w g = Some (w, take_value w g)"
proof -
  have ch: "mget (wm_ch w) key = Some None" using assms(1,4) by (auto simp: map_ok_def)
  show ?thesis
  proof (cases "g_wait g")
    case None
    then show ?thesis using assms(3) ch by (simp add: get_step_def)
  next
    case (Some c)
    then have "c \<in> wm_closed w" using assms(2,3) ch by (auto simp: getter_ok_def)
    then show ?thesis using Some assms(3) by (simp add: get_step_def)
  qed
qed

lemma run_getter_set:
  assumes "map_ok w" "getter_ok w g" "list_all (\<lambda>k. mget (wm_m w) k \<noteq> None) (g_todo g)"
  shows "run_getter (length (g_todo g)) w g = (w, if g_todo g = [] then g
    else g\<lparr>g_todo := [], g_wait := None, g_out := fold (\<lambda>k. mset_key k (mget (wm_m w) k)) (g_todo g) (g_out g)\<rparr>)"
  using assms(2,3)
proof (induction "g_todo g" arbitrary: g)
  case (Cons key keys)
  have todo: "g_todo g = key # keys" using Cons.hyps(2) by simp
  have step: "get_step w g = Some (w, take_value w g)"
    using get_step_set [OF assms(1) Cons.prems(1) todo] Cons.prems(2) todo by simp
  define g1 where "g1 = take_value w g"
  have g1: "g_todo g1 = keys" "g_wait g1 = None" "g_out g1 = mset_key key (mget (wm_m w) key) (g_out g)" "g_failed g1 = g_failed g"
    by (simp_all add: g1_def take_value_def todo)
  have ok: "getter_ok w g1" using g1(2) by (simp add: getter_ok_def)
  have "run_getter (length (g_todo g1)) w g1 = (w, if g_todo g1 = [] then g1
      else g1\<lparr>g_todo := [], g_wait := None, g_out := fold (\<lambda>k. mset_key k (mget (wm_m w) k)) (g_todo g1) (g_out g1)\<rparr>)"
    using Cons.hyps(1) [OF g1(1) [symmetric] ok] Cons.prems(2) todo g1(1) by simp
  then show ?case
    using step g1 unfolding todo g1_def [symmetric] by (cases g1; cases g; cases keys) (auto simp: g1_def)
qed (simp add: list_all_iff)

text \<open>C14 (Get_returns): in every state that calls of \<open>Set\<close> and \<open>Get\<close> can reach, in any order, \<open>Set\<close> does not close a channel twice,
  and a call of \<open>Get\<close> whose keys are all set returns after as many steps of its own as it has keys, whatever
  it was waiting for, with the values that are in the map.\<close>

theorem Get_returns:
  assumes "wm_reachable (w, gs)" "g \<in> set gs" "g_todo g \<noteq> []" "list_all (\<lambda>k. mget (wm_m w) k \<noteq> None) (g_todo g)"
  shows "wm_Set key v w \<noteq> None \<and> run_getter (length (g_todo g)) w g =
    (w, g\<lparr>g_todo := [], g_wait := None, g_out := fold (\<lambda>k. mset_key k (mget (wm_m w) k)) (g_todo g) (g_out g)\<rparr>)"
proof -
  have "map_ok w" "getter_ok w g" using wm_reachable_inv [OF assms(1)] assms(2) by (simp_all add: wm_inv_def)
  then show ?thesis using run_getter_set [of w g] assms(3,4) wm_Set_Some [of w key v] by simp
qed

text \<open>A call that waits for a key, which is then set.\<close>

definition example_call :: "string getter" where
  "example_call = (wm_Get [''a''])\<lparr>g_wait := Some 0\<rparr>"

definition example_map :: "string waitmap" where
  "example_map = \<lparr>wm_m = [(''a'', ''x'')], wm_ch = [(''a'', None)], wm_closed = {0}, wm_next = 1\<rparr>"

lemma example_reachable: "wm_reachable (example_map, [example_call])"
proof -
  define w1 :: "string waitmap" where "w1 = \<lparr>wm_m = [], wm_ch = [(''a'', Some 0)], wm_closed = {}, wm_next = 1\<rparr>"
  have "wm_reachable (wm_New, [] @ [wm_Get [''a'']] :: string getter list)"
    by (rule reachable_step [OF reachable_start step_call])
  moreover have "get_step wm_New ([wm_Get [''a'']] ! 0) = Some (w1, example_call)"
    by (simp add: get_step_def wm_New_def wm_Get_def w1_def example_call_def)
  then have "wm_step (wm_New, [wm_Get [''a'']]) (w1, [wm_Get [''a'']] [0 := example_call])" by (rule step_get [rotated]) simp
  ultimately have "wm_reachable (w1, [example_call])" using reachable_step [of "(wm_New, [wm_Get [''a'']])" "(w1, [example_call])"] by simp
  moreover have "wm_Set ''a'' ''x'' w1 = Some example_map" by (simp add: wm_Set_def w1_def example_map_def mget_def)
  then have "wm_step (w1, [example_call]) (example_map, [example_call])" by (rule step_set)
  ultimately show ?thesis by (rule reachable_step)
qed

theorem Get_returns_witness:
  "run_getter 1 example_map example_call =
     (example_map, example_call\<lparr>g_todo := [], g_wait := None, g_out := [(''a'', Some ''x'')]\<rparr>)"
  using Get_returns [OF example_reachable, of example_call]
  by (simp add: example_call_def example_map_def wm_Get_def mget_def)

end
