(* ===== verification/NodeGroup.thy ===== *)
theory NodeGroup
  imports Platform
begin

text \<open>
  Builder instances and their nodes (\<open>store/nodegroup.go\<close>, and the name check of
  \<open>store/util.go\<close>).  An operation on a group changes it in place and may return an error, so its
  model returns the group after the call together with the error.  \<open>ng_wf\<close> is what the operations
  keep: node names and endpoints are distinct, and no platform is served by two nodes.  A Go run-time
  panic is the error \<open>NgPanicNilMap\<close>.  Reading the BuildKit configuration from disk is the parameter
  \<open>loadConfigFiles\<close>.
\<close>

record node =
  n_Name :: string
  n_Endpoint :: string
  n_Platforms :: "platform list"
  n_DriverOpts :: "string gomap option"
  n_BuildkitdFlags :: "string list option"
  n_Files :: "bytes gomap option"

record nodegroup =
  ng_Name :: string
  ng_Driver :: string
  ng_Nodes :: "node list"
  ng_Dynamic :: bool
  ng_DockerContext :: bool
  ng_LastActivity :: "string option"

datatype ng_error =
    NgDynamicLeave
  | NgDynamicUpdate
  | NgNodeNotFound string string
  | NgLastNode
  | NgNotFoundAppend string
  | NgPlatform platform_error
  | NgConfigFile string
  | NgInvalidName string
  | NgDuplicateEndpoint string
  | NgPanicNilMap

section \<open>Names\<close>

definition is_name_char :: "char \<Rightarrow> bool" where
  "is_name_char c \<longleftrightarrow> is_letter c \<or> is_digit c \<or> c \<in> set ''.-_''"

definition namePattern :: "string \<Rightarrow> bool" where
  "namePattern s = (case s of [] \<Rightarrow> False | c # cs \<Rightarrow> is_letter c \<and> list_all is_name_char cs)"

definition ValidateName :: "string \<Rightarrow> string option" where
  "ValidateName s = (if namePattern s then Some (to_lower s) else None)"

section \<open>Operations\<close>

fun find_index :: "('a \<Rightarrow> bool) \<Rightarrow> 'a list \<Rightarrow> nat option" where
  "find_index P [] = None"
| "find_index P (x # xs) = (if P x then Some 0 else map_option Suc (find_index P xs))"

text \<open>The index \<open>-1\<close> of the code is \<^term>\<open>None\<close>.\<close>

definition findNode :: "nodegroup \<Rightarrow> string \<Rightarrow> nat option" where
  "findNode ng name = find_index (\<lambda>n. n_Name n = name) (ng_Nodes ng)"

definition Leave :: "nodegroup \<Rightarrow> string \<Rightarrow> nodegroup \<times> ng_error option" where
  "Leave ng name =
     (if ng_Dynamic ng then (ng, Some NgDynamicLeave)
      else case findNode ng name of
        None \<Rightarrow> (ng, Some (NgNodeNotFound name (ng_Name ng)))
      | Some i \<Rightarrow>
          if length (ng_Nodes ng) = 1 then (ng, Some NgLastNode)
          else (ng\<lparr>ng_Nodes := take i (ng_Nodes ng) @ drop (i + 1) (ng_Nodes ng)\<rparr>, None))"

definition filterPlatforms :: "platform list \<Rightarrow> string set \<Rightarrow> platform list" where
  "filterPlatforms ps m = filter (\<lambda>p. Format p \<notin> m) ps"

definition validateDuplicates :: "nodegroup \<Rightarrow> string \<Rightarrow> nat \<Rightarrow> nodegroup \<times> ng_error option" where
  "validateDuplicates ng ep idx =
     (if 1 < length (filter (\<lambda>n. n_Endpoint n = ep) (ng_Nodes ng))
      then (ng, Some (NgDuplicateEndpoint ep))
      else
        let m = Format ` set (n_Platforms (ng_Nodes ng ! idx));
            nodes = map (\<lambda>(i, n). if i = idx then n
                                   else n\<lparr>n_Platforms := filterPlatforms (n_Platforms n) m\<rparr>)
                        (enumerate 0 (ng_Nodes ng))
        in (ng\<lparr>ng_Nodes := nodes\<rparr>, None))"

text \<open>The search for a free name stops: a name taken by a node of the group has one index only.\<close>

definition taken :: "nodegroup \<Rightarrow> nat \<Rightarrow> nat set" where
  "taken ng i = {j. i \<le> j \<and> ng_Name ng @ itoa j \<in> n_Name ` set (ng_Nodes ng)}"

lemma finite_taken: "finite (taken ng i)"
proof -
  have "inj_on (\<lambda>j. ng_Name ng @ itoa j) (taken ng i)"
    by (auto simp: inj_on_def)
  moreover have "(\<lambda>j. ng_Name ng @ itoa j) ` taken ng i \<subseteq> n_Name ` set (ng_Nodes ng)"
    by (auto simp: taken_def)
  ultimately show ?thesis
    by (metis finite_imageD finite_imageI finite_set finite_subset)
qed

lemma find_index_None_iff: "find_index P xs = None \<longleftrightarrow> (\<forall>x \<in> set xs. \<not> P x)"
  by (induction xs) auto

lemma find_index_Some: "find_index P xs = Some i \<Longrightarrow> i < length xs \<and> P (xs ! i) \<and> (\<forall>j < i. \<not> P (xs ! j))"
proof (induction xs arbitrary: i)
  case Nil
  then show ?case by simp
next
  case (Cons x xs)
  then show ?case
    by (auto split: if_splits simp: less_Suc_eq_0_disj)
qed

lemma findNode_None_iff: "findNode ng name = None \<longleftrightarrow> name \<notin> n_Name ` set (ng_Nodes ng)"
  by (auto simp: findNode_def find_index_None_iff)

lemma findNode_Some: "findNode ng name = Some i \<Longrightarrow> i < length (ng_Nodes ng) \<and> n_Name (ng_Nodes ng ! i) = name"
  by (auto simp: findNode_def dest: find_index_Some)

function nextNodeName_from :: "nodegroup \<Rightarrow> nat \<Rightarrow> string" where
  "nextNodeName_from ng i =
     (let name = ng_Name ng @ itoa i
      in if findNode ng name \<noteq> None then nextNodeName_from ng (i + 1) else name)"
  by pat_completeness auto
termination
proof (relation "measure (\<lambda>(ng, i). card (taken ng i))")
  fix ng :: nodegroup and i :: nat and x :: string
  assume "x = ng_Name ng @ itoa i" and "findNode ng x \<noteq> None"
  then have i: "i \<in> taken ng i" by (auto simp: taken_def findNode_None_iff)
  have "i \<notin> taken ng (i + 1)" and "taken ng (i + 1) \<subseteq> taken ng i"
    by (auto simp: taken_def)
  with i have "taken ng (i + 1) \<subset> taken ng i" by blast
  then show "((ng, i + 1), ng, i) \<in> measure (\<lambda>(ng, i). card (taken ng i))"
    using psubset_card_mono [OF finite_taken [of ng i]] by simp
qed simp

declare nextNodeName_from.simps [simp del]

definition nextNodeName :: "nodegroup \<Rightarrow> string" where
  "nextNodeName ng = nextNodeName_from ng 0"

text \<open>The settings an update writes into an existing node; \<^term>\<open>None\<close> is the panic of a write to a
  nil map.\<close>

definition update_node ::
  "node \<Rightarrow> string \<Rightarrow> string list \<Rightarrow> platform list \<Rightarrow> bool \<Rightarrow> string list option \<Rightarrow> string \<Rightarrow>
   bytes gomap \<Rightarrow> string gomap option \<Rightarrow> node option" where
  "update_node n endpoint platforms pp endpointsSet buildkitdFlags cfgFile files dopts =
     (let n = (if endpointsSet then n\<lparr>n_Endpoint := endpoint\<rparr> else n);
          n = (if platforms \<noteq> [] then n\<lparr>n_Platforms := pp\<rparr> else n);
          n = (if buildkitdFlags \<noteq> None then n\<lparr>n_BuildkitdFlags := buildkitdFlags\<rparr> else n);
          n = (if dopts \<noteq> None then n\<lparr>n_DriverOpts := dopts\<rparr> else n)
      in if cfgFile = [] \<or> files = [] then Some n
         else case n_Files n of
           None \<Rightarrow> None
         | Some fs \<Rightarrow> Some (n\<lparr>n_Files := Some (mput_all files fs)\<rparr>))"

definition Update ::
  "host \<Rightarrow> (string \<Rightarrow> string + bytes gomap) \<Rightarrow> nodegroup \<Rightarrow> string \<Rightarrow> string \<Rightarrow> string list \<Rightarrow> bool \<Rightarrow> bool \<Rightarrow>
   string list option \<Rightarrow> string \<Rightarrow> string gomap option \<Rightarrow> nodegroup \<times> ng_error option" where
  "Update h loadConfigFiles ng name endpoint platforms endpointsSet actionAppend buildkitdFlags cfgFile dopts =
     (if ng_Dynamic ng then (ng, Some NgDynamicUpdate)
      else
        let i = findNode ng name
        in if i = None \<and> \<not> actionAppend \<and> 0 < length (ng_Nodes ng)
           then (ng, Some (NgNotFoundAppend name))
           else
             (case platforms_Parse h platforms of
                Inl e \<Rightarrow> (ng, Some (NgPlatform e))
              | Inr pp \<Rightarrow>
                  (case (if cfgFile = [] then Inr [] else loadConfigFiles cfgFile) of
                     Inl e \<Rightarrow> (ng, Some (NgConfigFile e))
                   | Inr files \<Rightarrow>
                       (case i of
                          Some i \<Rightarrow>
                            (case update_node (ng_Nodes ng ! i) endpoint platforms pp endpointsSet
                                    buildkitdFlags cfgFile files dopts of
                               None \<Rightarrow> (ng, Some NgPanicNilMap)
                             | Some n \<Rightarrow>
                                 validateDuplicates (ng\<lparr>ng_Nodes := (ng_Nodes ng)[i := n]\<rparr>) endpoint i)
                        | None \<Rightarrow>
                            (case ValidateName (if name = [] then nextNodeName ng else name) of
                               None \<Rightarrow> (ng, Some (NgInvalidName (if name = [] then nextNodeName ng else name)))
                             | Some name' \<Rightarrow>
                                 let n = \<lparr>n_Name = name', n_Endpoint = endpoint, n_Platforms = pp,
                                          n_DriverOpts = dopts, n_BuildkitdFlags = buildkitdFlags,
                                          n_Files = (if cfgFile = [] then None else Some files)\<rparr>
                                 in validateDuplicates (ng\<lparr>ng_Nodes := ng_Nodes ng @ [n]\<rparr>) endpoint
                                      (length (ng_Nodes ng)))))))"

text \<open>The builtin \<open>copy\<close> writes as many elements as both slices hold.\<close>

definition go_copy :: "'a list \<Rightarrow> 'a list \<Rightarrow> 'a list" where
  "go_copy dst src = take (min (length dst) (length src)) src @ drop (min (length dst) (length src)) dst"

definition go_range :: "'v gomap option \<Rightarrow> 'v gomap" where
  "go_range m = (case m of None \<Rightarrow> [] | Some m \<Rightarrow> m)"

definition node_Copy :: "node \<Rightarrow> node" where
  "node_Copy n =
     \<lparr>n_Name = n_Name n, n_Endpoint = n_Endpoint n, n_Platforms = go_copy [] (n_Platforms n),
      n_DriverOpts = Some (mput_all (go_range (n_DriverOpts n)) []),
      n_BuildkitdFlags = Some (go_copy [] (case n_BuildkitdFlags n of None \<Rightarrow> [] | Some fs \<Rightarrow> fs)),
      n_Files = Some (mput_all (map (\<lambda>(k, v). (k, go_copy [] v)) (go_range (n_Files n))) [])\<rparr>"

definition nodegroup_Copy :: "nodegroup \<Rightarrow> nodegroup" where
  "nodegroup_Copy ng =
     \<lparr>ng_Name = ng_Name ng, ng_Driver = ng_Driver ng, ng_Nodes = map node_Copy (ng_Nodes ng),
      ng_Dynamic = ng_Dynamic ng, ng_DockerContext = False, ng_LastActivity = None\<rparr>"

section \<open>The invariant\<close>

definition formats :: "node \<Rightarrow> string set" where
  "formats n = Format ` set (n_Platforms n)"

definition ng_wf :: "nodegroup \<Rightarrow> bool" where
  "ng_wf ng \<longleftrightarrow> (\<forall>i < length (ng_Nodes ng). \<forall>j < length (ng_Nodes ng). i \<noteq> j \<longrightarrow>
     n_Name (ng_Nodes ng ! i) \<noteq> n_Name (ng_Nodes ng ! j) \<and>
     n_Endpoint (ng_Nodes ng ! i) \<noteq> n_Endpoint (ng_Nodes ng ! j) \<and>
     formats (ng_Nodes ng ! i) \<inter> formats (ng_Nodes ng ! j) = {})"

lemma ng_wfD:
  assumes "ng_wf ng" "i < length (ng_Nodes ng)" "j < length (ng_Nodes ng)" "i \<noteq> j"
  shows "n_Name (ng_Nodes ng ! i) \<noteq> n_Name (ng_Nodes ng ! j)"
    and "n_Endpoint (ng_Nodes ng ! i) \<noteq> n_Endpoint (ng_Nodes ng ! j)"
    and "formats (ng_Nodes ng ! i) \<inter> formats (ng_Nodes ng ! j) = {}"
  using assms by (auto simp: ng_wf_def)

lemma formats_filter: "formats (n\<lparr>n_Platforms := filterPlatforms (n_Platforms n) m\<rparr>) = formats n - m"
  by (auto simp: formats_def filterPlatforms_def)

text \<open>What a successful duplicate check leaves behind.\<close>

lemma validateDuplicates_ok:
  assumes "validateDuplicates ng ep idx = (ng', None)" and "idx < length (ng_Nodes ng)"
  shows "length (ng_Nodes ng') = length (ng_Nodes ng)"
    and "\<And>i. i < length (ng_Nodes ng) \<Longrightarrow> ng_Nodes ng' ! i =
           (if i = idx then ng_Nodes ng ! i
            else (ng_Nodes ng ! i)\<lparr>n_Platforms := filterPlatforms (n_Platforms (ng_Nodes ng ! i))
                                     (formats (ng_Nodes ng ! idx))\<rparr>)"
    and "length (filter (\<lambda>n. n_Endpoint n = ep) (ng_Nodes ng)) \<le> 1"
    and "ng' = ng\<lparr>ng_Nodes := ng_Nodes ng'\<rparr>"
  using assms
  by (auto simp: validateDuplicates_def Let_def formats_def nth_enumerate_eq split: if_splits)

lemma validateDuplicates_wf:
  assumes ok: "validateDuplicates ng ep idx = (ng', None)" and idx: "idx < length (ng_Nodes ng)"
    and names: "\<And>i j. i < length (ng_Nodes ng) \<Longrightarrow> j < length (ng_Nodes ng) \<Longrightarrow> i \<noteq> j \<Longrightarrow>
      n_Name (ng_Nodes ng ! i) \<noteq> n_Name (ng_Nodes ng ! j)"
    and eps: "\<And>i j. i < length (ng_Nodes ng) \<Longrightarrow> j < length (ng_Nodes ng) \<Longrightarrow> i \<noteq> j \<Longrightarrow>
      n_Endpoint (ng_Nodes ng ! i) = n_Endpoint (ng_Nodes ng ! j) \<Longrightarrow> n_Endpoint (ng_Nodes ng ! i) = ep"
    and disj: "\<And>i j. i < length (ng_Nodes ng) \<Longrightarrow> j < length (ng_Nodes ng) \<Longrightarrow> i \<noteq> j \<Longrightarrow>
      i \<noteq> idx \<Longrightarrow> j \<noteq> idx \<Longrightarrow> formats (ng_Nodes ng ! i) \<inter> formats (ng_Nodes ng ! j) = {}"
  shows "ng_wf ng'"
  unfolding ng_wf_def
proof (intro allI impI)
  note v = validateDuplicates_ok [OF ok idx]
  fix i j
  assume "i < length (ng_Nodes ng')" and "j < length (ng_Nodes ng')" and ij: "i \<noteq> j"
  then have i: "i < length (ng_Nodes ng)" and j: "j < length (ng_Nodes ng)" using v(1) by simp_all
  have same: "n_Name (ng_Nodes ng' ! k) = n_Name (ng_Nodes ng ! k)"
    "n_Endpoint (ng_Nodes ng' ! k) = n_Endpoint (ng_Nodes ng ! k)"
    "formats (ng_Nodes ng' ! k) =
       (if k = idx then formats (ng_Nodes ng ! k)
        else formats (ng_Nodes ng ! k) - formats (ng_Nodes ng ! idx))"
    if "k < length (ng_Nodes ng)" for k
    using v(2) [OF that] by (simp_all add: formats_filter)
  have "n_Endpoint (ng_Nodes ng ! i) \<noteq> n_Endpoint (ng_Nodes ng ! j)"
  proof
    assume e: "n_Endpoint (ng_Nodes ng ! i) = n_Endpoint (ng_Nodes ng ! j)"
    then have "n_Endpoint (ng_Nodes ng ! i) = ep" using eps [OF i j ij] by simp
    with e have "1 < length (filter (\<lambda>n. n_Endpoint n = ep) (ng_Nodes ng))"
      using two_hits [OF i j ij] by simp
    with v(3) show False by simp
  qed
  then show "n_Name (ng_Nodes ng' ! i) \<noteq> n_Name (ng_Nodes ng' ! j) \<and>
     n_Endpoint (ng_Nodes ng' ! i) \<noteq> n_Endpoint (ng_Nodes ng' ! j) \<and>
     formats (ng_Nodes ng' ! i) \<inter> formats (ng_Nodes ng' ! j) = {}"
    using same [OF i] same [OF j] ij names [OF i j ij] disj [OF i j ij] by auto
qed

section \<open>Names of new nodes\<close>

lemma nextNodeName_from_fresh:
  "\<exists>j. nextNodeName_from ng i = ng_Name ng @ itoa j \<and> findNode ng (ng_Name ng @ itoa j) = None"
proof (induction ng i rule: nextNodeName_from.induct)
  case (1 ng i)
  show ?case
  proof (cases "findNode ng (ng_Name ng @ itoa i) = None")
    case True
    then show ?thesis by (auto simp: nextNodeName_from.simps [of ng i])
  next
    case False
    with 1 show ?thesis by (simp add: nextNodeName_from.simps [of ng i] Let_def)
  qed
qed

lemma nextNodeName_fresh:
  "\<exists>j. nextNodeName ng = ng_Name ng @ itoa j \<and> findNode ng (nextNodeName ng) = None"
  using nextNodeName_from_fresh [of ng 0] by (auto simp: nextNodeName_def)

lemma ValidateName_lower: "ValidateName s = Some t \<Longrightarrow> t = to_lower s"
  by (simp add: ValidateName_def split: if_splits)

section \<open>Update\<close>

lemma update_node_fields:
  assumes "update_node n endpoint platforms pp endpointsSet flags cfgFile files dopts = Some n'"
  shows "n_Name n' = n_Name n"
    and "n_Endpoint n' = (if endpointsSet then endpoint else n_Endpoint n)"
    and "n_Platforms n' = (if platforms \<noteq> [] then pp else n_Platforms n)"
    and "n_BuildkitdFlags n' = (if flags \<noteq> None then flags else n_BuildkitdFlags n)"
    and "n_DriverOpts n' = (if dopts \<noteq> None then dopts else n_DriverOpts n)"
    and "n_Files n' = (if cfgFile = [] then n_Files n else
           if files = [] then n_Files n else map_option (mput_all files) (n_Files n))"
  using assms by (auto simp: update_node_def Let_def split: if_splits option.splits)

text \<open>A successful update either changes one node in place or appends one; the duplicate check
  runs on the result.\<close>

lemma Update_ok_cases:
  assumes "Update h load ng name endpoint platforms endpointsSet actionAppend flags cfgFile dopts = (ng', None)"
  obtains (existing) i n pp files where
      "findNode ng name = Some i" "platforms_Parse h platforms = Inr pp"
      "update_node (ng_Nodes ng ! i) endpoint platforms pp endpointsSet flags cfgFile files dopts = Some n"
      "validateDuplicates (ng\<lparr>ng_Nodes := (ng_Nodes ng)[i := n]\<rparr>) endpoint i = (ng', None)"
  | (fresh) n pp where
      "findNode ng name = None" "actionAppend \<or> ng_Nodes ng = []"
      "ValidateName (if name = [] then nextNodeName ng else name) = Some (n_Name n)"
      "platforms_Parse h platforms = Inr pp" "n_Platforms n = pp" "n_Endpoint n = endpoint"
      "validateDuplicates (ng\<lparr>ng_Nodes := ng_Nodes ng @ [n]\<rparr>) endpoint (length (ng_Nodes ng)) = (ng', None)"
proof (cases "findNode ng name")
  case None
  let ?name = "if name = [] then nextNodeName ng else name"
  let ?n = "\<lambda>name' pp files. \<lparr>n_Name = name', n_Endpoint = endpoint, n_Platforms = pp,
    n_DriverOpts = dopts, n_BuildkitdFlags = flags, n_Files = (if cfgFile = [] then None else Some files)\<rparr>"
  from None assms have ap: "actionAppend \<or> ng_Nodes ng = []"
    by (auto simp: Update_def Let_def split: if_splits)
  from None assms obtain pp files name' where *: "platforms_Parse h platforms = Inr pp"
      "ValidateName ?name = Some name'"
      "validateDuplicates (ng\<lparr>ng_Nodes := ng_Nodes ng @ [?n name' pp files]\<rparr>) endpoint
         (length (ng_Nodes ng)) = (ng', None)"
    unfolding Update_def Let_def by (simp only: split: if_splits sum.splits option.splits) auto
  show ?thesis
    by (rule fresh [OF None ap _ *(1) _ _ *(3)]) (use * in simp_all)
next
  case (Some i)
  then show ?thesis
    using assms existing by (auto simp: Update_def Let_def split: if_splits sum.splits option.splits)
qed

lemma Update_wf_existing:
  assumes wf: "ng_wf ng" and i: "findNode ng name = Some i"
    and n: "n_Name n = n_Name (ng_Nodes ng ! i)"
      "n_Endpoint n = endpoint \<or> n_Endpoint n = n_Endpoint (ng_Nodes ng ! i)"
    and v: "validateDuplicates (ng\<lparr>ng_Nodes := (ng_Nodes ng)[i := n]\<rparr>) endpoint i = (ng', None)"
  shows "ng_wf ng'"
proof (rule validateDuplicates_wf [OF v])
  have il: "i < length (ng_Nodes ng)" using findNode_Some [OF i] by simp
  then show "i < length (ng_Nodes (ng\<lparr>ng_Nodes := (ng_Nodes ng)[i := n]\<rparr>))" by simp
  fix j k
  assume "j < length (ng_Nodes (ng\<lparr>ng_Nodes := (ng_Nodes ng)[i := n]\<rparr>))"
    and "k < length (ng_Nodes (ng\<lparr>ng_Nodes := (ng_Nodes ng)[i := n]\<rparr>))" and jk: "j \<noteq> k"
  then have jl: "j < length (ng_Nodes ng)" and kl: "k < length (ng_Nodes ng)" by simp_all
  note w = ng_wfD [OF wf jl kl jk]
  show "n_Name (ng_Nodes (ng\<lparr>ng_Nodes := (ng_Nodes ng)[i := n]\<rparr>) ! j) \<noteq>
        n_Name (ng_Nodes (ng\<lparr>ng_Nodes := (ng_Nodes ng)[i := n]\<rparr>) ! k)"
    using w(1) n(1) il by (auto simp: nth_list_update)
  show "n_Endpoint (ng_Nodes (ng\<lparr>ng_Nodes := (ng_Nodes ng)[i := n]\<rparr>) ! j) = endpoint"
    if "n_Endpoint (ng_Nodes (ng\<lparr>ng_Nodes := (ng_Nodes ng)[i := n]\<rparr>) ! j) =
        n_Endpoint (ng_Nodes (ng\<lparr>ng_Nodes := (ng_Nodes ng)[i := n]\<rparr>) ! k)"
    using that w(2) n(2) jl kl jk by (cases "j = i"; cases "k = i") auto
  show "formats (ng_Nodes (ng\<lparr>ng_Nodes := (ng_Nodes ng)[i := n]\<rparr>) ! j) \<inter>
        formats (ng_Nodes (ng\<lparr>ng_Nodes := (ng_Nodes ng)[i := n]\<rparr>) ! k) = {}"
    if "j \<noteq> i" "k \<noteq> i"
    using that w(3) by simp
qed

lemma Update_wf_fresh:
  assumes wf: "ng_wf ng" and n: "n_Name n \<notin> n_Name ` set (ng_Nodes ng)" "n_Endpoint n = endpoint"
    and v: "validateDuplicates (ng\<lparr>ng_Nodes := ng_Nodes ng @ [n]\<rparr>) endpoint (length (ng_Nodes ng)) = (ng', None)"
  shows "ng_wf ng'"
proof (rule validateDuplicates_wf [OF v])
  show "length (ng_Nodes ng) < length (ng_Nodes (ng\<lparr>ng_Nodes := ng_Nodes ng @ [n]\<rparr>))" by simp
  fix j k
  assume jl: "j < length (ng_Nodes (ng\<lparr>ng_Nodes := ng_Nodes ng @ [n]\<rparr>))"
    and kl: "k < length (ng_Nodes (ng\<lparr>ng_Nodes := ng_Nodes ng @ [n]\<rparr>))" and jk: "j \<noteq> k"
  have name: "n_Name (ng_Nodes ng ! l) \<noteq> n_Name n" if "l < length (ng_Nodes ng)" for l
    using n(1) that by (metis image_eqI nth_mem)
  note w = ng_wfD [OF wf _ _ jk]
  show "n_Name (ng_Nodes (ng\<lparr>ng_Nodes := ng_Nodes ng @ [n]\<rparr>) ! j) \<noteq>
        n_Name (ng_Nodes (ng\<lparr>ng_Nodes := ng_Nodes ng @ [n]\<rparr>) ! k)"
    using jl kl jk w(1) name [of j] name [of k] by (auto simp: nth_append less_Suc_eq)
  show "n_Endpoint (ng_Nodes (ng\<lparr>ng_Nodes := ng_Nodes ng @ [n]\<rparr>) ! j) = endpoint"
    if "n_Endpoint (ng_Nodes (ng\<lparr>ng_Nodes := ng_Nodes ng @ [n]\<rparr>) ! j) =
        n_Endpoint (ng_Nodes (ng\<lparr>ng_Nodes := ng_Nodes ng @ [n]\<rparr>) ! k)"
    using that jl kl jk w(2) n(2) by (auto simp: nth_append less_Suc_eq)
  show "formats (ng_Nodes (ng\<lparr>ng_Nodes := ng_Nodes ng @ [n]\<rparr>) ! j) \<inter>
        formats (ng_Nodes (ng\<lparr>ng_Nodes := ng_Nodes ng @ [n]\<rparr>) ! k) = {}"
    if "j \<noteq> length (ng_Nodes ng)" "k \<noteq> length (ng_Nodes ng)"
    using that jl kl w(3) by (auto simp: nth_append)
qed

section \<open>Leave\<close>

lemma Leave_ok:
  assumes "Leave ng name = (ng', None)"
  obtains i where "findNode ng name = Some i" "length (ng_Nodes ng) \<noteq> 1" "\<not> ng_Dynamic ng"
    "ng' = ng\<lparr>ng_Nodes := take i (ng_Nodes ng) @ drop (i + 1) (ng_Nodes ng)\<rparr>"
  using assms by (auto simp: Leave_def split: if_splits option.splits)

lemma nth_delete:
  assumes "i < length xs" "j < length xs - 1"
  shows "(take i xs @ drop (i + 1) xs) ! j = xs ! (if j < i then j else j + 1)"
  using assms by (auto simp: nth_append min_def)

lemma filter_all_but:
  assumes "i < length xs" "\<not> P (xs ! i)" "\<And>j. j < length xs \<Longrightarrow> j \<noteq> i \<Longrightarrow> P (xs ! j)"
  shows "filter P xs = take i xs @ drop (i + 1) xs"
  using assms
proof (induction xs arbitrary: i)
  case Nil
  then show ?case by simp
next
  case (Cons x xs)
  show ?case
  proof (cases i)
    case 0
    have "filter P xs = xs"
      using Cons.prems(3) [of "Suc _"] 0 by (force simp: filter_id_conv in_set_conv_nth)
    with 0 Cons.prems(2) show ?thesis by simp
  next
    case (Suc k)
    then have "filter P xs = take k xs @ drop (k + 1) xs"
      using Cons.prems(1,2) Cons.prems(3) [of "Suc _"] by (intro Cons.IH) auto
    with Suc Cons.prems(3) [of 0] show ?thesis by simp
  qed
qed

lemma Leave_wf:
  assumes "ng_wf ng" and "Leave ng name = (ng', None)"
  shows "ng_wf ng'"
proof (rule Leave_ok [OF assms(2)])
  fix i
  assume i: "findNode ng name = Some i"
    and ng': "ng' = ng\<lparr>ng_Nodes := take i (ng_Nodes ng) @ drop (i + 1) (ng_Nodes ng)\<rparr>"
  have il: "i < length (ng_Nodes ng)" using findNode_Some [OF i] by simp
  have len: "length (ng_Nodes ng') = length (ng_Nodes ng) - 1" using ng' il by simp
  show ?thesis
    unfolding ng_wf_def
  proof (intro allI impI)
    fix j k
    assume "j < length (ng_Nodes ng')" "k < length (ng_Nodes ng')" and jk: "j \<noteq> k"
    then have j: "j < length (ng_Nodes ng) - 1" and k: "k < length (ng_Nodes ng) - 1" using len by simp_all
    let ?s = "\<lambda>j. if j < i then j else j + 1"
    have "?s j < length (ng_Nodes ng)" "?s k < length (ng_Nodes ng)" "?s j \<noteq> ?s k"
      using j k jk by (auto split: if_splits)
    from ng_wfD [OF assms(1) this]
    show "n_Name (ng_Nodes ng' ! j) \<noteq> n_Name (ng_Nodes ng' ! k) \<and>
      n_Endpoint (ng_Nodes ng' ! j) \<noteq> n_Endpoint (ng_Nodes ng' ! k) \<and>
      formats (ng_Nodes ng' ! j) \<inter> formats (ng_Nodes ng' ! k) = {}"
      using nth_delete [OF il j] nth_delete [OF il k] ng' by simp
  qed
qed

lemma Leave_filter:
  assumes "ng_wf ng" and "Leave ng name = (ng', None)"
  shows "ng_wf ng' \<and> ng_Nodes ng' = filter (\<lambda>n. n_Name n \<noteq> name) (ng_Nodes ng) \<and>
    ng' = ng\<lparr>ng_Nodes := ng_Nodes ng'\<rparr> \<and>
    Suc (length (ng_Nodes ng')) = length (ng_Nodes ng) \<and> ng_Nodes ng' \<noteq> []"
proof (rule Leave_ok [OF assms(2)])
  fix i
  assume i: "findNode ng name = Some i" and one: "length (ng_Nodes ng) \<noteq> 1"
    and ng': "ng' = ng\<lparr>ng_Nodes := take i (ng_Nodes ng) @ drop (i + 1) (ng_Nodes ng)\<rparr>"
  note il = findNode_Some [OF i]
  have other: "n_Name (ng_Nodes ng ! j) \<noteq> name" if "j < length (ng_Nodes ng)" "j \<noteq> i" for j
    using ng_wfD(1) [OF assms(1), of j i] that il by simp
  have f: "filter (\<lambda>n. n_Name n \<noteq> name) (ng_Nodes ng) = take i (ng_Nodes ng) @ drop (i + 1) (ng_Nodes ng)"
    using il other by (intro filter_all_but) auto
  have "length (ng_Nodes ng') = length (ng_Nodes ng) - 1" using ng' il by simp
  moreover have "1 < length (ng_Nodes ng)" using il one by (cases "ng_Nodes ng") auto
  ultimately show ?thesis
    using f ng' Leave_wf [OF assms] by auto
qed

section \<open>Properties\<close>

text \<open>Example values for the witnesses: a Linux host and a group of two nodes.\<close>

definition demo_host :: host where
  "demo_host = \<lparr>h_GOOS = ''linux'', h_GOARCH = ''amd64'', h_cpuVariant = []\<rparr>"

definition linux_platform :: "string \<Rightarrow> string \<Rightarrow> platform" where
  "linux_platform arch variant = zero_platform\<lparr>p_OS := ''linux'', p_Architecture := arch, p_Variant := variant\<rparr>"

definition demo_node :: "string \<Rightarrow> string \<Rightarrow> platform list \<Rightarrow> node" where
  "demo_node name ep ps = \<lparr>n_Name = name, n_Endpoint = ep, n_Platforms = ps, n_DriverOpts = None,
     n_BuildkitdFlags = None, n_Files = None\<rparr>"

definition demo_ng :: nodegroup where
  "demo_ng = \<lparr>ng_Name = ''foo'', ng_Driver = ''docker-container'',
     ng_Nodes = [demo_node ''foo0'' ''ep0'' [linux_platform ''amd64'' []],
                 demo_node ''foo1'' ''ep1'' [linux_platform ''arm64'' [], linux_platform ''arm'' ''v7'']],
     ng_Dynamic = False, ng_DockerContext = False, ng_LastActivity = None\<rparr>"

definition demo_load :: "string \<Rightarrow> string + bytes gomap" where
  "demo_load f = Inr [(''buildkitd.toml'', ''debug = true'')]"

lemmas demo_defs = demo_host_def linux_platform_def demo_node_def demo_ng_def demo_load_def



text \<open>C2 (Update_node_serves): after a successful \<open>Update\<close> with platforms, the named node serves
  exactly the parsed platforms, and no other node serves any of them.\<close>

theorem Update_node_serves:
  assumes "Update h load ng name endpoint platforms endpointsSet actionAppend flags cfgFile dopts = (ng', None)"
    and "platforms \<noteq> []"
  shows "\<exists>i pp. i < length (ng_Nodes ng') \<and> platforms_Parse h platforms = Inr pp \<and>
    (findNode ng name = Some i \<or> findNode ng name = None \<and> i = length (ng_Nodes ng)) \<and>
    n_Platforms (ng_Nodes ng' ! i) = pp \<and>
    (\<forall>j < length (ng_Nodes ng'). j \<noteq> i \<longrightarrow> formats (ng_Nodes ng' ! j) \<inter> Format ` set pp = {})"
  using assms(1)
proof (cases rule: Update_ok_cases)
  case (existing i n pp files)
  have i: "i < length (ng_Nodes ng)" using findNode_Some [OF existing(1)] by simp
  then have idx: "i < length (ng_Nodes (ng\<lparr>ng_Nodes := (ng_Nodes ng)[i := n]\<rparr>))" by simp
  have "n_Platforms n = pp" using update_node_fields(3) [OF existing(3)] assms(2) by simp
  then show ?thesis
    using validateDuplicates_ok [OF existing(4) idx] i existing(1,2)
    by (intro exI [of _ i] exI [of _ pp]) (auto simp: formats_filter, auto simp: formats_def)
next
  case (fresh n pp)
  let ?i = "length (ng_Nodes ng)"
  have idx: "?i < length (ng_Nodes (ng\<lparr>ng_Nodes := ng_Nodes ng @ [n]\<rparr>))" by simp
  show ?thesis
    using validateDuplicates_ok [OF fresh(7) idx] fresh(1,4,5)
    by (intro exI [of _ ?i] exI [of _ pp]) (auto simp: formats_filter, auto simp: formats_def)
qed

theorem Update_node_serves_witness:
  "\<exists>ng'. Update demo_host demo_load demo_ng ''foo0'' ''ep2'' [''linux/arm''] True False None [] None = (ng', None) \<and>
     (\<exists>i pp. i < length (ng_Nodes ng') \<and> n_Platforms (ng_Nodes ng' ! i) = pp \<and>
       platforms_Parse demo_host [''linux/arm''] = Inr pp)"
proof -
  have "snd (Update demo_host demo_load demo_ng ''foo0'' ''ep2'' [''linux/arm''] True False None [] None) = None"
    by code_simp
  then obtain ng' where u: "Update demo_host demo_load demo_ng ''foo0'' ''ep2'' [''linux/arm''] True False None [] None = (ng', None)"
    by (metis prod.collapse)
  from Update_node_serves [OF this] show ?thesis using u by auto
qed

text \<open>C3 (Leave_removes_node): a successful \<open>Leave\<close> of a well-formed group removes the named node and
  nothing else, keeps the order of the others and never empties the group.\<close>

theorem Leave_removes_node:
  assumes "ng_wf ng" and "Leave ng name = (ng', None)"
  shows "ng_wf ng' \<and> ng_Nodes ng' = filter (\<lambda>n. n_Name n \<noteq> name) (ng_Nodes ng) \<and>
    ng' = ng\<lparr>ng_Nodes := ng_Nodes ng'\<rparr> \<and>
    Suc (length (ng_Nodes ng')) = length (ng_Nodes ng) \<and> ng_Nodes ng' \<noteq> []"
  by (rule Leave_filter [OF assms])

theorem Leave_removes_node_witness:
  "Leave demo_ng ''foo0'' = (demo_ng\<lparr>ng_Nodes := tl (ng_Nodes demo_ng)\<rparr>, None) \<and>
   ng_wf (demo_ng\<lparr>ng_Nodes := tl (ng_Nodes demo_ng)\<rparr>)"
proof -
  have l: "Leave demo_ng ''foo0'' = (demo_ng\<lparr>ng_Nodes := tl (ng_Nodes demo_ng)\<rparr>, None)" and wf: "ng_wf demo_ng"
    by code_simp+
  show ?thesis using Leave_removes_node [OF wf l] l by blast
qed

text \<open>The search for a free node name ends, and its result is the group's name
  followed by the least number whose name no node of the group has.\<close>

theorem nextNodeName_least:
  "\<exists>j. nextNodeName ng = ng_Name ng @ itoa j \<and> findNode ng (nextNodeName ng) = None \<and>
     (\<lambda>k. ng_Name ng @ itoa k) ` {..<j} \<subseteq> n_Name ` set (ng_Nodes ng)"
proof -
  have "\<exists>j \<ge> i. nextNodeName_from ng i = ng_Name ng @ itoa j \<and> findNode ng (nextNodeName_from ng i) = None \<and>
     (\<forall>k. i \<le> k \<and> k < j \<longrightarrow> ng_Name ng @ itoa k \<in> n_Name ` set (ng_Nodes ng))" for i
  proof (induction ng i rule: nextNodeName_from.induct)
    case (1 ng i)
    show ?case
    proof (cases "findNode ng (ng_Name ng @ itoa i) = None")
      case True
      then show ?thesis by (intro exI [of _ i]) (auto simp: nextNodeName_from.simps [of ng i])
    next
      case False
      with 1 obtain j where j: "i + 1 \<le> j" "nextNodeName_from ng (i + 1) = ng_Name ng @ itoa j"
        "findNode ng (nextNodeName_from ng (i + 1)) = None"
        "\<forall>k. i + 1 \<le> k \<and> k < j \<longrightarrow> ng_Name ng @ itoa k \<in> n_Name ` set (ng_Nodes ng)"
        by blast
      have "ng_Name ng @ itoa k \<in> n_Name ` set (ng_Nodes ng)" if "i \<le> k" "k < j" for k
        using that j(4) False by (cases "k = i") (auto simp: findNode_None_iff)
      with False j show ?thesis
        by (intro exI [of _ j]) (auto simp: nextNodeName_from.simps [of ng i] Let_def)
    qed
  qed
  from this [of 0] show ?thesis by (auto simp: nextNodeName_def)
qed

text \<open>Updating a node of a non-dynamic group panics, with a write to a nil map,
  exactly when a configuration file that holds something is given and the node was created without
  one; the arguments are otherwise valid.\<close>

theorem Update_panics_iff:
  assumes "\<not> ng_Dynamic ng" and "findNode ng name = Some i"
    and "platforms_Parse h platforms = Inr pp" and "cfgFile \<noteq> []" and "load cfgFile = Inr files"
  shows "snd (Update h load ng name endpoint platforms endpointsSet actionAppend flags cfgFile dopts) = Some NgPanicNilMap
    \<longleftrightarrow> files \<noteq> [] \<and> n_Files (ng_Nodes ng ! i) = None"
proof -
  have "snd (validateDuplicates g ep k) \<noteq> Some NgPanicNilMap" for g ep k
    by (simp add: validateDuplicates_def Let_def)
  then show ?thesis
    using assms by (auto simp: Update_def update_node_def Let_def split: option.splits)
qed

theorem Update_panics_iff_witness:
  "snd (Update demo_host demo_load demo_ng ''foo0'' [] [] False False None ''buildkitd.toml'' None) = Some NgPanicNilMap"
proof -
  have "\<not> ng_Dynamic demo_ng" "findNode demo_ng ''foo0'' = Some 0" "platforms_Parse demo_host [] = Inr []"
    "''buildkitd.toml'' \<noteq> []" "demo_load ''buildkitd.toml'' = Inr [(''buildkitd.toml'', ''debug = true'')]"
    "n_Files (ng_Nodes demo_ng ! 0) = None"
    by (simp_all add: demo_defs findNode_def)
  then show ?thesis
    using Update_panics_iff [of demo_ng "''foo0''" 0 demo_host "[]" "[]" "''buildkitd.toml''" demo_load] by simp
qed

text \<open>\<open>Copy\<close> of a group keeps its name, driver, dynamic flag and, for each
  node, the name, the endpoint and the driver options; every node of the copy has no platforms, no
  flags and only empty files, because \<open>copy\<close> into a slice of length zero copies nothing.\<close>

theorem nodegroup_Copy_loses:
  assumes "\<forall>n \<in> set (ng_Nodes ng). \<forall>m. n_DriverOpts n = Some m \<longrightarrow> wf_map m"
  shows "ng_Name (nodegroup_Copy ng) = ng_Name ng \<and> ng_Driver (nodegroup_Copy ng) = ng_Driver ng \<and>
    ng_Dynamic (nodegroup_Copy ng) = ng_Dynamic ng \<and>
    map n_Name (ng_Nodes (nodegroup_Copy ng)) = map n_Name (ng_Nodes ng) \<and>
    map n_Endpoint (ng_Nodes (nodegroup_Copy ng)) = map n_Endpoint (ng_Nodes ng) \<and>
    map n_DriverOpts (ng_Nodes (nodegroup_Copy ng)) = map (\<lambda>n. Some (go_range (n_DriverOpts n))) (ng_Nodes ng) \<and>
    (\<forall>n \<in> set (ng_Nodes (nodegroup_Copy ng)). n_Platforms n = [] \<and> n_BuildkitdFlags n = Some [] \<and>
       (\<exists>fs. n_Files n = Some fs \<and> (\<forall>k v. mget fs k = Some v \<longrightarrow> v = [])))"
proof -
  have "mput_all (go_range (n_DriverOpts n)) [] = go_range (n_DriverOpts n)" if "n \<in> set (ng_Nodes ng)" for n
    using assms that by (cases "n_DriverOpts n") (auto simp: go_range_def mput_all_Nil_id)
  moreover have "mget (mput_all (map (\<lambda>(k, v). (k, go_copy [] v)) m) []) k = Some v \<Longrightarrow> v = []" for m :: "bytes gomap" and k v
    by (auto simp: mget_mput_all go_copy_def split: option.splits dest!: map_of_SomeD)
  ultimately show ?thesis
    by (auto simp: nodegroup_Copy_def node_Copy_def go_copy_def)
qed

theorem nodegroup_Copy_loses_witness:
  "n_Platforms (ng_Nodes demo_ng ! 0) = [linux_platform ''amd64'' []] \<and>
   n_Platforms (ng_Nodes (nodegroup_Copy demo_ng) ! 0) = []"
proof -
  have "\<forall>n \<in> set (ng_Nodes demo_ng). \<forall>m. n_DriverOpts n = Some m \<longrightarrow> wf_map m"
    by (simp add: demo_defs)
  from nodegroup_Copy_loses [OF this]
  have *: "map n_Name (ng_Nodes (nodegroup_Copy demo_ng)) = map n_Name (ng_Nodes demo_ng)"
    "\<forall>n \<in> set (ng_Nodes (nodegroup_Copy demo_ng)). n_Platforms n = []"
    by blast+
  have "0 < length (ng_Nodes (nodegroup_Copy demo_ng))"
    using arg_cong [OF *(1), of length] by (simp add: demo_defs)
  with *(2) show ?thesis by (simp add: demo_defs)
qed

text \<open>A mixed-case name is looked up as given and stored in lower case, so appending \<open>Foo0\<close> to a group
  that has \<open>foo0\<close> succeeds and gives two nodes of that name: the lower-case hypothesis of the
  invariant theorem is needed.\<close>

lemma Update_mixed_case_duplicates:
  "\<exists>ng'. Update demo_host demo_load demo_ng ''Foo0'' ''ep2'' [] True True None [] None = (ng', None) \<and>
     map n_Name (ng_Nodes ng') = [''foo0'', ''foo1'', ''foo0'']"
proof -
  have "snd (Update demo_host demo_load demo_ng ''Foo0'' ''ep2'' [] True True None [] None) = None"
    "map n_Name (ng_Nodes (fst (Update demo_host demo_load demo_ng ''Foo0'' ''ep2'' [] True True None [] None)))
       = [''foo0'', ''foo1'', ''foo0'']"
    by code_simp+
  then show ?thesis by (metis prod.collapse)
qed

end
