(* ===== verification/DriverBase.thy ===== *)
theory DriverBase
  imports NodeGroup "HOL-Library.Multiset"
begin

text \<open>
  The driver interface and the registry of driver factories (\<open>driver/driver.go\<close>, \<open>driver/manager.go\<close>,
  \<open>driver/remote/util/endpoint.go\<close>).  A driver acts on the outside world; it is a record of functions on
  a world, and \<open>Boot\<close> threads the world through them.  The handle of a driver keeps the result of the
  first attempt to make a client, as \<open>sync.Once\<close> does.  A factory is the record of what the registry asks
  of it; the registry is the list of factories in the order in which the range over the map meets them,
  so a statement about every registry is one about every iteration order.
\<close>

datatype Status = Inactive | Starting | Running | Stopping | Stopped

record Info =
  i_Status :: Status
  i_DynamicNodes :: "node list"

datatype drv_error =
    ErrNotRunning
  | ErrNotConnecting
  | DrOther string
  | DrBootAttempts
  | DrNoDrivers
  | DrPanicIndex
  | DrNoInstances string
  | DrNotFound string
  | DrBuilderName string
  | DrNoDockerAPI string
  | DrNoFiles string
  | DrNoFlags string
  | DrOption string string
  | DrValue string string
  | DrMissingTls "string list"
  | DrUrl string

definition status_String :: "Status \<Rightarrow> string" where
  "status_String s = (case s of Inactive \<Rightarrow> ''inactive'' | Starting \<Rightarrow> ''starting'' | Running \<Rightarrow> ''running''
     | Stopping \<Rightarrow> ''stopping'' | Stopped \<Rightarrow> ''stopped'')"

section \<open>Names\<close>

abbreviation builderNamePrefix :: string where "builderNamePrefix \<equiv> ''buildx_buildkit_''"

definition BuilderName :: "string \<Rightarrow> string" where
  "BuilderName name = builderNamePrefix @ name"

definition ParseBuilderName :: "string \<Rightarrow> drv_error + string" where
  "ParseBuilderName name =
     (if \<not> has_prefix builderNamePrefix name then Inl (DrBuilderName name)
      else Inr (trim_prefix builderNamePrefix name))"

section \<open>Booting\<close>

record ('w, 'c) driver_ops =
  d_Info :: "'w \<Rightarrow> (drv_error + Info) \<times> 'w"
  d_Bootstrap :: "'w \<Rightarrow> drv_error option \<times> 'w"
  d_Client :: "'w \<Rightarrow> (drv_error + 'c) \<times> 'w"

text \<open>The handle: \<^term>\<open>None\<close> before the first call of \<open>Client\<close>, its result afterwards.\<close>

type_synonym 'c handle = "(drv_error + 'c) option"

definition handle_Client :: "('w, 'c) driver_ops \<Rightarrow> 'c handle \<Rightarrow> 'w \<Rightarrow> (drv_error + 'c) \<times> 'c handle \<times> 'w" where
  "handle_Client ops h w =
     (case h of
        Some r \<Rightarrow> (r, h, w)
      | None \<Rightarrow> (let (r, w) = d_Client ops w in (r, Some r, w)))"

function boot_loop :: "('w, 'c) driver_ops \<Rightarrow> nat \<Rightarrow> 'c handle \<Rightarrow> 'w \<Rightarrow> (drv_error + 'c) \<times> 'c handle \<times> 'w" where
  "boot_loop ops tries h w =
     (case d_Info ops w of
        (Inl e, w) \<Rightarrow> (Inl e, h, w)
      | (Inr info, w) \<Rightarrow>
          (let attempt = tries + 1
           in if i_Status info \<noteq> Running \<and> 2 < attempt then (Inl DrBootAttempts, h, w)
              else
                case (if i_Status info \<noteq> Running then d_Bootstrap ops w else (None, w)) of
                  (Some e, w) \<Rightarrow> (Inl e, h, w)
                | (None, w) \<Rightarrow>
                    (case handle_Client ops h w of
                       (Inl e, h, w) \<Rightarrow>
                         if e = ErrNotRunning \<and> attempt \<le> 2 then boot_loop ops attempt h w else (Inl e, h, w)
                     | (Inr c, h, w) \<Rightarrow> (Inr c, h, w))))"
  by pat_completeness auto
termination
  by (relation "measure (\<lambda>(ops, tries, h, w). 3 - tries)") auto

declare boot_loop.simps [simp del]

definition Boot :: "('w, 'c) driver_ops \<Rightarrow> 'c handle \<Rightarrow> 'w \<Rightarrow> (drv_error + 'c) \<times> 'c handle \<times> 'w" where
  "Boot ops h w = boot_loop ops 0 h w"

section \<open>The registry\<close>

record InitConfig =
  ic_Name :: string
  ic_EndpointAddr :: string
  ic_DockerAPI :: bool
  ic_BuildkitdFlags :: "string list option"
  ic_Files :: "bytes gomap option"
  ic_DriverOpts :: "string gomap option"
  ic_Platforms :: "platform list"
  ic_ContextPathHash :: string

text \<open>The client of the docker engine is present or nil; what \<open>Priority\<close> finds out through it is part of
  the function.\<close>

record 'd Factory =
  f_Name :: string
  f_Priority :: "string \<Rightarrow> bool \<Rightarrow> int"
  f_New :: "InitConfig \<Rightarrow> drv_error + 'd"
  f_AllowsInstances :: bool

definition Register :: "'d Factory \<Rightarrow> 'd Factory gomap \<Rightarrow> 'd Factory gomap" where
  "Register f drivers = mset_key (f_Name f) f drivers"

definition GetDefaultFactory :: "'d Factory list \<Rightarrow> string \<Rightarrow> bool \<Rightarrow> bool \<Rightarrow> drv_error + 'd Factory" where
  "GetDefaultFactory drivers ep api instanceRequired =
     (if drivers = [] then Inl DrNoDrivers
      else
        let dd = map (\<lambda>f. (f, f_Priority f ep api)) (filter (\<lambda>f. \<not> (instanceRequired \<and> \<not> f_AllowsInstances f)) drivers)
        in case sort_key snd dd of [] \<Rightarrow> Inl DrPanicIndex | d # _ \<Rightarrow> Inr (fst d))"

fun GetFactory :: "'d Factory list \<Rightarrow> string \<Rightarrow> bool \<Rightarrow> drv_error + 'd Factory" where
  "GetFactory [] name instanceRequired = Inl (DrNotFound name)"
| "GetFactory (f # fs) name instanceRequired =
     (if f_Name f = name then
        (if instanceRequired \<and> \<not> f_AllowsInstances f then Inl (DrNoInstances name) else Inr f)
      else GetFactory fs name instanceRequired)"

definition GetDriver :: "'d Factory list \<Rightarrow> 'd Factory option \<Rightarrow> InitConfig \<Rightarrow> drv_error + 'd" where
  "GetDriver drivers f cfg =
     rbind (case f of None \<Rightarrow> GetDefaultFactory drivers (ic_EndpointAddr cfg) (ic_DockerAPI cfg) False | Some f \<Rightarrow> Inr f)
       (\<lambda>f. f_New f cfg)"

definition GetFactories :: "'d Factory list \<Rightarrow> bool \<Rightarrow> 'd Factory list" where
  "GetFactories drivers instanceRequired =
     sort_key f_Name (filter (\<lambda>f. \<not> (instanceRequired \<and> \<not> f_AllowsInstances f)) drivers)"

section \<open>Endpoints of remote instances\<close>

text \<open>The scheme part of \<open>url.Parse\<close>: a letter, then letters, digits and \<open>+-.\<close> up to the first colon.
  Text without such a part has no scheme; a colon in front is an error.  Schemes are lower-cased.\<close>

fun getScheme :: "bool \<Rightarrow> string \<Rightarrow> string option \<times> string" where
  "getScheme first [] = (None, [])"
| "getScheme first (c # s) =
     (if is_letter c then (let (r, t) = getScheme False s in (map_option ((#) c) r, t))
      else if is_digit c \<or> c \<in> set ''+-.'' then
        (if first then (None, c # s) else (let (r, t) = getScheme False s in (map_option ((#) c) r, t)))
      else if c = CHR '':'' then (Some [], s)
      else (None, c # s))"

definition url_scheme :: "string \<Rightarrow> drv_error + string" where
  "url_scheme s =
     (if has_prefix '':'' s then Inl (DrUrl s)
      else Inr (case fst (getScheme True s) of None \<Rightarrow> [] | Some t \<Rightarrow> to_lower t))"

definition schemes :: "string list" where
  "schemes = [''docker-container'', ''kube-pod'', ''npipe'', ''ssh'', ''tcp'', ''unix'']"

text \<open>The rest of \<open>url.Parse\<close>, which may refuse the authority or the path, is the parameter \<open>rest_ok\<close>.
  The binary search finds an element of the sorted list exactly when it is there.\<close>

definition IsValidEndpoint :: "(string \<Rightarrow> bool) \<Rightarrow> string \<Rightarrow> drv_error option" where
  "IsValidEndpoint rest_ok ep =
     (case url_scheme ep of
        Inl e \<Rightarrow> Some e
      | Inr scheme \<Rightarrow>
          if \<not> rest_ok ep then Some (DrUrl ep)
          else if scheme \<in> set schemes then None else Some (DrOther scheme))"

lemma schemes_sorted: "sorted schemes" "distinct schemes"
  by code_simp+

section \<open>Names read back\<close>

lemma ParseBuilderName_BuilderName [simp]: "ParseBuilderName (BuilderName name) = Inr name"
  by (simp add: ParseBuilderName_def BuilderName_def has_prefix_def trim_prefix_def)

lemma trim_prefix_back: "has_prefix p s \<Longrightarrow> p @ trim_prefix p s = s"
  by (auto simp: has_prefix_def trim_prefix_def) (metis append_take_drop_id)

lemma ParseBuilderName_iff: "ParseBuilderName s = Inr name \<longleftrightarrow> s = BuilderName name"
proof
  assume "ParseBuilderName s = Inr name"
  then have "has_prefix builderNamePrefix s" "trim_prefix builderNamePrefix s = name"
    by (auto simp: ParseBuilderName_def split: if_splits)
  from trim_prefix_back [OF this(1)] this(2) show "s = BuilderName name" by (simp add: BuilderName_def)
qed simp

section \<open>Loops over options\<close>

text \<open>A range over the entries of a map visits them in some order.  When it depends on the entry alone
  whether a turn succeeds, so it does whether the loop succeeds.\<close>

lemma rfold_ok_iff:
  assumes "\<And>x s. x \<in> set xs \<Longrightarrow> is_ok (f x s) \<longleftrightarrow> good x"
  shows "is_ok (rfold f xs s) \<longleftrightarrow> (\<forall>x \<in> set xs. good x)"
  using assms
proof (induction xs arbitrary: s)
  case (Cons a xs)
  have "is_ok (f a s) \<longleftrightarrow> good a" using Cons.prems by simp
  moreover have "is_ok (rfold f xs s') \<longleftrightarrow> (\<forall>x \<in> set xs. good x)" for s' using Cons.IH Cons.prems by simp
  ultimately show ?case by (cases "f a s") (auto simp: is_ok_iff)
qed (simp add: is_ok_def)

text \<open>A field that only the entry for one key changes ends as that entry says.\<close>

lemma rfold_field:
  assumes "rfold f xs s = Inr t" and "distinct (map fst xs)"
    and "\<And>k v s s'. (k, v) \<in> set xs \<Longrightarrow> f (k, v) s = Inr s' \<Longrightarrow> get s' = (if k = key then val v (get s) else get s)"
  shows "get t = (case map_of xs key of None \<Rightarrow> get s | Some v \<Rightarrow> val v (get s))"
  using assms
proof (induction xs arbitrary: s)
  case (Cons a xs)
  obtain k v where a: "a = (k, v)" by fastforce
  with Cons.prems(1) obtain s1 where s1: "f (k, v) s = Inr s1" "rfold f xs s1 = Inr t" by (auto simp: result_iff)
  have "get t = (case map_of xs key of None \<Rightarrow> get s1 | Some v \<Rightarrow> val v (get s1))"
    using Cons.IH [OF s1(2)] Cons.prems(2,3) by simp
  moreover have "get s1 = (if k = key then val v (get s) else get s)" using Cons.prems(3) [OF _ s1(1)] a by simp
  moreover have "map_of xs k = None" using Cons.prems(2) a by (simp add: map_of_eq_None_iff)
  ultimately show ?case using a by (auto split: option.splits)
qed simp

lemma map_of_reorder:
  assumes "mset xs = mset ys" and "distinct (map fst xs)"
  shows "map_of xs = map_of ys" and "distinct (map fst ys)" and "set xs = set ys"
proof -
  show s: "set xs = set ys" using assms(1) by (rule mset_eq_setD)
  have "mset (map fst xs) = mset (map fst ys)" using assms(1) by simp
  then show d: "distinct (map fst ys)" using assms(2) mset_eq_imp_distinct_iff by blast
  show "map_of xs = map_of ys" using map_of_inject_set [OF assms(2) d] s by simp
qed

section \<open>Counting the calls of a driver\<close>

record calls =
  n_Info :: nat
  n_Bootstrap :: nat
  n_Client :: nat

definition no_calls :: calls where
  "no_calls = \<lparr>n_Info = 0, n_Bootstrap = 0, n_Client = 0\<rparr>"

text \<open>The same driver in a world that also counts the calls.\<close>

definition counted :: "('w, 'c) driver_ops \<Rightarrow> ('w \<times> calls, 'c) driver_ops" where
  "counted ops =
     \<lparr>d_Info = (\<lambda>(w, n). let (r, w) = d_Info ops w in (r, w, n\<lparr>n_Info := n_Info n + 1\<rparr>)),
      d_Bootstrap = (\<lambda>(w, n). let (r, w) = d_Bootstrap ops w in (r, w, n\<lparr>n_Bootstrap := n_Bootstrap n + 1\<rparr>)),
      d_Client = (\<lambda>(w, n). let (r, w) = d_Client ops w in (r, w, n\<lparr>n_Client := n_Client n + 1\<rparr>))\<rparr>"

lemma counted_simps [simp]:
  "d_Info (counted ops) (w, n) = (let (r, w) = d_Info ops w in (r, w, n\<lparr>n_Info := n_Info n + 1\<rparr>))"
  "d_Bootstrap (counted ops) (w, n) = (let (r, w) = d_Bootstrap ops w in (r, w, n\<lparr>n_Bootstrap := n_Bootstrap n + 1\<rparr>))"
  "d_Client (counted ops) (w, n) = (let (r, w) = d_Client ops w in (r, w, n\<lparr>n_Client := n_Client n + 1\<rparr>))"
  by (simp_all add: counted_def)

text \<open>One turn of the loop: whether it goes round again, its result, and the state.\<close>

definition boot_turn :: "('w, 'c) driver_ops \<Rightarrow> nat \<Rightarrow> 'c handle \<Rightarrow> 'w \<Rightarrow> bool \<times> (drv_error + 'c) \<times> 'c handle \<times> 'w" where
  "boot_turn ops tries h w =
     (case d_Info ops w of
        (Inl e, w) \<Rightarrow> (False, Inl e, h, w)
      | (Inr info, w) \<Rightarrow>
          if i_Status info \<noteq> Running \<and> 2 \<le> tries then (False, Inl DrBootAttempts, h, w)
          else case (if i_Status info \<noteq> Running then d_Bootstrap ops w else (None, w)) of
              (Some e, w) \<Rightarrow> (False, Inl e, h, w)
            | (None, w) \<Rightarrow>
                (let (r, h, w) = handle_Client ops h w in (r = Inl ErrNotRunning \<and> tries < 2, r, h, w)))"

lemma boot_loop_turn:
  "boot_loop ops tries h w =
     (case boot_turn ops tries h w of (again, r, h, w) \<Rightarrow> if again then boot_loop ops (tries + 1) h w else (r, h, w))"
  by (subst boot_loop.simps) (auto simp: boot_turn_def Let_def split: prod.splits sum.splits option.splits if_splits)

lemma handle_Client_counted [simp]:
  "handle_Client (counted ops) h (w, n) =
     (let (r, h', w') = handle_Client ops h w in (r, h', w', if h = None then n\<lparr>n_Client := n_Client n + 1\<rparr> else n))"
  by (simp add: handle_Client_def split: option.splits prod.splits)

lemma handle_Client_keeps: "handle_Client ops h w = (r, h', w') \<Longrightarrow> h' = Some r \<and> (h \<noteq> None \<longrightarrow> h' = h)"
  by (auto simp: handle_Client_def split: option.splits prod.splits)

lemma boot_turn_counted:
  assumes "tries \<le> 2" and "boot_turn (counted ops) tries h (w, n) = (again, r, h', w', n')"
  shows "boot_turn ops tries h w = (again, r, h', w') \<and>
    n_Info n' = n_Info n + 1 \<and> n_Bootstrap n' \<le> n_Bootstrap n + (if tries < 2 then 1 else 0) \<and>
    n_Client n' \<le> n_Client n + (if h = None then 1 else 0) \<and> (h \<noteq> None \<longrightarrow> h' = h) \<and>
    (\<forall>c. r = Inr c \<longrightarrow> h' = Some (Inr c)) \<and> (again \<longrightarrow> tries < 2 \<and> h' = Some (Inl ErrNotRunning))"
proof -
  obtain ri w1 where i: "d_Info ops w = (ri, w1)" by fastforce
  show ?thesis
  proof (cases ri)
    case (Inl e)
    then show ?thesis using assms i by (auto simp: boot_turn_def)
  next
    case (Inr info)
    obtain e w2 where b: "(if i_Status info \<noteq> Running then d_Bootstrap ops w1 else (None, w1)) = (e, w2)" by fastforce
    obtain rc h3 w3 where c: "handle_Client ops h w2 = (rc, h3, w3)" by (cases "handle_Client ops h w2") auto
    note keep = handle_Client_keeps [OF c]
    show ?thesis
    proof (cases "i_Status info = Running")
      case True
      then show ?thesis using assms i Inr b c keep by (auto simp: boot_turn_def)
    next
      case False
      then show ?thesis using assms i Inr b c keep by (cases e; cases "tries = 2") (auto simp: boot_turn_def)
    qed
  qed
qed

lemma boot_loop_counted:
  assumes "tries \<le> 2" and "boot_loop (counted ops) tries h (w, n) = (r, h', w', n')"
  shows "n_Info n' + tries \<le> n_Info n + 3 \<and> n_Bootstrap n' + tries \<le> n_Bootstrap n + 2 \<and>
    n_Client n' \<le> n_Client n + (if h = None then 1 else 0) \<and>
    (h \<noteq> None \<longrightarrow> h' = h) \<and> (\<forall>c. r = Inr c \<longrightarrow> h' = Some (Inr c)) \<and> boot_loop ops tries h w = (r, h', w')"
  using assms
proof (induction "3 - tries" arbitrary: tries h w n rule: less_induct)
  case less
  obtain again r1 h1 w1 n1 where t: "boot_turn (counted ops) tries h (w, n) = (again, r1, h1, w1, n1)"
    by (cases "boot_turn (counted ops) tries h (w, n)") auto
  have turn: "boot_turn ops tries h w = (again, r1, h1, w1)" "n_Info n1 = n_Info n + 1"
    "n_Bootstrap n1 \<le> n_Bootstrap n + (if tries < 2 then 1 else 0)"
    "n_Client n1 \<le> n_Client n + (if h = None then 1 else 0)" "h \<noteq> None \<Longrightarrow> h1 = h"
    "\<forall>c. r1 = Inr c \<longrightarrow> h1 = Some (Inr c)" "again \<Longrightarrow> tries < 2 \<and> h1 = Some (Inl ErrNotRunning)"
    using boot_turn_counted [OF less.prems(1) t] by blast+
  show ?case
  proof (cases again)
    case True
    then have l: "boot_loop (counted ops) (tries + 1) h1 (w1, n1) = (r, h', w', n')"
      using less.prems(2) t by (simp add: boot_loop_turn [of _ tries])
    have m: "3 - (tries + 1) < 3 - tries" "tries + 1 \<le> 2" using turn(7) [OF True] by linarith+
    have "h1 \<noteq> None" using turn(7) [OF True] by simp
    then have "n_Info n' + (tries + 1) \<le> n_Info n1 + 3" "n_Bootstrap n' + (tries + 1) \<le> n_Bootstrap n1 + 2"
      "n_Client n' \<le> n_Client n1" "h' = h1" "\<forall>c. r = Inr c \<longrightarrow> h' = Some (Inr c)"
      "boot_loop ops (tries + 1) h1 w1 = (r, h', w')"
      using less.hyps [OF m l] by (auto simp del: One_nat_def)
    then show ?thesis using turn True by (auto simp: boot_loop_turn [of _ tries] split: if_splits)
  next
    case False
    then have "r = r1" "h' = h1" "w' = w1" "n' = n1"
      using less.prems(2) t by (simp_all add: boot_loop_turn [of _ tries])
    then show ?thesis using turn False less.prems(1) by (auto simp: boot_loop_turn [of _ tries] split: if_splits)
  qed
qed

section \<open>Choice of a factory\<close>

lemma sort_key_hd_min:
  assumes "xs \<noteq> []"
  shows "\<exists>x. hd (sort_key f xs) = x \<and> x \<in> set xs \<and> (\<forall>y \<in> set xs. f x \<le> f y)"
proof -
  have ne: "sort_key f xs \<noteq> []" using assms by (metis length_0_conv length_sort)
  then obtain x t where t: "sort_key f xs = x # t" by (cases "sort_key f xs") auto
  have "sorted (map f (x # t))" using sorted_sort_key [of f xs] t by simp
  moreover have "set (x # t) = set xs" using t by (metis set_sort)
  ultimately show ?thesis using t by fastforce
qed

lemma GetFactory_ok:
  assumes "GetFactory drivers name inst = Inr f"
  shows "f \<in> set drivers \<and> f_Name f = name \<and> (inst \<longrightarrow> f_AllowsInstances f)"
  using assms by (induction drivers) (auto split: if_splits)

section \<open>Example drivers\<close>

text \<open>A container that is not there at first; the world counts how often it was started.\<close>

definition demo_ops :: "(nat, string) driver_ops" where
  "demo_ops =
     \<lparr>d_Info = (\<lambda>w. (Inr \<lparr>i_Status = (if w = 0 then Inactive else Running), i_DynamicNodes = []\<rparr>, w)),
      d_Bootstrap = (\<lambda>w. (None, w + 1)), d_Client = (\<lambda>w. (Inr ''client'', w))\<rparr>"

text \<open>A driver that reports that it runs, but whose client can only be made from the second time on.\<close>

definition demo_late :: "(nat, string) driver_ops" where
  "demo_late =
     \<lparr>d_Info = (\<lambda>w. (Inr \<lparr>i_Status = Running, i_DynamicNodes = []\<rparr>, w)),
      d_Bootstrap = (\<lambda>w. (None, w)),
      d_Client = (\<lambda>w. (if w = 0 then Inl ErrNotRunning else Inr ''client'', w + 1))\<rparr>"

definition demo_factory :: "string \<Rightarrow> int \<Rightarrow> bool \<Rightarrow> string Factory" where
  "demo_factory name prio inst =
     \<lparr>f_Name = name, f_Priority = (\<lambda>_ _. prio), f_New = (\<lambda>_. Inr name), f_AllowsInstances = inst\<rparr>"

section \<open>Properties\<close>

text \<open>C15 (Boot_bounded): whatever the driver does, booting asks for its state at most three times, starts it
  at most twice and makes at most one client; a client that it returns is the one the handle keeps.\<close>

theorem Boot_bounded:
  assumes "Boot (counted ops) h (w, no_calls) = (r, h', w', n)"
  shows "n_Info n \<le> 3 \<and> n_Bootstrap n \<le> 2 \<and> n_Client n \<le> 1 \<and> (\<forall>c. r = Inr c \<longrightarrow> h' = Some (Inr c)) \<and>
    Boot ops h w = (r, h', w')"
proof -
  have "boot_loop (counted ops) 0 h (w, no_calls) = (r, h', w', n)" using assms by (simp add: Boot_def)
  from boot_loop_counted [OF _ this] show ?thesis by (auto simp: no_calls_def Boot_def split: if_splits)
qed

theorem Boot_bounded_witness:
  "Boot (counted demo_ops) None (0, no_calls) =
     (Inr ''client'', Some (Inr ''client''), 1, \<lparr>n_Info = 1, n_Bootstrap = 1, n_Client = 1\<rparr>) \<and>
   Boot demo_ops None 0 = (Inr ''client'', Some (Inr ''client''), 1)"
proof -
  have b: "Boot (counted demo_ops) None (0, no_calls) =
     (Inr ''client'', Some (Inr ''client''), 1, \<lparr>n_Info = 1, n_Bootstrap = 1, n_Client = 1\<rparr>)"
    by (simp add: Boot_def boot_loop.simps demo_ops_def no_calls_def handle_Client_def counted_def)
  with Boot_bounded [OF b] show ?thesis by simp
qed

text \<open>Once the handle of a driver holds a failed attempt to make a client, booting
  never returns a client, although the loop is there to attempt again and the driver could make one by now.\<close>

theorem Boot_keeps_error:
  assumes "handle_Client ops None w1 = (Inl e, h, w2)"
  shows "\<exists>e'. fst (Boot ops h w) = Inl e' \<and> fst (snd (Boot ops h w)) = Some (Inl e)"
proof -
  have h: "h = Some (Inl e)" using handle_Client_keeps [OF assms] by simp
  obtain r' h' w' n where b: "boot_loop (counted ops) 0 h (w, no_calls) = (r', h', w', n)"
    by (cases "boot_loop (counted ops) 0 h (w, no_calls)") auto
  from boot_loop_counted [OF _ b] h have "h' = h" "\<forall>c. r' = Inr c \<longrightarrow> h' = Some (Inr c)" "Boot ops h w = (r', h', w')"
    by (auto simp: Boot_def)
  with h show ?thesis by (cases r') auto
qed

theorem Boot_keeps_error_witness:
  "d_Client demo_late 1 = (Inr ''client'', 2) \<and> (\<exists>e. fst (Boot demo_late (Some (Inl ErrNotRunning)) 1) = Inl e)"
  using Boot_keeps_error [of demo_late 0 ErrNotRunning "Some (Inl ErrNotRunning)" 1 1]
  by (auto simp: demo_late_def handle_Client_def)

text \<open>C16 (GetDefaultFactory_best): when some registered driver qualifies, the default one is a qualifying
  driver of least priority number, in whatever order the registry is met; a registry in which no driver
  allows instances makes the choice panic when instances are required.\<close>

theorem GetDefaultFactory_best:
  "if \<exists>f \<in> set drivers. inst \<longrightarrow> f_AllowsInstances f
   then \<exists>f. GetDefaultFactory drivers ep api inst = Inr f \<and> f \<in> set drivers \<and> (inst \<longrightarrow> f_AllowsInstances f) \<and>
     (\<forall>g \<in> set drivers. (inst \<longrightarrow> f_AllowsInstances g) \<longrightarrow> f_Priority f ep api \<le> f_Priority g ep api)
   else GetDefaultFactory drivers ep api inst = Inl (if drivers = [] then DrNoDrivers else DrPanicIndex)"
proof -
  define dd where "dd = map (\<lambda>f. (f, f_Priority f ep api)) (filter (\<lambda>f. \<not> (inst \<and> \<not> f_AllowsInstances f)) drivers)"
  have g: "GetDefaultFactory drivers ep api inst =
      (if drivers = [] then Inl DrNoDrivers else case sort_key snd dd of [] \<Rightarrow> Inl DrPanicIndex | d # _ \<Rightarrow> Inr (fst d))"
    by (simp add: GetDefaultFactory_def dd_def)
  show ?thesis
  proof (cases "\<exists>f \<in> set drivers. inst \<longrightarrow> f_AllowsInstances f")
    case True
    then have ne: "dd \<noteq> []" "drivers \<noteq> []" by (auto simp: dd_def filter_empty_conv)
    obtain x where x: "hd (sort_key snd dd) = x" "x \<in> set dd" "\<forall>y \<in> set dd. snd x \<le> snd y"
      using sort_key_hd_min [OF ne(1)] by blast
    moreover have "sort_key snd dd \<noteq> []" using ne(1) by (metis length_0_conv length_sort)
    ultimately have "GetDefaultFactory drivers ep api inst = Inr (fst x)" using ne(2) by (cases "sort_key snd dd") (auto simp: g)
    moreover have "fst x \<in> set drivers" "inst \<longrightarrow> f_AllowsInstances (fst x)" "snd x = f_Priority (fst x) ep api"
      using x(2) by (auto simp: dd_def)
    moreover have "snd x \<le> f_Priority g ep api" if "g \<in> set drivers" "inst \<longrightarrow> f_AllowsInstances g" for g
      using x(3) that by (force simp: dd_def)
    ultimately show ?thesis using True by auto
  next
    case False
    then have "dd = []" by (auto simp: dd_def filter_empty_conv)
    with False show ?thesis by (simp add: g)
  qed
qed

theorem GetDefaultFactory_best_witness:
  "GetDefaultFactory [demo_factory ''docker'' 10 False] ''ep'' True True = Inl DrPanicIndex \<and>
   (\<exists>f. GetDefaultFactory [demo_factory ''docker'' 10 False, demo_factory ''docker-container'' 30 True] ''ep'' True True = Inr f \<and>
      f_AllowsInstances f)"
  using GetDefaultFactory_best [of "[demo_factory ''docker'' 10 False, demo_factory ''docker-container'' 30 True]" True "''ep''" True]
    GetDefaultFactory_best [of "[demo_factory ''docker'' 10 False]" True "''ep''" True]
  by (auto simp: demo_factory_def)

end
