(* ===== verification/DriverFactories.thy ===== *)
theory DriverFactories
  imports DriverBase PlatformMatch
begin

text \<open>
  The factories of the drivers \<open>docker\<close>, \<open>docker-container\<close> and \<open>remote\<close> (\<open>driver/docker/factory.go\<close>,
  \<open>driver/docker-container/factory.go\<close>, \<open>driver/remote/factory.go\<close>) and the container a
  \<open>docker-container\<close> driver creates (\<open>driver/docker-container/driver.go\<close>).  A factory reads the driver
  options by ranging over a map, so its loop runs over the entries in any order; \<open>option_loop\<close> is what the
  loops share, and gives for each of them that the outcome does not depend on that order.  The parsers of
  memory sizes and restart policies of the docker command line, and the rest of \<open>url.Parse\<close>, are
  parameters in \<open>drv_env\<close>.
\<close>

record drv_env =
  de_MemBytes :: "string \<Rightarrow> int option"
  de_MemSwapBytes :: "string \<Rightarrow> int option"
  de_RestartPolicy :: "string \<Rightarrow> string option"
  de_urlRest :: "string \<Rightarrow> bool"
  de_Hostname :: "string \<Rightarrow> drv_error + string"
  de_DialHijack :: bool

section \<open>docker\<close>

definition docker_Priority :: "drv_env \<Rightarrow> string \<Rightarrow> bool \<Rightarrow> int" where
  "docker_Priority env endpoint api = (if \<not> api then 99 else if \<not> de_DialHijack env then 99 else 10)"

definition docker_New :: "InitConfig \<Rightarrow> drv_error + InitConfig" where
  "docker_New cfg =
     (if \<not> ic_DockerAPI cfg then Inl (DrNoDockerAPI ''docker'')
      else if go_range (ic_Files cfg) \<noteq> [] then Inl (DrNoFiles ''docker'')
      else Inr cfg)"

section \<open>docker-container\<close>

record container_driver =
  cd_config :: InitConfig
  cd_netMode :: string
  cd_image :: string
  cd_memory :: int
  cd_memorySwap :: int
  cd_cpuQuota :: int
  cd_cpuPeriod :: int
  cd_cpuShares :: int
  cd_cpusetCpus :: string
  cd_cpusetMems :: string
  cd_cgroupParent :: string
  cd_restartPolicy :: string
  cd_env :: "string list"
  cd_defaultLoad :: bool

definition container_Priority :: "string \<Rightarrow> bool \<Rightarrow> int" where
  "container_Priority endpoint api = (if \<not> api then 70 else 30)"

abbreviation defaultRestartPolicy :: string where "defaultRestartPolicy \<equiv> ''unless-stopped''"

definition set_parsed :: "string \<Rightarrow> string \<Rightarrow> 'a option \<Rightarrow> ('a \<Rightarrow> 's) \<Rightarrow> drv_error + 's" where
  "set_parsed k v parsed put = (case parsed of None \<Rightarrow> Inl (DrValue k v) | Some x \<Rightarrow> Inr (put x))"

definition container_option :: "drv_env \<Rightarrow> string \<times> string \<Rightarrow> container_driver \<Rightarrow> drv_error + container_driver" where
  "container_option env = (\<lambda>(k, v) d.
     if k = ''network'' then Inr (d\<lparr>cd_netMode := v\<rparr>)
     else if k = ''image'' then Inr (d\<lparr>cd_image := v\<rparr>)
     else if k = ''memory'' then set_parsed k v (de_MemBytes env v) (\<lambda>x. d\<lparr>cd_memory := x\<rparr>)
     else if k = ''memory-swap'' then set_parsed k v (de_MemSwapBytes env v) (\<lambda>x. d\<lparr>cd_memorySwap := x\<rparr>)
     else if k = ''cpu-period'' then set_parsed k v (atoi v) (\<lambda>x. d\<lparr>cd_cpuPeriod := x\<rparr>)
     else if k = ''cpu-quota'' then set_parsed k v (atoi v) (\<lambda>x. d\<lparr>cd_cpuQuota := x\<rparr>)
     else if k = ''cpu-shares'' then set_parsed k v (atoi v) (\<lambda>x. d\<lparr>cd_cpuShares := x\<rparr>)
     else if k = ''cpuset-cpus'' then Inr (d\<lparr>cd_cpusetCpus := v\<rparr>)
     else if k = ''cpuset-mems'' then Inr (d\<lparr>cd_cpusetMems := v\<rparr>)
     else if k = ''cgroup-parent'' then Inr (d\<lparr>cd_cgroupParent := v\<rparr>)
     else if k = ''restart-policy'' then set_parsed k v (de_RestartPolicy env v) (\<lambda>x. d\<lparr>cd_restartPolicy := x\<rparr>)
     else if k = ''default-load'' then set_parsed k v (parse_bool v) (\<lambda>x. d\<lparr>cd_defaultLoad := x\<rparr>)
     else if has_prefix ''env.'' k then
       (let envName = trim_prefix ''env.'' k
        in if envName = [] then Inl (DrOption k ''docker-container'')
           else Inr (d\<lparr>cd_env := cd_env d @ [envName @ ''='' @ v]\<rparr>))
     else Inl (DrOption k ''docker-container''))"

definition container_default :: "InitConfig \<Rightarrow> string \<Rightarrow> container_driver" where
  "container_default cfg rp =
     \<lparr>cd_config = cfg, cd_netMode = [], cd_image = [], cd_memory = 0, cd_memorySwap = 0, cd_cpuQuota = 0,
      cd_cpuPeriod = 0, cd_cpuShares = 0, cd_cpusetCpus = [], cd_cpusetMems = [], cd_cgroupParent = [],
      cd_restartPolicy = rp, cd_env = [], cd_defaultLoad = False\<rparr>"

text \<open>\<open>order\<close> is the order in which the range over the options meets them.\<close>

definition container_New :: "drv_env \<Rightarrow> (string \<times> string) list \<Rightarrow> InitConfig \<Rightarrow> drv_error + container_driver" where
  "container_New env order cfg =
     (if \<not> ic_DockerAPI cfg then Inl (DrNoDockerAPI ''docker-container'')
      else rbind
        (set_parsed ''restart-policy'' defaultRestartPolicy (de_RestartPolicy env defaultRestartPolicy) (container_default cfg))
        (rfold (container_option env) order))"

section \<open>remote\<close>

record tlsOpts =
  tls_serverName :: string
  tls_caCert :: string
  tls_cert :: string
  tls_key :: string

record remote_driver =
  rd_config :: InitConfig
  rd_tlsOpts :: "tlsOpts option"
  rd_defaultLoad :: bool

definition remote_Priority :: "drv_env \<Rightarrow> string \<Rightarrow> bool \<Rightarrow> int" where
  "remote_Priority env endpoint api = (if IsValidEndpoint (de_urlRest env) endpoint \<noteq> None then 90 else 20)"

text \<open>The state of the loop: the TLS options, whether they are enabled, and the driver.\<close>

record remote_state =
  rs_tls :: tlsOpts
  rs_tlsEnabled :: bool
  rs_driver :: remote_driver

definition set_abs :: "string \<Rightarrow> string \<Rightarrow> (tlsOpts \<Rightarrow> tlsOpts) \<Rightarrow> remote_state \<Rightarrow> drv_error + remote_state" where
  "set_abs k v upd s =
     (if \<not> is_abs v then Inl (DrValue k v) else Inr (s\<lparr>rs_tls := upd (rs_tls s), rs_tlsEnabled := True\<rparr>))"

definition remote_option :: "string \<times> string \<Rightarrow> remote_state \<Rightarrow> drv_error + remote_state" where
  "remote_option = (\<lambda>(k, v) s.
     if k = ''servername'' then Inr (s\<lparr>rs_tls := (rs_tls s)\<lparr>tls_serverName := v\<rparr>, rs_tlsEnabled := True\<rparr>)
     else if k = ''cacert'' then set_abs k v (\<lambda>t. t\<lparr>tls_caCert := v\<rparr>) s
     else if k = ''cert'' then set_abs k v (\<lambda>t. t\<lparr>tls_cert := v\<rparr>) s
     else if k = ''key'' then set_abs k v (\<lambda>t. t\<lparr>tls_key := v\<rparr>) s
     else if k = ''default-load'' then
       set_parsed k v (parse_bool v) (\<lambda>b. s\<lparr>rs_driver := (rs_driver s)\<lparr>rd_defaultLoad := b\<rparr>\<rparr>)
     else Inl (DrOption k ''remote''))"

definition missing_keys :: "tlsOpts \<Rightarrow> string list" where
  "missing_keys tls =
     (if tls_caCert tls = [] then [''cacert''] else []) @
     (if tls_cert tls \<noteq> [] \<and> tls_key tls = [] then [''key''] else []) @
     (if tls_key tls \<noteq> [] \<and> tls_cert tls = [] then [''cert''] else [])"

definition remote_New :: "drv_env \<Rightarrow> (string \<times> string) list \<Rightarrow> InitConfig \<Rightarrow> drv_error + remote_driver" where
  "remote_New env order cfg =
     (if go_range (ic_Files cfg) \<noteq> [] then Inl (DrNoFiles ''remote'')
      else if (case ic_BuildkitdFlags cfg of None \<Rightarrow> [] | Some fs \<Rightarrow> fs) \<noteq> [] then Inl (DrNoFlags ''remote'')
      else
        rbind (rfold remote_option order
          \<lparr>rs_tls = \<lparr>tls_serverName = [], tls_caCert = [], tls_cert = [], tls_key = []\<rparr>, rs_tlsEnabled = False,
           rs_driver = \<lparr>rd_config = cfg, rd_tlsOpts = None, rd_defaultLoad = False\<rparr>\<rparr>) (\<lambda>s.
        if \<not> rs_tlsEnabled s then Inr (rs_driver s)
        else
          rbind (if tls_serverName (rs_tls s) = []
                 then rbind (de_Hostname env (ic_EndpointAddr cfg)) (\<lambda>h. Inr ((rs_tls s)\<lparr>tls_serverName := h\<rparr>))
                 else Inr (rs_tls s)) (\<lambda>tls.
          if missing_keys tls \<noteq> [] then Inl (DrMissingTls (missing_keys tls))
          else Inr ((rs_driver s)\<lparr>rd_tlsOpts := Some tls\<rparr>))))"

section \<open>The container of a docker-container driver\<close>

abbreviation volumeStateSuffix :: string where "volumeStateSuffix \<equiv> ''_state''"

abbreviation buildkitdConfigFile :: string where "buildkitdConfigFile \<equiv> ''buildkitd.toml''"

definition getBuildkitFlags :: "InitConfig \<Rightarrow> string list" where
  "getBuildkitFlags cfg =
     (let flags = (case ic_BuildkitdFlags cfg of None \<Rightarrow> [] | Some fs \<Rightarrow> fs)
      in if mget (go_range (ic_Files cfg)) buildkitdConfigFile \<noteq> None
         then [''--config'', path_join [''/etc/buildkit'', buildkitdConfigFile]] @ flags else flags)"

text \<open>What the docker engine knows and does: the inspection of a container (its running state and the names
  of its mounts), and the calls that change it.  \<open>errdefs.IsNotFound\<close> is \<open>DkNotFound\<close>.\<close>

datatype dk_error = DkNotFound | DkConflict | DkError string

record container_json =
  cj_Running :: bool
  cj_Mounts :: "string list"

record container_Config =
  cc_Image :: string
  cc_Env :: "string list"
  cc_Cmd :: "string list"

record HostConfig =
  hc_Privileged :: bool
  hc_RestartPolicy :: string
  hc_Mounts :: "(string \<times> string) list"
  hc_Init :: bool
  hc_NetworkMode :: string
  hc_Memory :: int
  hc_MemorySwap :: int
  hc_CPUQuota :: int
  hc_CPUPeriod :: int
  hc_CPUShares :: int
  hc_CpusetCpus :: string
  hc_CpusetMems :: string
  hc_CgroupParent :: string
  hc_UsernsMode :: string

text \<open>The information about the engine: its cgroup driver, and the names of the decoded security options
  (\<^term>\<open>None\<close> when they cannot be decoded).\<close>

record system_info =
  si_CgroupDriver :: string
  si_SecurityOptions :: "string list option"

record 'w docker_api =
  a_Inspect :: "string \<Rightarrow> 'w \<Rightarrow> dk_error + container_json"
  a_ImagePull :: "string \<Rightarrow> 'w \<Rightarrow> dk_error option \<times> 'w"
  a_ImageInspect :: "string \<Rightarrow> 'w \<Rightarrow> bool"
  a_Info :: "'w \<Rightarrow> system_info option"
  a_Create :: "container_Config \<Rightarrow> HostConfig \<Rightarrow> string \<Rightarrow> 'w \<Rightarrow> dk_error option \<times> 'w"
  a_Copy :: "string \<Rightarrow> bytes gomap \<Rightarrow> 'w \<Rightarrow> dk_error option \<times> 'w"
  a_Start :: "string \<Rightarrow> 'w \<Rightarrow> dk_error option \<times> 'w"
  a_Wait :: "'w \<Rightarrow> dk_error option \<times> 'w"
  a_Stop :: "string \<Rightarrow> 'w \<Rightarrow> dk_error option \<times> 'w"
  a_Remove :: "string \<Rightarrow> bool \<Rightarrow> 'w \<Rightarrow> dk_error option \<times> 'w"
  a_VolumeRemove :: "string \<Rightarrow> 'w \<Rightarrow> dk_error option \<times> 'w"

definition container_Info :: "'w docker_api \<Rightarrow> string \<Rightarrow> 'w \<Rightarrow> dk_error + Status" where
  "container_Info api name w =
     (case a_Inspect api name w of
        Inl e \<Rightarrow> if e = DkNotFound then Inr Inactive else Inl e
      | Inr ctn \<Rightarrow> Inr (if cj_Running ctn then Running else Stopped))"

definition container_Stop :: "'w docker_api \<Rightarrow> string \<Rightarrow> 'w \<Rightarrow> dk_error option \<times> 'w" where
  "container_Stop api name w =
     (case container_Info api name w of
        Inl e \<Rightarrow> (Some e, w)
      | Inr st \<Rightarrow> if st = Running then a_Stop api name w else (None, w))"

definition container_Rm :: "'w docker_api \<Rightarrow> string \<Rightarrow> bool \<Rightarrow> bool \<Rightarrow> bool \<Rightarrow> 'w \<Rightarrow> dk_error option \<times> 'w" where
  "container_Rm api name force rmVolume rmDaemon w =
     (case container_Info api name w of
        Inl e \<Rightarrow> (Some e, w)
      | Inr st \<Rightarrow>
          if st = Inactive then (None, w)
          else
            (case a_Inspect api name w of
               Inl e \<Rightarrow> (Some e, w)
             | Inr ctr \<Rightarrow>
                 if \<not> rmDaemon then (None, w)
                 else
                   (case a_Remove api name force w of
                      (Some e, w) \<Rightarrow> (Some e, w)
                    | (None, w) \<Rightarrow>
                        if name @ volumeStateSuffix \<in> set (cj_Mounts ctr) \<and> rmVolume
                        then a_VolumeRemove api (name @ volumeStateSuffix) w else (None, w))))"

text \<open>Waiting for the daemon: \<open>probe\<close> runs the check inside the container, \<open>done\<close> is a cancelled context.\<close>

function container_wait :: "(nat \<Rightarrow> 'e option) \<Rightarrow> (nat \<Rightarrow> 'e option) \<Rightarrow> nat \<Rightarrow> 'e option \<times> nat" where
  "container_wait probe cancelled attempt =
     (case probe attempt of
        None \<Rightarrow> (None, attempt)
      | Some e \<Rightarrow>
          if 15 < attempt then (Some e, attempt)
          else (case cancelled attempt of Some c \<Rightarrow> (Some c, attempt) | None \<Rightarrow> container_wait probe cancelled (attempt + 1)))"
  by pat_completeness auto
termination
  by (relation "measure (\<lambda>(probe, cancelled, attempt). 16 - attempt)") auto


declare container_wait.simps [simp del]

lemma container_wait_bound: "attempt \<le> 16 \<Longrightarrow> snd (container_wait probe cancelled attempt) \<le> 16"
proof (induction probe cancelled attempt rule: container_wait.induct)
  case (1 probe cancelled attempt)
  then show ?case by (subst container_wait.simps) (auto split: option.splits)
qed

abbreviation DefaultImage :: string where "DefaultImage \<equiv> ''moby/buildkit:buildx-stable-1''"

definition host_config :: "container_driver \<Rightarrow> system_info option \<Rightarrow> dk_error + HostConfig" where
  "host_config d info =
     (let name = ic_Name (cd_config d);
          hc = \<lparr>hc_Privileged = True, hc_RestartPolicy = cd_restartPolicy d,
                hc_Mounts = [(name @ volumeStateSuffix, ''/var/lib/buildkit'')], hc_Init = True,
                hc_NetworkMode = cd_netMode d, hc_Memory = cd_memory d, hc_MemorySwap = cd_memorySwap d,
                hc_CPUQuota = cd_cpuQuota d, hc_CPUPeriod = cd_cpuPeriod d, hc_CPUShares = cd_cpuShares d,
                hc_CpusetCpus = cd_cpusetCpus d, hc_CpusetMems = cd_cpusetMems d, hc_CgroupParent = [],
                hc_UsernsMode = []\<rparr>
      in case info of
           None \<Rightarrow> Inr hc
         | Some info \<Rightarrow>
             (let hc = (if si_CgroupDriver info = ''cgroupfs''
                        then hc\<lparr>hc_CgroupParent := (if cd_cgroupParent d \<noteq> [] then cd_cgroupParent d else ''/docker/buildx'')\<rparr>
                        else hc)
              in case si_SecurityOptions info of
                   None \<Rightarrow> Inl (DkError ''security options'')
                 | Some opts \<Rightarrow> Inr (if ''userns'' \<in> set opts then hc\<lparr>hc_UsernsMode := ''host''\<rparr> else hc)))"

definition container_create :: "'w docker_api \<Rightarrow> container_driver \<Rightarrow> 'w \<Rightarrow> dk_error option \<times> 'w" where
  "container_create api d w =
     (let imageName = (if cd_image d \<noteq> [] then cd_image d else DefaultImage);
          name = ic_Name (cd_config d)
      in case a_ImagePull api imageName w of
           (pull, w) \<Rightarrow>
             if pull \<noteq> None \<and> \<not> a_ImageInspect api imageName w then (pull, w)
             else
               (case host_config d (a_Info api w) of
                  Inl e \<Rightarrow> (Some e, w)
                | Inr hc \<Rightarrow>
                    (case a_Create api \<lparr>cc_Image = imageName, cc_Env = cd_env d, cc_Cmd = getBuildkitFlags (cd_config d)\<rparr> hc name w of
                       (Some e, w) \<Rightarrow> if e \<noteq> DkConflict then (Some e, w) else a_Wait api w
                     | (None, w) \<Rightarrow>
                         (case a_Copy api name (go_range (ic_Files (cd_config d))) w of
                            (Some e, w) \<Rightarrow> (Some e, w)
                          | (None, w) \<Rightarrow>
                              (case a_Start api name w of (Some e, w) \<Rightarrow> (Some e, w) | (None, w) \<Rightarrow> a_Wait api w)))))"

definition container_Bootstrap :: "'w docker_api \<Rightarrow> container_driver \<Rightarrow> 'w \<Rightarrow> dk_error option \<times> 'w" where
  "container_Bootstrap api d w =
     (let name = ic_Name (cd_config d)
      in case a_Inspect api name w of
           Inl e \<Rightarrow> if e = DkNotFound then container_create api d w else (Some e, w)
         | Inr _ \<Rightarrow> (case a_Start api name w of (Some e, w) \<Rightarrow> (Some e, w) | (None, w) \<Rightarrow> a_Wait api w))"

section \<open>Options are read in any order\<close>

definition container_option_ok :: "drv_env \<Rightarrow> string \<times> string \<Rightarrow> bool" where
  "container_option_ok env = (\<lambda>(k, v).
     k \<in> set [''network'', ''image'', ''cpuset-cpus'', ''cpuset-mems'', ''cgroup-parent''] \<or>
     k = ''memory'' \<and> de_MemBytes env v \<noteq> None \<or> k = ''memory-swap'' \<and> de_MemSwapBytes env v \<noteq> None \<or>
     k \<in> set [''cpu-period'', ''cpu-quota'', ''cpu-shares''] \<and> atoi v \<noteq> None \<or>
     k = ''restart-policy'' \<and> de_RestartPolicy env v \<noteq> None \<or> k = ''default-load'' \<and> parse_bool v \<noteq> None \<or>
     has_prefix ''env.'' k \<and> k \<noteq> ''env.'')"

lemma set_parsed_ok [simp]: "is_ok (set_parsed k v p put) \<longleftrightarrow> p \<noteq> None"
  by (simp add: set_parsed_def is_ok_def split: option.splits)

lemma set_parsed_iff [result_iff]: "set_parsed k v p put = Inr s \<longleftrightarrow> (\<exists>x. p = Some x \<and> s = put x)"
  by (auto simp: set_parsed_def split: option.splits)

lemma container_option_iff: "is_ok (container_option env x s) \<longleftrightarrow> container_option_ok env x"
proof -
  have "has_prefix ''env.'' k \<Longrightarrow> trim_prefix ''env.'' k = [] \<longleftrightarrow> k = ''env.''" for k
    using trim_prefix_back [of "''env.''" k] by auto
  then show ?thesis
    by (cases x) (simp add: container_option_def container_option_ok_def Let_def has_prefix_def)
qed

text \<open>The variables an entry adds to the environment.\<close>

definition env_of :: "string \<times> string \<Rightarrow> string list" where
  "env_of = (\<lambda>(k, v). if has_prefix ''env.'' k then [trim_prefix ''env.'' k @ ''='' @ v] else [])"

lemma container_option_fields:
  assumes "container_option env (k, v) s = Inr s'"
  shows "cd_config s' = cd_config s \<and>
    cd_env s' = cd_env s @ env_of (k, v) \<and>
    cd_netMode s' = (if k = ''network'' then v else cd_netMode s) \<and>
    cd_image s' = (if k = ''image'' then v else cd_image s) \<and>
    cd_memory s' = (if k = ''memory'' then the (de_MemBytes env v) else cd_memory s) \<and>
    cd_memorySwap s' = (if k = ''memory-swap'' then the (de_MemSwapBytes env v) else cd_memorySwap s) \<and>
    cd_cpuPeriod s' = (if k = ''cpu-period'' then the (atoi v) else cd_cpuPeriod s) \<and>
    cd_cpuQuota s' = (if k = ''cpu-quota'' then the (atoi v) else cd_cpuQuota s) \<and>
    cd_cpuShares s' = (if k = ''cpu-shares'' then the (atoi v) else cd_cpuShares s) \<and>
    cd_cpusetCpus s' = (if k = ''cpuset-cpus'' then v else cd_cpusetCpus s) \<and>
    cd_cpusetMems s' = (if k = ''cpuset-mems'' then v else cd_cpusetMems s) \<and>
    cd_cgroupParent s' = (if k = ''cgroup-parent'' then v else cd_cgroupParent s) \<and>
    cd_restartPolicy s' = (if k = ''restart-policy'' then the (de_RestartPolicy env v) else cd_restartPolicy s) \<and>
    cd_defaultLoad s' = (if k = ''default-load'' then the (parse_bool v) else cd_defaultLoad s)"
  using assms [unfolded container_option_def]
  by (simp add: env_of_def set_parsed_def Let_def has_prefix_def
    split: if_split_asm option.split_asm; clarsimp)

lemma container_options_env:
  "rfold (container_option env) xs s = Inr t \<Longrightarrow> cd_env t = cd_env s @ concat (map env_of xs) \<and> cd_config t = cd_config s"
proof (induction xs arbitrary: s)
  case (Cons a xs)
  then obtain s1 where "container_option env a s = Inr s1" "rfold (container_option env) xs s1 = Inr t"
    by (auto simp: result_iff)
  with Cons.IH container_option_fields [of env "fst a" "snd a" s s1] show ?case by simp
qed simp

text \<open>What the options set, apart from the environment.\<close>

definition container_settings :: "drv_env \<Rightarrow> (string \<Rightarrow> string option) \<Rightarrow> container_driver \<Rightarrow> container_driver" where
  "container_settings env m s =
     s\<lparr>cd_netMode := (case m ''network'' of None \<Rightarrow> cd_netMode s | Some v \<Rightarrow> v),
       cd_image := (case m ''image'' of None \<Rightarrow> cd_image s | Some v \<Rightarrow> v),
       cd_memory := (case m ''memory'' of None \<Rightarrow> cd_memory s | Some v \<Rightarrow> the (de_MemBytes env v)),
       cd_memorySwap := (case m ''memory-swap'' of None \<Rightarrow> cd_memorySwap s | Some v \<Rightarrow> the (de_MemSwapBytes env v)),
       cd_cpuPeriod := (case m ''cpu-period'' of None \<Rightarrow> cd_cpuPeriod s | Some v \<Rightarrow> the (atoi v)),
       cd_cpuQuota := (case m ''cpu-quota'' of None \<Rightarrow> cd_cpuQuota s | Some v \<Rightarrow> the (atoi v)),
       cd_cpuShares := (case m ''cpu-shares'' of None \<Rightarrow> cd_cpuShares s | Some v \<Rightarrow> the (atoi v)),
       cd_cpusetCpus := (case m ''cpuset-cpus'' of None \<Rightarrow> cd_cpusetCpus s | Some v \<Rightarrow> v),
       cd_cpusetMems := (case m ''cpuset-mems'' of None \<Rightarrow> cd_cpusetMems s | Some v \<Rightarrow> v),
       cd_cgroupParent := (case m ''cgroup-parent'' of None \<Rightarrow> cd_cgroupParent s | Some v \<Rightarrow> v),
       cd_restartPolicy := (case m ''restart-policy'' of None \<Rightarrow> cd_restartPolicy s | Some v \<Rightarrow> the (de_RestartPolicy env v)),
       cd_defaultLoad := (case m ''default-load'' of None \<Rightarrow> cd_defaultLoad s | Some v \<Rightarrow> the (parse_bool v))\<rparr>"

lemma container_options_settings:
  assumes "rfold (container_option env) xs s = Inr t" and "distinct (map fst xs)"
  shows "t = (container_settings env (map_of xs) s)\<lparr>cd_env := cd_env s @ concat (map env_of xs)\<rparr>"
proof -
  note f = rfold_field [OF assms, where val = "\<lambda>v _. v"] rfold_field [OF assms, where val = "\<lambda>v _. the (atoi v)"]
    rfold_field [OF assms, where val = "\<lambda>v _. the (de_MemBytes env v)"]
    rfold_field [OF assms, where val = "\<lambda>v _. the (de_MemSwapBytes env v)"]
    rfold_field [OF assms, where val = "\<lambda>v _. the (de_RestartPolicy env v)"]
    rfold_field [OF assms, where val = "\<lambda>v _. the (parse_bool v)"]
  have "cd_netMode t = (case map_of xs ''network'' of None \<Rightarrow> cd_netMode s | Some v \<Rightarrow> v)"
    by (rule f(1)) (drule container_option_fields; elim conjE; assumption)
  moreover have "cd_image t = (case map_of xs ''image'' of None \<Rightarrow> cd_image s | Some v \<Rightarrow> v)"
    by (rule f(1)) (drule container_option_fields; elim conjE; assumption)
  moreover have "cd_memory t = (case map_of xs ''memory'' of None \<Rightarrow> cd_memory s | Some v \<Rightarrow> the (de_MemBytes env v))"
    by (rule f(3)) (drule container_option_fields; elim conjE; assumption)
  moreover have "cd_memorySwap t = (case map_of xs ''memory-swap'' of None \<Rightarrow> cd_memorySwap s | Some v \<Rightarrow> the (de_MemSwapBytes env v))"
    by (rule f(4)) (drule container_option_fields; elim conjE; assumption)
  moreover have "cd_cpuPeriod t = (case map_of xs ''cpu-period'' of None \<Rightarrow> cd_cpuPeriod s | Some v \<Rightarrow> the (atoi v))"
    by (rule f(2)) (drule container_option_fields; elim conjE; assumption)
  moreover have "cd_cpuQuota t = (case map_of xs ''cpu-quota'' of None \<Rightarrow> cd_cpuQuota s | Some v \<Rightarrow> the (atoi v))"
    by (rule f(2)) (drule container_option_fields; elim conjE; assumption)
  moreover have "cd_cpuShares t = (case map_of xs ''cpu-shares'' of None \<Rightarrow> cd_cpuShares s | Some v \<Rightarrow> the (atoi v))"
    by (rule f(2)) (drule container_option_fields; elim conjE; assumption)
  moreover have "cd_cpusetCpus t = (case map_of xs ''cpuset-cpus'' of None \<Rightarrow> cd_cpusetCpus s | Some v \<Rightarrow> v)"
    by (rule f(1)) (drule container_option_fields; elim conjE; assumption)
  moreover have "cd_cpusetMems t = (case map_of xs ''cpuset-mems'' of None \<Rightarrow> cd_cpusetMems s | Some v \<Rightarrow> v)"
    by (rule f(1)) (drule container_option_fields; elim conjE; assumption)
  moreover have "cd_cgroupParent t = (case map_of xs ''cgroup-parent'' of None \<Rightarrow> cd_cgroupParent s | Some v \<Rightarrow> v)"
    by (rule f(1)) (drule container_option_fields; elim conjE; assumption)
  moreover have "cd_restartPolicy t = (case map_of xs ''restart-policy'' of None \<Rightarrow> cd_restartPolicy s | Some v \<Rightarrow> the (de_RestartPolicy env v))"
    by (rule f(5)) (drule container_option_fields; elim conjE; assumption)
  moreover have "cd_defaultLoad t = (case map_of xs ''default-load'' of None \<Rightarrow> cd_defaultLoad s | Some v \<Rightarrow> the (parse_bool v))"
    by (rule f(6)) (drule container_option_fields; elim conjE; assumption)
  ultimately show ?thesis
    using container_options_env [OF assms(1)] by (intro container_driver.equality) (simp_all add: container_settings_def)
qed

lemma mset_concat_map: "mset (concat (map f xs)) = sum_mset (image_mset (mset \<circ> f) (mset xs))"
  by (simp add: mset_concat sum_mset_sum_list [symmetric] flip: mset_map)

lemma same_settings: "d = c\<lparr>cd_env := a\<rparr> \<Longrightarrow> d' = c\<lparr>cd_env := b\<rparr> \<Longrightarrow> d' = d\<lparr>cd_env := b\<rparr>" for d :: container_driver
  by simp

section \<open>Example configuration\<close>

definition demo_drv_env :: drv_env where
  "demo_drv_env = \<lparr>de_MemBytes = (\<lambda>v. map_option ((*) 1) (atoi v)), de_MemSwapBytes = atoi, de_RestartPolicy = Some,
     de_urlRest = (\<lambda>_. True), de_Hostname = (\<lambda>_. Inr ''host''), de_DialHijack = True\<rparr>"

definition demo_config :: "(string \<times> string) list \<Rightarrow> InitConfig" where
  "demo_config opts = \<lparr>ic_Name = ''buildx_buildkit_foo0'', ic_EndpointAddr = ''unix:///sock'', ic_DockerAPI = True,
     ic_BuildkitdFlags = None, ic_Files = None, ic_DriverOpts = Some (mput_all opts []), ic_Platforms = [],
     ic_ContextPathHash = []\<rparr>"

section \<open>Properties\<close>

text \<open>The order in which the options of a \<open>docker-container\<close> driver are met does
  not matter: either every order is refused or every order gives the same driver, up to the order of the
  variables in the environment of its container; the options are accepted exactly when each one is.\<close>

theorem container_New_order:
  assumes "mset xs = mset ys" and "distinct (map fst xs)"
  shows "case container_New env xs cfg of
      Inl _ \<Rightarrow> \<exists>e. container_New env ys cfg = Inl e
    | Inr d \<Rightarrow> (\<forall>x \<in> set xs. container_option_ok env x) \<and>
        (\<exists>es. container_New env ys cfg = Inr (d\<lparr>cd_env := es\<rparr>) \<and> mset es = mset (cd_env d))"
proof -
  note ys = map_of_reorder [OF assms]
  define start where "start = set_parsed ''restart-policy'' defaultRestartPolicy (de_RestartPolicy env defaultRestartPolicy) (container_default cfg)"
  have new: "container_New env zs cfg = (if \<not> ic_DockerAPI cfg then Inl (DrNoDockerAPI ''docker-container'')
      else rbind start (rfold (container_option env) zs))" for zs by (simp add: container_New_def start_def)
  have ok: "is_ok (rfold (container_option env) zs s) \<longleftrightarrow> (\<forall>x \<in> set zs. container_option_ok env x)" for zs s
    by (rule rfold_ok_iff) (rule container_option_iff)
  show ?thesis
  proof (cases "container_New env xs cfg")
    case (Inl e)
    moreover have "is_ok (rfold (container_option env) ys s) \<longleftrightarrow> is_ok (rfold (container_option env) xs s)" for s
      using ok ys(3) by simp
    ultimately have "\<not> is_ok (container_New env ys cfg)" by (cases start) (auto simp: new is_ok_def)
    with Inl show ?thesis by (cases "container_New env ys cfg") (auto simp: is_ok_def)
  next
    case (Inr d)
    then obtain s where s: "start = Inr s" "rfold (container_option env) xs s = Inr d" "ic_DockerAPI cfg"
      by (auto simp: new result_iff split: if_splits)
    then have all: "\<forall>x \<in> set xs. container_option_ok env x" using ok [of xs s] by (simp add: is_ok_def)
    then obtain d' where d': "rfold (container_option env) ys s = Inr d'" using ok [of ys s] ys(3) by (auto simp: is_ok_iff)
    have "d' = d\<lparr>cd_env := cd_env s @ concat (map env_of ys)\<rparr>"
      by (rule same_settings [OF container_options_settings [OF s(2) assms(2)]
            container_options_settings [OF d' ys(2), folded ys(1)]])
    moreover have "mset (concat (map env_of ys)) = mset (concat (map env_of xs))"
      using assms(1) by (simp only: mset_concat_map)
    ultimately show ?thesis
      using container_options_env [OF s(2)] all s d' Inr by (auto simp: new)
  qed
qed

theorem container_New_order_witness:
  "\<exists>d. container_New demo_drv_env [(''image'', ''img''), (''env.A'', ''1'')] (demo_config []) = Inr d \<and>
     cd_env d = [''A=1''] \<and>
     (\<exists>es. container_New demo_drv_env [(''env.A'', ''1''), (''image'', ''img'')] (demo_config []) = Inr (d\<lparr>cd_env := es\<rparr>))"
proof -
  obtain d where d: "container_New demo_drv_env [(''image'', ''img''), (''env.A'', ''1'')] (demo_config []) = Inr d"
      "cd_env d = [''A=1'']"
    by (simp add: container_New_def demo_config_def demo_drv_env_def set_parsed_def container_option_def
      container_default_def has_prefix_def trim_prefix_def)
  with container_New_order [of "[(''image'', ''img''), (''env.A'', ''1'')]" "[(''env.A'', ''1''), (''image'', ''img'')]"
      demo_drv_env "demo_config []"]
  show ?thesis by (auto simp: add_mset_commute)
qed

end
