(* ===== verification/ConfigDir.thy ===== *)
theory ConfigDir
  imports NodeGroup
begin

text \<open>
  The configuration directory that the instance store and the local state share: the file operations
  of \<open>util/confutil/config.go\<close> (\<open>MkdirAll\<close>, \<open>AtomicWriteFile\<close>) and the ones of package \<open>os\<close> the two
  clients call.  A path is the list of its components below the directory; an entry is a directory or
  a file.  A file holds a document: the value \<open>json.Marshal\<close> was applied to, or plain text.
  Unmarshalling a document of another kind is a JSON error.  Ownership and permission bits are left
  out.  \<open>config_dir\<close> is the interface the clients rely on; its interpretation on the model's
  operations is \<open>cd\<close>.
\<close>

record current =
  c_Key :: string
  c_Name :: string
  c_Global :: bool

record State =
  s_Target :: string
  s_LocalPath :: string
  s_DockerfilePath :: string
  s_GroupRef :: string

record StateGroup =
  g_Definition :: bytes
  g_Targets :: "string list"
  g_Inputs :: "string list"
  g_Refs :: "string list"

datatype doc =
    DNodeGroup nodegroup
  | DCurrent current
  | DText string
  | DState State
  | DGroup StateGroup

type_synonym fpath = "string list"

datatype fentry = FDir | FFile doc

type_synonym fsys = "(fpath, fentry) kvmap"

datatype fs_error = ENotExist | EIsDir | ENotDir | ENotEmpty

section \<open>Operations\<close>

definition is_dir :: "fsys \<Rightarrow> fpath \<Rightarrow> bool" where
  "is_dir fs p \<longleftrightarrow> p = [] \<or> mget fs p = Some FDir"

definition fs_exists :: "fsys \<Rightarrow> fpath \<Rightarrow> bool" where
  "fs_exists fs p \<longleftrightarrow> p = [] \<or> mget fs p \<noteq> None"

definition fs_read :: "fsys \<Rightarrow> fpath \<Rightarrow> fs_error + doc" where
  "fs_read fs p = (case mget fs p of
     None \<Rightarrow> Inl (if p = [] then EIsDir else ENotExist)
   | Some FDir \<Rightarrow> Inl EIsDir
   | Some (FFile d) \<Rightarrow> Inr d)"

definition fs_write :: "fsys \<Rightarrow> fpath \<Rightarrow> doc \<Rightarrow> fs_error + fsys" where
  "fs_write fs p d =
     (if p = [] \<or> mget fs p = Some FDir then Inl EIsDir
      else if is_dir fs (butlast p) then Inr (mset_key p (FFile d) fs)
      else if fs_exists fs (butlast p) then Inl ENotDir
      else Inl ENotExist)"

text \<open>The entries named by the proper prefixes of a path and the path itself, shortest first.\<close>

definition path_prefixes :: "fpath \<Rightarrow> fpath list" where
  "path_prefixes p = map (\<lambda>n. take n p) [1..<Suc (length p)]"

definition mkdir1 :: "fpath \<Rightarrow> fsys \<Rightarrow> fs_error + fsys" where
  "mkdir1 p fs = (case mget fs p of
     None \<Rightarrow> Inr (mset_key p FDir fs) | Some FDir \<Rightarrow> Inr fs | Some (FFile _) \<Rightarrow> Inl ENotDir)"

definition fs_mkdir_all :: "fsys \<Rightarrow> fpath \<Rightarrow> fs_error + fsys" where
  "fs_mkdir_all fs p = (if fs_exists fs p then Inr fs else rfold mkdir1 (path_prefixes p) fs)"

definition fs_readdir :: "fsys \<Rightarrow> fpath \<Rightarrow> fs_error + string list" where
  "fs_readdir fs p =
     (if is_dir fs p
      then Inr (map (last \<circ> fst) (filter (\<lambda>(q, _). q \<noteq> [] \<and> butlast q = p) fs))
      else if fs_exists fs p then Inl ENotDir else Inl ENotExist)"

definition fs_remove_all :: "fsys \<Rightarrow> fpath \<Rightarrow> fsys" where
  "fs_remove_all fs p = filter (\<lambda>(q, _). \<not> prefix p q) fs"

definition fs_remove :: "fsys \<Rightarrow> fpath \<Rightarrow> fs_error + fsys" where
  "fs_remove fs p =
     (if \<not> fs_exists fs p then Inl ENotExist
      else if is_dir fs p \<and> (\<exists>q \<in> set (mkeys fs). strict_prefix p q) then Inl ENotEmpty
      else Inr (mdel p fs))"

section \<open>Laws\<close>

definition fs_wf :: "fsys \<Rightarrow> bool" where
  "fs_wf fs \<longleftrightarrow> wf_map fs \<and> (\<forall>p e. mget fs p = Some e \<longrightarrow> p \<noteq> [] \<and> is_dir fs (butlast p))"

text \<open>The well-formedness check by one pass over the entries.\<close>

lemma fs_wf_code [code]:
  "fs_wf fs \<longleftrightarrow> wf_map fs \<and> list_all (\<lambda>(p, _). p \<noteq> [] \<and> is_dir fs (butlast p)) fs"
proof (cases "wf_map fs")
  case True
  then show ?thesis by (fastforce simp: fs_wf_def list_all_iff mget_Some_iff)
next
  case False
  then show ?thesis by (simp add: fs_wf_def)
qed

lemma mget_remove_all: "mget (fs_remove_all fs p) q = (if prefix p q then None else mget fs q)"
  by (induction fs) (auto simp: fs_remove_all_def mget_def)

lemma fs_read_write:
  assumes "fs_write fs p d = Inr fs'"
  shows "fs_read fs' q = (if q = p then Inr d else fs_read fs q)"
  using assms by (auto simp: fs_write_def fs_read_def gomap_simps split: if_splits)

lemma fs_read_remove_all:
  "fs_read (fs_remove_all fs p) q = (if prefix p q \<and> q \<noteq> [] then Inl ENotExist else fs_read fs q)"
  if "p \<noteq> []"
  using that by (auto simp: fs_read_def mget_remove_all)

lemma mget_mkdir1: "mkdir1 p fs = Inr fs' \<Longrightarrow> mget fs' q = (if q = p then Some FDir else mget fs q)"
  by (auto simp: mkdir1_def gomap_simps split: option.splits fentry.splits)

lemma mget_mkdirs:
  "rfold mkdir1 ps fs = Inr fs' \<Longrightarrow> mget fs' q = (if q \<in> set ps then Some FDir else mget fs q)"
proof (induction ps arbitrary: fs)
  case Nil
  then show ?case by simp
next
  case (Cons p ps)
  then obtain fs1 where "mkdir1 p fs = Inr fs1" and "rfold mkdir1 ps fs1 = Inr fs'"
    by (auto simp: result_iff)
  with Cons.IH [of fs1] mget_mkdir1 [of p fs fs1] show ?case by auto
qed

lemma mkdirs_files_kept:
  "rfold mkdir1 ps fs = Inr fs' \<Longrightarrow> mget fs q = Some (FFile d) \<Longrightarrow> q \<notin> set ps"
proof (induction ps arbitrary: fs)
  case Nil
  then show ?case by simp
next
  case (Cons p ps)
  then obtain fs1 where fs1: "mkdir1 p fs = Inr fs1" and "rfold mkdir1 ps fs1 = Inr fs'"
    by (auto simp: result_iff)
  moreover have "q \<noteq> p" using fs1 Cons.prems(2) by (auto simp: mkdir1_def)
  ultimately show ?case using Cons.IH [of fs1] mget_mkdir1 [OF fs1, of q] Cons.prems(2) by auto
qed

lemma fs_mkdir_all_read:
  assumes "fs_mkdir_all fs p = Inr fs'"
  shows "fs_read fs' q = Inr d \<longleftrightarrow> fs_read fs q = Inr d"
proof (cases "fs_exists fs p")
  case True
  then show ?thesis using assms by (simp add: fs_mkdir_all_def)
next
  case False
  then have r: "rfold mkdir1 (path_prefixes p) fs = Inr fs'" using assms by (simp add: fs_mkdir_all_def)
  have "mget fs' q = Some (FFile d) \<longleftrightarrow> mget fs q = Some (FFile d)"
    using mget_mkdirs [OF r, of q] mkdirs_files_kept [OF r, of q d] by auto
  then show ?thesis by (auto simp: fs_read_def split: option.splits fentry.splits)
qed

lemma wf_map_mkdirs: "rfold mkdir1 ps fs = Inr fs' \<Longrightarrow> wf_map fs \<Longrightarrow> wf_map fs'"
  by (erule rfold_invariant) (auto simp: mkdir1_def split: option.splits fentry.splits)

lemma path_prefixes_iff: "q \<in> set (path_prefixes p) \<longleftrightarrow> q \<noteq> [] \<and> prefix q p"
proof
  assume "q \<in> set (path_prefixes p)"
  then show "q \<noteq> [] \<and> prefix q p"
    by (auto simp: path_prefixes_def take_is_prefix)
next
  assume q: "q \<noteq> [] \<and> prefix q p"
  then have "q = take (length q) p" and "length q \<le> length p" and "1 \<le> length q"
    by (auto simp: prefix_def Suc_le_eq)
  then show "q \<in> set (path_prefixes p)"
    unfolding path_prefixes_def set_map by (intro image_eqI [of _ _ "length q"]) auto
qed

lemma prefix_butlast: "prefix q p \<Longrightarrow> prefix (butlast q) p"
  using prefix_order.trans prefixeq_butlast by blast

lemma fs_wf_write:
  assumes "fs_wf fs" and "fs_write fs p d = Inr fs'"
  shows "fs_wf fs'"
proof -
  have "mget fs p \<noteq> Some FDir" "p \<noteq> []" "is_dir fs (butlast p)" "fs' = mset_key p (FFile d) fs"
    using assms(2) by (auto simp: fs_write_def split: if_splits)
  then show ?thesis
    using assms(1) by (auto simp: fs_wf_def is_dir_def gomap_simps)
qed

lemma fs_wf_mkdir_all:
  assumes "fs_wf fs" and "fs_mkdir_all fs p = Inr fs'"
  shows "fs_wf fs'"
proof (cases "fs_exists fs p")
  case True
  then show ?thesis using assms by (simp add: fs_mkdir_all_def)
next
  case False
  then have r: "rfold mkdir1 (path_prefixes p) fs = Inr fs'" using assms by (simp add: fs_mkdir_all_def)
  have "q \<noteq> [] \<and> is_dir fs' (butlast q)" if "mget fs' q = Some e" for q e
  proof (cases "q \<in> set (path_prefixes p)")
    case True
    then show ?thesis
      using mget_mkdirs [OF r, of "butlast q"] prefix_butlast [of q p]
      by (auto simp: is_dir_def path_prefixes_iff)
  next
    case False
    then show ?thesis
      using that mget_mkdirs [OF r] assms(1) by (auto simp: fs_wf_def is_dir_def)
  qed
  then show ?thesis using wf_map_mkdirs [OF r] assms(1) by (auto simp: fs_wf_def)
qed

lemma fs_wf_remove_all:
  assumes "fs_wf fs"
  shows "fs_wf (fs_remove_all fs p)"
proof -
  have "wf_map (fs_remove_all fs p)"
    using assms unfolding fs_wf_def fs_remove_all_def wf_map_def
    by (auto simp: sorted_wrt_map intro: sorted_wrt_filter)
  moreover have "q \<noteq> [] \<and> is_dir (fs_remove_all fs p) (butlast q)"
    if "mget (fs_remove_all fs p) q = Some e" for q e
  proof -
    have "\<not> prefix p q" and "q \<noteq> [] \<and> is_dir fs (butlast q)"
      using that assms by (auto simp: mget_remove_all fs_wf_def split: if_splits)
    then show ?thesis
      using prefix_order.trans [of p "butlast q" q] prefixeq_butlast [of q]
      by (auto simp: is_dir_def mget_remove_all)
  qed
  ultimately show ?thesis by (auto simp: fs_wf_def)
qed

lemma fs_readdir_iff:
  assumes "fs_wf fs" and "fs_readdir fs p = Inr ns"
  shows "n \<in> set ns \<longleftrightarrow> mget fs (p @ [n]) \<noteq> None"
proof -
  have ns: "ns = map (last \<circ> fst) (filter (\<lambda>(q, _). q \<noteq> [] \<and> butlast q = p) fs)"
    using assms(2) by (auto simp: fs_readdir_def split: if_splits)
  have "n \<in> set ns \<longleftrightarrow> p @ [n] \<in> fst ` set fs"
    unfolding ns by (force simp: image_iff snoc_eq_iff_butlast)
  then show ?thesis by (simp add: mget_def map_of_eq_None_iff)
qed

section \<open>The interface\<close>

text \<open>What the clients rely on: a read sees the last write of its own path, removals take whole
  subtrees, creating directories changes no file.\<close>

locale config_dir =
  fixes rd :: "'f \<Rightarrow> 'a list \<Rightarrow> 'e + 'd"
    and wr :: "'f \<Rightarrow> 'a list \<Rightarrow> 'd \<Rightarrow> 'e + 'f"
    and remove_all :: "'f \<Rightarrow> 'a list \<Rightarrow> 'f"
    and mkdir_all :: "'f \<Rightarrow> 'a list \<Rightarrow> 'e + 'f"
    and invar :: "'f \<Rightarrow> bool"
    and not_exist :: 'e
  assumes read_write: "wr f p d = Inr f' \<Longrightarrow> rd f' q = (if q = p then Inr d else rd f q)"
    and read_remove: "p \<noteq> [] \<Longrightarrow> prefix p q \<Longrightarrow> rd (remove_all f p) q = Inl not_exist"
    and read_keep: "p \<noteq> [] \<Longrightarrow> \<not> prefix p q \<Longrightarrow> rd (remove_all f p) q = rd f q"
    and read_mkdir: "mkdir_all f p = Inr f' \<Longrightarrow> rd f' q = Inr d \<longleftrightarrow> rd f q = Inr d"
    and invar_write: "invar f \<Longrightarrow> wr f p d = Inr f' \<Longrightarrow> invar f'"
    and invar_remove: "invar f \<Longrightarrow> invar (remove_all f p)"
    and invar_mkdir: "invar f \<Longrightarrow> mkdir_all f p = Inr f' \<Longrightarrow> invar f'"
begin

lemma read_own_write: "wr f p d = Inr f' \<Longrightarrow> rd f' p = Inr d"
  by (simp add: read_write)

lemma read_other_write: "wr f p d = Inr f' \<Longrightarrow> q \<noteq> p \<Longrightarrow> rd f' q = rd f q"
  by (simp add: read_write)

lemma last_write_wins:
  "wr f p d = Inr f1 \<Longrightarrow> wr f1 p d' = Inr f2 \<Longrightarrow> rd f2 q = (if q = p then Inr d' else rd f q)"
  by (simp add: read_write)

lemma writes_independent:
  assumes "wr f p d = Inr f1" "wr f1 p' d' = Inr f2" "wr f p' d' = Inr g1" "wr g1 p d = Inr g2"
    and "p \<noteq> p'"
  shows "rd f2 q = rd g2 q"
  using assms by (simp add: read_write)

lemma write_then_remove:
  "wr f p d = Inr f' \<Longrightarrow> p \<noteq> [] \<Longrightarrow> rd (remove_all f' p) q = rd (remove_all f p) q"
  by (cases "prefix p q") (auto simp: read_remove read_keep read_write)

lemma mkdir_then_write:
  assumes "mkdir_all f p = Inr f1" "wr f1 q d = Inr f2"
  shows "rd f2 r = Inr e \<longleftrightarrow> (if r = q then e = d else rd f r = Inr e)"
  using assms read_mkdir by (auto simp: read_write)

lemma invar_mkdir_write:
  "invar f \<Longrightarrow> mkdir_all f p = Inr f1 \<Longrightarrow> wr f1 q d = Inr f2 \<Longrightarrow> invar f2"
  using invar_mkdir invar_write by blast
end

interpretation cd: config_dir fs_read fs_write fs_remove_all fs_mkdir_all fs_wf ENotExist
proof (unfold_locales, goal_cases)
  case 1 then show ?case by (rule fs_read_write)
next
  case (2 p q f) then show ?case using fs_read_remove_all [of p f q] by auto
next
  case (3 p q f) then show ?case using fs_read_remove_all [of p f q] by simp
next
  case 4 then show ?case by (rule fs_mkdir_all_read)
next
  case 5 then show ?case by (rule fs_wf_write)
next
  case 6 then show ?case by (rule fs_wf_remove_all)
next
  case 7 then show ?case by (rule fs_wf_mkdir_all)
qed

end
