(* ===== verification/LocalState.thy ===== *)
theory LocalState
  imports ConfigDir
begin

text \<open>
  The build references kept per builder and node (\<open>localstate/localstate.go\<close>).  A reference is a file
  \<open>refs/builder/node/id\<close>, a group of references the file \<open>refs/__group__/id\<close>.  Removing a node reads
  its references in concurrent goroutines whose critical sections a mutex serialises: the model runs
  them in a given order, and the lemmas show that the outcome does not depend on it.  Builder, node
  and reference names are single path components.
\<close>

datatype ls_error =
    LsConfigDirEmpty
  | LsBuilderEmpty
  | LsNodeEmpty
  | LsRefEmpty
  | LsGroupEmpty
  | LsFs fs_error
  | LsJson

abbreviation refsDir :: string where "refsDir \<equiv> ''refs''"

abbreviation groupDir :: string where "groupDir \<equiv> ''__group__''"

section \<open>Operations\<close>

definition ls_New :: "fsys \<Rightarrow> string \<Rightarrow> ls_error + fsys" where
  "ls_New fs dir =
     (if dir = [] then Inl LsConfigDirEmpty else map_err LsFs (fs_mkdir_all fs [refsDir]))"

definition ls_validate :: "string \<Rightarrow> string \<Rightarrow> string \<Rightarrow> ls_error + unit" where
  "ls_validate builderName nodeName rid =
     (if builderName = [] then Inl LsBuilderEmpty
      else if nodeName = [] then Inl LsNodeEmpty
      else if rid = [] then Inl LsRefEmpty
      else Inr ())"

definition ReadRef :: "fsys \<Rightarrow> string \<Rightarrow> string \<Rightarrow> string \<Rightarrow> ls_error + State" where
  "ReadRef fs builderName nodeName rid =
     rbind (ls_validate builderName nodeName rid) (\<lambda>_.
     rbind (map_err LsFs (fs_read fs [refsDir, builderName, nodeName, rid])) (\<lambda>d.
     case d of DState st \<Rightarrow> Inr st | _ \<Rightarrow> Inl LsJson))"

definition SaveRef :: "fsys \<Rightarrow> string \<Rightarrow> string \<Rightarrow> string \<Rightarrow> State \<Rightarrow> ls_error + fsys" where
  "SaveRef fs builderName nodeName rid st =
     rbind (ls_validate builderName nodeName rid) (\<lambda>_.
     rbind (map_err LsFs (fs_mkdir_all fs [refsDir, builderName, nodeName])) (\<lambda>fs.
     map_err LsFs (fs_write fs [refsDir, builderName, nodeName, rid] (DState st))))"

definition ReadGroup :: "fsys \<Rightarrow> string \<Rightarrow> ls_error + StateGroup" where
  "ReadGroup fs rid =
     rbind (map_err LsFs (fs_read fs [refsDir, groupDir, rid])) (\<lambda>d.
     case d of DGroup g \<Rightarrow> Inr g | _ \<Rightarrow> Inl LsJson)"

definition SaveGroup :: "fsys \<Rightarrow> string \<Rightarrow> StateGroup \<Rightarrow> ls_error + fsys" where
  "SaveGroup fs rid stg =
     rbind (map_err LsFs (fs_mkdir_all fs [refsDir, groupDir])) (\<lambda>fs.
     map_err LsFs (fs_write fs [refsDir, groupDir, rid] (DGroup stg)))"

definition removeGroup :: "string \<Rightarrow> fsys \<Rightarrow> ls_error + fsys" where
  "removeGroup rid fs =
     (if rid = [] then Inl LsGroupEmpty
      else if \<not> fs_exists fs [refsDir, groupDir, rid] then Inr fs
      else map_err LsFs (fs_remove fs [refsDir, groupDir, rid]))"

text \<open>The critical section of the goroutine that handles one reference: the references of a group
  as the group file lists them (\<open>grefs\<close>), and as this node holds them (\<open>srefs\<close>).\<close>

type_synonym ref_maps = "string list gomap \<times> string list gomap"

definition ref_name :: "string \<Rightarrow> string \<Rightarrow> string \<Rightarrow> string" where
  "ref_name b n rid = b @ ''/'' @ n @ ''/'' @ rid"

definition collect_ref :: "fsys \<Rightarrow> string \<Rightarrow> string \<Rightarrow> string \<Rightarrow> ref_maps \<Rightarrow> ls_error + ref_maps" where
  "collect_ref fs b n rid maps =
     rbind (ReadRef fs b n rid) (\<lambda>st.
       let g = s_GroupRef st; (grefs, srefs) = maps
       in if g = [] then Inr maps
          else
            let grefs' = (case mget grefs g of
                            Some _ \<Rightarrow> grefs
                          | None \<Rightarrow> (case ReadGroup fs g of
                                      Inl _ \<Rightarrow> grefs
                                    | Inr grp \<Rightarrow> mset_key g (g_Refs grp) grefs));
                old = (case mget srefs g of None \<Rightarrow> [] | Some l \<Rightarrow> l)
            in Inr (grefs', mset_key g (old @ [ref_name b n rid]) srefs))"

text \<open>The loop over the groups found: a group goes when the node holds as many references of it as it
  lists.\<close>

definition drop_group :: "string list gomap \<Rightarrow> string \<times> string list \<Rightarrow> fsys \<Rightarrow> ls_error + fsys" where
  "drop_group srefs = (\<lambda>(gid, refs) fs.
     case mget srefs gid of
       None \<Rightarrow> Inr fs
     | Some s \<Rightarrow> if length s \<noteq> length refs then Inr fs else removeGroup gid fs)"

definition RemoveBuilderNode_in :: "string list \<Rightarrow> fsys \<Rightarrow> string \<Rightarrow> string \<Rightarrow> ls_error + fsys" where
  "RemoveBuilderNode_in order fs b n =
     rbind (rfold (collect_ref fs b n) order ([], [])) (\<lambda>(grefs, srefs).
     rbind (rfold (drop_group srefs) grefs fs) (\<lambda>fs.
     Inr (fs_remove_all fs [refsDir, b, n])))"

definition RemoveBuilderNode :: "fsys \<Rightarrow> string \<Rightarrow> string \<Rightarrow> ls_error + fsys" where
  "RemoveBuilderNode fs b n =
     (if b = [] then Inl LsBuilderEmpty
      else if n = [] then Inl LsNodeEmpty
      else if \<not> fs_exists fs [refsDir, b, n] then Inr fs
      else rbind (map_err LsFs (fs_readdir fs [refsDir, b, n])) (\<lambda>fis. RemoveBuilderNode_in fis fs b n))"

definition RemoveBuilder :: "fsys \<Rightarrow> string \<Rightarrow> ls_error + fsys" where
  "RemoveBuilder fs b =
     (if b = [] then Inl LsBuilderEmpty
      else if \<not> fs_exists fs [refsDir, b] then Inr fs
      else rbind (map_err LsFs (fs_readdir fs [refsDir, b])) (\<lambda>fis.
           rbind (rfold (\<lambda>n fs. RemoveBuilderNode fs b n) fis fs) (\<lambda>fs.
           Inr (fs_remove_all fs [refsDir, b]))))"

section \<open>Saving and reading back\<close>

lemma ReadRef_path:
  "ReadRef fs b n rid = Inr st \<longleftrightarrow>
     b \<noteq> [] \<and> n \<noteq> [] \<and> rid \<noteq> [] \<and> fs_read fs [refsDir, b, n, rid] = Inr (DState st)"
  by (cases "fs_read fs [refsDir, b, n, rid]")
     (auto simp: ReadRef_def ls_validate_def split: doc.splits)

lemma ReadGroup_path: "ReadGroup fs rid = Inr g \<longleftrightarrow> fs_read fs [refsDir, groupDir, rid] = Inr (DGroup g)"
  by (cases "fs_read fs [refsDir, groupDir, rid]") (auto simp: ReadGroup_def split: doc.splits)

lemma SaveRef_ok:
  assumes "SaveRef fs b n rid st = Inr fs'"
  shows "b \<noteq> [] \<and> n \<noteq> [] \<and> rid \<noteq> []"
    and "\<exists>fs1. fs_mkdir_all fs [refsDir, b, n] = Inr fs1 \<and> fs_write fs1 [refsDir, b, n, rid] (DState st) = Inr fs'"
  using assms by (auto simp: SaveRef_def ls_validate_def result_iff split: if_splits)

lemma SaveGroup_ok:
  assumes "SaveGroup fs rid g = Inr fs'"
  shows "\<exists>fs1. fs_mkdir_all fs [refsDir, groupDir] = Inr fs1 \<and> fs_write fs1 [refsDir, groupDir, rid] (DGroup g) = Inr fs'"
  using assms by (auto simp: SaveGroup_def result_iff)

section \<open>Collecting the references of a node\<close>

definition group_of :: "fsys \<Rightarrow> string \<Rightarrow> string \<Rightarrow> string \<Rightarrow> string" where
  "group_of fs b n rid = (case ReadRef fs b n rid of Inl _ \<Rightarrow> [] | Inr st \<Rightarrow> s_GroupRef st)"

definition group_refs :: "fsys \<Rightarrow> string \<Rightarrow> string list option" where
  "group_refs fs g = (case ReadGroup fs g of Inl _ \<Rightarrow> None | Inr grp \<Rightarrow> Some (g_Refs grp))"

definition held :: "fsys \<Rightarrow> string \<Rightarrow> string \<Rightarrow> string list \<Rightarrow> string \<Rightarrow> string list" where
  "held fs b n ids g = map (ref_name b n) (filter (\<lambda>rid. group_of fs b n rid = g) ids)"

text \<open>The maps after the references of a list, by lookup: independent of everything but the list.\<close>

definition maps_ok :: "fsys \<Rightarrow> string \<Rightarrow> string \<Rightarrow> string list \<Rightarrow> ref_maps \<Rightarrow> bool" where
  "maps_ok fs b n ids = (\<lambda>(grefs, srefs). wf_map grefs \<and> wf_map srefs \<and>
     (\<forall>g. mget grefs g = (if g \<noteq> [] \<and> held fs b n ids g \<noteq> [] then group_refs fs g else None)) \<and>
     (\<forall>g. mget srefs g = (if g \<noteq> [] \<and> held fs b n ids g \<noteq> [] then Some (held fs b n ids g) else None)))"

lemma held_append [simp]: "held fs b n (xs @ ys) g = held fs b n xs g @ held fs b n ys g"
  by (simp add: held_def)

lemma held_single: "held fs b n [rid] g = (if group_of fs b n rid = g then [ref_name b n rid] else [])"
  by (simp add: held_def)

lemma collect_ref_maps_ok:
  assumes "maps_ok fs b n ids maps" and "collect_ref fs b n rid maps = Inr maps'"
  shows "maps_ok fs b n (ids @ [rid]) maps'"
proof -
  obtain grefs srefs where maps: "maps = (grefs, srefs)" by (cases maps)
  obtain st where st: "ReadRef fs b n rid = Inr st" and g: "group_of fs b n rid = s_GroupRef st"
    using assms(2) by (auto simp: collect_ref_def result_iff group_of_def)
  show ?thesis
  proof (cases "s_GroupRef st = []")
    case True
    then have "maps' = maps" using assms(2) st maps by (simp add: collect_ref_def)
    then show ?thesis
      using assms(1) True g maps by (auto simp: maps_ok_def held_single)
  next
    case False
    let ?g = "s_GroupRef st"
    let ?grefs = "case mget grefs ?g of Some _ \<Rightarrow> grefs
      | None \<Rightarrow> (case ReadGroup fs ?g of Inl _ \<Rightarrow> grefs | Inr grp \<Rightarrow> mset_key ?g (g_Refs grp) grefs)"
    let ?old = "case mget srefs ?g of None \<Rightarrow> [] | Some l \<Rightarrow> l"
    have m': "maps' = (?grefs, mset_key ?g (?old @ [ref_name b n rid]) srefs)"
      using assms(2) st maps False by (simp add: collect_ref_def Let_def)
    have old: "?old = held fs b n ids ?g"
      using assms(1) maps False by (auto simp: maps_ok_def)
    have "mget ?grefs k = (if k \<noteq> [] \<and> held fs b n (ids @ [rid]) k \<noteq> [] then group_refs fs k else None)" for k
      using assms(1) maps False g
      by (cases "k = ?g") (auto simp: maps_ok_def held_single gomap_simps group_refs_def split: option.splits sum.splits)
    moreover have "wf_map ?grefs"
      using assms(1) maps by (auto simp: maps_ok_def split: option.splits sum.splits)
    moreover have "mget (mset_key ?g (?old @ [ref_name b n rid]) srefs) k =
        (if k \<noteq> [] \<and> held fs b n (ids @ [rid]) k \<noteq> [] then Some (held fs b n (ids @ [rid]) k) else None)" for k
      using assms(1) maps False g old
      by (cases "k = ?g") (auto simp: maps_ok_def held_single gomap_simps)
    ultimately show ?thesis
      using m' assms(1) maps by (auto simp: maps_ok_def)
  qed
qed

lemma collect_all_maps_ok:
  "rfold (collect_ref fs b n) ids ([], []) = Inr maps \<Longrightarrow> maps_ok fs b n ids maps"
proof (induction ids arbitrary: maps rule: rev_induct)
  case Nil
  then show ?case by (auto simp: maps_ok_def held_def)
next
  case (snoc rid ids)
  then show ?case using collect_ref_maps_ok by (fastforce simp: result_iff)
qed

lemma collect_ref_ok_iff: "is_ok (collect_ref fs b n rid maps) \<longleftrightarrow> is_ok (ReadRef fs b n rid)"
  by (cases "ReadRef fs b n rid"; cases maps) (auto simp: collect_ref_def Let_def)

lemma collect_all_ok_iff:
  "is_ok (rfold (collect_ref fs b n) ids maps) \<longleftrightarrow> (\<forall>rid \<in> set ids. is_ok (ReadRef fs b n rid))"
proof (induction ids arbitrary: maps)
  case Nil
  then show ?case by simp
next
  case (Cons rid ids)
  then show ?case
    using collect_ref_ok_iff [of fs b n rid maps] by (cases "collect_ref fs b n rid maps") auto
qed

section \<open>Dropping groups\<close>

definition full_group :: "string list gomap \<Rightarrow> string list gomap \<Rightarrow> string \<Rightarrow> bool" where
  "full_group srefs l g \<longleftrightarrow> (\<exists>refs s. (g, refs) \<in> set l \<and> mget srefs g = Some s \<and> length s = length refs)"

lemma full_group_Cons:
  "full_group srefs ((g, refs) # l) h \<longleftrightarrow>
     h = g \<and> (\<exists>s. mget srefs g = Some s \<and> length s = length refs) \<or> full_group srefs l h"
  by (auto simp: full_group_def)

lemma removeGroup_file:
  assumes "g \<noteq> []" and "mget fs [refsDir, groupDir, g] \<noteq> Some FDir"
  shows "removeGroup g fs = Inr (mdel [refsDir, groupDir, g] fs)"
proof (cases "mget fs [refsDir, groupDir, g]")
  case None
  then have "mdel [refsDir, groupDir, g] fs = fs"
    by (induction fs) (auto simp: mdel_def mget_def split: if_splits)
  with None assms show ?thesis by (simp add: removeGroup_def fs_exists_def)
next
  case (Some e)
  with assms show ?thesis by (simp add: removeGroup_def fs_exists_def fs_remove_def is_dir_def)
qed

lemma drop_groups:
  assumes "\<forall>(g, _) \<in> set l. g \<noteq> [] \<and> mget fs [refsDir, groupDir, g] \<noteq> Some FDir"
  shows "\<exists>fs'. rfold (drop_group srefs) l fs = Inr fs' \<and> (wf_map fs \<longrightarrow> wf_map fs') \<and>
    (\<forall>q. mget fs' q = (if \<exists>g. q = [refsDir, groupDir, g] \<and> full_group srefs l g then None else mget fs q))"
  using assms
proof (induction l arbitrary: fs)
  case Nil
  then show ?case by (simp add: full_group_def)
next
  case (Cons gr l)
  obtain g refs where gr: "gr = (g, refs)" by (cases gr)
  define full where "full \<longleftrightarrow> (\<exists>s. mget srefs g = Some s \<and> length s = length refs)"
  define fs1 where "fs1 = (if full then mdel [refsDir, groupDir, g] fs else fs)"
  have step: "drop_group srefs gr fs = Inr fs1"
    using Cons.prems removeGroup_file [of g fs] gr
    by (auto simp: drop_group_def fs1_def full_def split: option.splits)
  have get1: "mget fs1 q = (if full \<and> q = [refsDir, groupDir, g] then None else mget fs q)" for q
    by (simp add: fs1_def mget_del)
  have "\<forall>(h, _) \<in> set l. h \<noteq> [] \<and> mget fs1 [refsDir, groupDir, h] \<noteq> Some FDir"
    using Cons.prems by (fastforce simp: get1 split: if_splits)
  from Cons.IH [OF this] obtain fs' where fs': "rfold (drop_group srefs) l fs1 = Inr fs'"
      "wf_map fs1 \<longrightarrow> wf_map fs'"
      "\<forall>q. mget fs' q = (if \<exists>g. q = [refsDir, groupDir, g] \<and> full_group srefs l g then None else mget fs1 q)"
    by blast
  have "mget fs' q = (if \<exists>h. q = [refsDir, groupDir, h] \<and> full_group srefs (gr # l) h then None else mget fs q)" for q
    using fs'(3) get1 [of q] by (auto simp: gr full_group_Cons full_def)
  moreover have "wf_map fs \<longrightarrow> wf_map fs'" using fs'(2) by (auto simp: fs1_def)
  ultimately show ?case using step fs'(1) by auto
qed

text \<open>The groups that go with a node: those it holds all references of, by number.\<close>

definition doomed :: "fsys \<Rightarrow> string \<Rightarrow> string \<Rightarrow> string list \<Rightarrow> string \<Rightarrow> bool" where
  "doomed fs b n ids g \<longleftrightarrow> g \<noteq> [] \<and> held fs b n ids g \<noteq> [] \<and>
     (case group_refs fs g of None \<Rightarrow> False | Some refs \<Rightarrow> length (held fs b n ids g) = length refs)"

lemma full_group_doomed:
  assumes "maps_ok fs b n ids (grefs, srefs)"
  shows "full_group srefs grefs g \<longleftrightarrow> doomed fs b n ids g"
proof -
  have "(g, refs) \<in> set grefs \<longleftrightarrow> mget grefs g = Some refs" for refs
    using assms mget_Some_iff [of grefs g refs] unfolding maps_ok_def by blast
  then show ?thesis
    using assms by (auto simp: full_group_def doomed_def maps_ok_def split: option.splits if_splits)
qed

lemma maps_ok_groups:
  assumes "maps_ok fs b n ids (grefs, srefs)" and "(g, refs) \<in> set grefs"
  shows "g \<noteq> [] \<and> mget fs [refsDir, groupDir, g] \<noteq> Some FDir"
proof -
  have "mget grefs g = Some refs"
    using assms mget_Some_iff [of grefs g refs] unfolding maps_ok_def by blast
  then have "g \<noteq> []" and "group_refs fs g = Some refs"
    using assms(1) by (auto simp: maps_ok_def split: if_splits)
  then show ?thesis
    by (auto simp: group_refs_def ReadGroup_def fs_read_def split: sum.splits)
qed

lemma RemoveBuilderNode_in_spec:
  assumes "\<forall>rid \<in> set ids. is_ok (ReadRef fs b n rid)"
  shows "\<exists>fs'. RemoveBuilderNode_in ids fs b n = Inr fs' \<and> (wf_map fs \<longrightarrow> wf_map fs') \<and>
    (\<forall>q. mget fs' q =
       (if prefix [refsDir, b, n] q \<or> (\<exists>g. q = [refsDir, groupDir, g] \<and> doomed fs b n ids g) then None
        else mget fs q))"
proof -
  obtain grefs srefs where c: "rfold (collect_ref fs b n) ids ([], []) = Inr (grefs, srefs)"
    using assms collect_all_ok_iff [of fs b n ids "([], [])"] by (auto simp: is_ok_iff)
  note m = collect_all_maps_ok [OF c]
  obtain fs1 where fs1: "rfold (drop_group srefs) grefs fs = Inr fs1" "wf_map fs \<longrightarrow> wf_map fs1"
      "\<forall>q. mget fs1 q = (if \<exists>g. q = [refsDir, groupDir, g] \<and> full_group srefs grefs g then None else mget fs q)"
    using drop_groups [of grefs fs srefs] maps_ok_groups [OF m] by blast
  have "wf_map fs1 \<Longrightarrow> wf_map (fs_remove_all fs1 [refsDir, b, n])"
    unfolding wf_map_def fs_remove_all_def by (auto simp: sorted_wrt_map intro: sorted_wrt_filter)
  then show ?thesis
    using fs1 c full_group_doomed [OF m] by (auto simp: RemoveBuilderNode_in_def mget_remove_all)
qed

lemma RemoveBuilderNode_in_ok:
  "is_ok (RemoveBuilderNode_in ids fs b n) \<longleftrightarrow> (\<forall>rid \<in> set ids. is_ok (ReadRef fs b n rid))"
proof
  assume "is_ok (RemoveBuilderNode_in ids fs b n)"
  then have "is_ok (rfold (collect_ref fs b n) ids ([], []))"
    by (auto simp: RemoveBuilderNode_in_def is_ok_iff result_iff)
  then show "\<forall>rid \<in> set ids. is_ok (ReadRef fs b n rid)" by (simp only: collect_all_ok_iff)
next
  assume "\<forall>rid \<in> set ids. is_ok (ReadRef fs b n rid)"
  then show "is_ok (RemoveBuilderNode_in ids fs b n)"
    using RemoveBuilderNode_in_spec by (fastforce simp: is_ok_iff)
qed

lemma RemoveBuilderNode_frame:
  assumes "RemoveBuilderNode fs b n = Inr fs'"
    and "\<not> prefix [refsDir, b, n] q" and "\<And>g. q \<noteq> [refsDir, groupDir, g]"
  shows "mget fs' q = mget fs q"
proof (cases "fs_exists fs [refsDir, b, n]")
  case False
  then show ?thesis using assms(1) by (auto simp: RemoveBuilderNode_def split: if_splits)
next
  case True
  then obtain ids where "RemoveBuilderNode_in ids fs b n = Inr fs'"
    using assms(1) by (auto simp: RemoveBuilderNode_def result_iff split: if_splits)
  moreover from this have "\<forall>rid \<in> set ids. is_ok (ReadRef fs b n rid)"
    using RemoveBuilderNode_in_ok [of ids fs b n] by simp
  ultimately have "mget fs' q =
      (if prefix [refsDir, b, n] q \<or> (\<exists>g. q = [refsDir, groupDir, g] \<and> doomed fs b n ids g) then None
       else mget fs q)"
    using RemoveBuilderNode_in_spec [of ids fs b n] by (metis sum.inject(2))
  then show ?thesis using assms(2,3) by simp
qed

lemma ReadRef_cong: "mget fs' [refsDir, b, n, rid] = mget fs [refsDir, b, n, rid] \<Longrightarrow> ReadRef fs' b n rid = ReadRef fs b n rid"
  by (simp add: ReadRef_def fs_read_def)

section \<open>Properties\<close>

definition demo_state :: "string \<Rightarrow> State" where
  "demo_state g = \<lparr>s_Target = ''default'', s_LocalPath = ''/src'', s_DockerfilePath = ''/src/Dockerfile'', s_GroupRef = g\<rparr>"

definition demo_group :: "string list \<Rightarrow> StateGroup" where
  "demo_group refs = \<lparr>g_Definition = [], g_Targets = [], g_Inputs = [], g_Refs = refs\<rparr>"

text \<open>Two nodes of one builder, a group \<open>g\<close> with one reference on each, a group \<open>k\<close> on the first only.\<close>

definition demo_refs :: fsys where
  "demo_refs = mput_all
     [([''refs''], FDir), ([''refs'', ''bld''], FDir), ([''refs'', ''bld'', ''n0''], FDir),
      ([''refs'', ''bld'', ''n1''], FDir), ([''refs'', ''__group__''], FDir),
      ([''refs'', ''bld'', ''n0'', ''x''], FFile (DState (demo_state ''g''))),
      ([''refs'', ''bld'', ''n0'', ''z''], FFile (DState (demo_state ''k''))),
      ([''refs'', ''bld'', ''n1'', ''y''], FFile (DState (demo_state ''g''))),
      ([''refs'', ''__group__'', ''g''], FFile (DGroup (demo_group [''bld/n0/x'', ''bld/n1/y'']))),
      ([''refs'', ''__group__'', ''k''], FFile (DGroup (demo_group [''bld/n0/z''])))] []"

text \<open>A saved reference reads back as it was saved, and saving it changes what is
  read of no other reference and of no group.\<close>

theorem SaveRef_ReadRef:
  assumes "SaveRef fs b n rid st = Inr fs'"
  shows "ReadRef fs' b n rid = Inr st \<and>
    (\<forall>b' n' rid' st'. (b', n', rid') \<noteq> (b, n, rid) \<longrightarrow>
       (ReadRef fs' b' n' rid' = Inr st' \<longleftrightarrow> ReadRef fs b' n' rid' = Inr st')) \<and>
    (\<forall>g grp. ReadGroup fs' g = Inr grp \<longleftrightarrow> ReadGroup fs g = Inr grp)"
proof -
  obtain fs1 where *: "fs_mkdir_all fs [refsDir, b, n] = Inr fs1"
      "fs_write fs1 [refsDir, b, n, rid] (DState st) = Inr fs'"
    using SaveRef_ok(2) [OF assms] by blast
  show ?thesis
    using cd.mkdir_then_write [OF *] SaveRef_ok(1) [OF assms] by (auto simp: ReadRef_path ReadGroup_path)
qed

theorem SaveRef_ReadRef_witness:
  "\<exists>fs'. SaveRef demo_refs ''bld'' ''n2'' ''w'' (demo_state []) = Inr fs' \<and>
     ReadRef fs' ''bld'' ''n2'' ''w'' = Inr (demo_state []) \<and>
     ReadRef fs' ''bld'' ''n0'' ''x'' = Inr (demo_state ''g'')"
proof -
  have "is_ok (SaveRef demo_refs ''bld'' ''n2'' ''w'' (demo_state []))"
    and x: "ReadRef demo_refs ''bld'' ''n0'' ''x'' = Inr (demo_state ''g'')"
    by code_simp+
  then obtain fs' where fs': "SaveRef demo_refs ''bld'' ''n2'' ''w'' (demo_state []) = Inr fs'"
    by (auto simp: is_ok_iff)
  show ?thesis using SaveRef_ReadRef [OF fs'] fs' x by auto
qed

text \<open>C38 (RemoveBuilderNode_removes): where every reference of a node can be read, removing the node
  succeeds; it removes the references of the node and no others, and of the groups exactly those of
  which the node holds as many references as the group lists.\<close>

theorem RemoveBuilderNode_removes:
  assumes "b \<noteq> []" and "n \<noteq> []" and "b \<noteq> groupDir"
    and "fs_readdir fs [refsDir, b, n] = Inr ids" and "\<forall>rid \<in> set ids. is_ok (ReadRef fs b n rid)"
  shows "\<exists>fs'. RemoveBuilderNode fs b n = Inr fs' \<and>
    (\<forall>rid. \<not> is_ok (ReadRef fs' b n rid)) \<and>
    (\<forall>b' n' rid. (b', n') \<noteq> (b, n) \<longrightarrow> ReadRef fs' b' n' rid = ReadRef fs b' n' rid) \<and>
    (\<forall>g. ReadGroup fs' g = (if doomed fs b n ids g then Inl (LsFs ENotExist) else ReadGroup fs g))"
proof -
  have ex: "fs_exists fs [refsDir, b, n]"
    using assms(4) by (auto simp: fs_readdir_def is_dir_def fs_exists_def split: if_splits)
  obtain fs' where fs': "RemoveBuilderNode_in ids fs b n = Inr fs'"
      "\<forall>q. mget fs' q = (if prefix [refsDir, b, n] q \<or> (\<exists>g. q = [refsDir, groupDir, g] \<and> doomed fs b n ids g)
          then None else mget fs q)"
    using RemoveBuilderNode_in_spec [OF assms(5)] by blast
  have "ReadRef fs' b n rid \<noteq> Inr st" for rid st
    using fs'(2) by (simp add: ReadRef_path fs_read_def)
  moreover have "ReadRef fs' b' n' rid = ReadRef fs b' n' rid" if "(b', n') \<noteq> (b, n)" for b' n' rid
    using fs'(2) that by (intro ReadRef_cong) auto
  moreover have "ReadGroup fs' g = (if doomed fs b n ids g then Inl (LsFs ENotExist) else ReadGroup fs g)" for g
    using fs'(2) assms(3) by (auto simp: ReadGroup_def fs_read_def)
  ultimately show ?thesis
    using fs'(1) assms(1,2,4) ex by (auto simp: RemoveBuilderNode_def is_ok_iff)
qed

theorem RemoveBuilderNode_removes_witness:
  "\<exists>fs'. RemoveBuilderNode demo_refs ''bld'' ''n0'' = Inr fs' \<and>
     ReadRef fs' ''bld'' ''n1'' ''y'' = Inr (demo_state ''g'') \<and>
     is_ok (ReadGroup fs' ''g'') \<and> ReadGroup fs' ''k'' = Inl (LsFs ENotExist)"
proof -
  have "fs_readdir demo_refs [''refs'', ''bld'', ''n0''] = Inr [''x'', ''z'']"
    "\<forall>rid \<in> set [''x'', ''z'']. is_ok (ReadRef demo_refs ''bld'' ''n0'' rid)"
    "ReadRef demo_refs ''bld'' ''n1'' ''y'' = Inr (demo_state ''g'')"
    "is_ok (ReadGroup demo_refs ''g'')"
    "\<not> doomed demo_refs ''bld'' ''n0'' [''x'', ''z''] ''g''" "doomed demo_refs ''bld'' ''n0'' [''x'', ''z''] ''k''"
    by code_simp+
  with RemoveBuilderNode_removes [of "''bld''" "''n0''" demo_refs "[''x'', ''z'']"]
  show ?thesis by auto
qed

text \<open>The goroutines that read the references of a node may run in any
  order; whether the removal succeeds and the state it leaves are the same for all of them.\<close>

theorem RemoveBuilderNode_schedule:
  assumes "wf_map fs" and "distinct ids" and "distinct ids'" and "set ids = set ids'"
  shows "case_sum (\<lambda>_. None) Some (RemoveBuilderNode_in ids fs b n)
       = case_sum (\<lambda>_. None) Some (RemoveBuilderNode_in ids' fs b n)"
proof (cases "is_ok (RemoveBuilderNode_in ids fs b n)")
  case False
  then have "\<not> is_ok (RemoveBuilderNode_in ids' fs b n)"
    by (simp add: RemoveBuilderNode_in_ok assms(4))
  with False show ?thesis by (simp add: is_ok_def split: sum.splits)
next
  case True
  have len: "length (held fs b n ids g) = length (held fs b n ids' g)" for g
    using assms(2-4) by (simp add: held_def distinct_length_filter)
  moreover from this have "held fs b n ids g = [] \<longleftrightarrow> held fs b n ids' g = []" for g
    by (metis length_0_conv)
  ultimately have d: "doomed fs b n ids g \<longleftrightarrow> doomed fs b n ids' g" for g
    by (simp add: doomed_def split: option.splits)
  have ok: "\<forall>rid \<in> set ids. is_ok (ReadRef fs b n rid)" "\<forall>rid \<in> set ids'. is_ok (ReadRef fs b n rid)"
    using True assms(4) by (simp_all add: RemoveBuilderNode_in_ok)
  obtain f where f: "RemoveBuilderNode_in ids fs b n = Inr f" "wf_map f"
      "\<forall>q. mget f q = (if prefix [refsDir, b, n] q \<or> (\<exists>g. q = [refsDir, groupDir, g] \<and> doomed fs b n ids g)
         then None else mget fs q)"
    using RemoveBuilderNode_in_spec [OF ok(1)] assms(1) by blast
  obtain f' where f': "RemoveBuilderNode_in ids' fs b n = Inr f'" "wf_map f'"
      "\<forall>q. mget f' q = (if prefix [refsDir, b, n] q \<or> (\<exists>g. q = [refsDir, groupDir, g] \<and> doomed fs b n ids' g)
         then None else mget fs q)"
    using RemoveBuilderNode_in_spec [OF ok(2)] assms(1) by blast
  have "f = f'" using f f' d by (intro gomap_ext) simp_all
  then show ?thesis using f f' by simp
qed

theorem RemoveBuilderNode_schedule_witness:
  "RemoveBuilderNode_in [''z'', ''x''] demo_refs ''bld'' ''n0''
     = RemoveBuilderNode_in [''x'', ''z''] demo_refs ''bld'' ''n0''"
proof -
  have "wf_map demo_refs" by code_simp
  from RemoveBuilderNode_schedule [OF this, of "[''z'', ''x'']" "[''x'', ''z'']" "''bld''" "''n0''"]
  have "case_sum (\<lambda>_. None) Some (RemoveBuilderNode_in [''z'', ''x''] demo_refs ''bld'' ''n0'')
      = case_sum (\<lambda>_. None) Some (RemoveBuilderNode_in [''x'', ''z''] demo_refs ''bld'' ''n0'')"
    by auto
  moreover have "is_ok (RemoveBuilderNode_in [''x'', ''z''] demo_refs ''bld'' ''n0'')"
    by code_simp
  ultimately show ?thesis by (auto simp: is_ok_iff split: sum.splits)
qed

section \<open>Removing a builder\<close>

lemma RemoveBuilder_nodes_frame:
  assumes "rfold (\<lambda>n fs. RemoveBuilderNode fs b n) ns fs = Inr fs'"
    and "\<And>n. \<not> prefix [refsDir, b, n] q" and "\<And>g. q \<noteq> [refsDir, groupDir, g]"
  shows "mget fs' q = mget fs q"
  by (rule rfold_invariant [OF assms(1), where P = "\<lambda>f. mget f q = mget fs q"])
     (use RemoveBuilderNode_frame [of _ b _ _ q] assms(2,3) in auto)

text \<open>A successful removal of a builder leaves no reference of it and
  every reference of the other builders.\<close>

theorem RemoveBuilder_removes:
  assumes "fs_wf fs" and "RemoveBuilder fs b = Inr fs'"
  shows "(\<forall>n rid. \<not> is_ok (ReadRef fs' b n rid)) \<and>
    (\<forall>b' n rid. b' \<noteq> b \<longrightarrow> ReadRef fs' b' n rid = ReadRef fs b' n rid)"
proof (cases "fs_exists fs [refsDir, b]")
  case False
  have "mget fs [refsDir, b, n, rid] = None" for n rid
  proof (rule ccontr)
    assume "mget fs [refsDir, b, n, rid] \<noteq> None"
    then have "mget fs [refsDir, b, n] = Some FDir"
      using assms(1) unfolding fs_wf_def is_dir_def by fastforce
    then have "mget fs [refsDir, b] = Some FDir"
      using assms(1) unfolding fs_wf_def is_dir_def by fastforce
    with False show False by (simp add: fs_exists_def)
  qed
  moreover have "fs' = fs" using assms(2) False by (auto simp: RemoveBuilder_def split: if_splits)
  ultimately show ?thesis by (auto simp: is_ok_iff ReadRef_path fs_read_def)
next
  case True
  then obtain ns fs1 where fs1: "rfold (\<lambda>n fs. RemoveBuilderNode fs b n) ns fs = Inr fs1"
      and fs': "fs' = fs_remove_all fs1 [refsDir, b]"
    using assms(2) by (auto simp: RemoveBuilder_def result_iff split: if_splits)
  have "ReadRef fs' b' n rid = ReadRef fs b' n rid" if "b' \<noteq> b" for b' n rid
    using RemoveBuilder_nodes_frame [OF fs1, of "[refsDir, b', n, rid]"] fs' that
    by (intro ReadRef_cong) (simp add: mget_remove_all)
  moreover have "\<not> is_ok (ReadRef fs' b n rid)" for n rid
    using fs' by (auto simp: is_ok_iff ReadRef_path fs_read_def mget_remove_all)
  ultimately show ?thesis by blast
qed

theorem RemoveBuilder_removes_witness:
  "\<exists>fs'. RemoveBuilder demo_refs ''bld'' = Inr fs' \<and> \<not> is_ok (ReadRef fs' ''bld'' ''n0'' ''x'')"
proof -
  have "is_ok (RemoveBuilder demo_refs ''bld'')" by code_simp
  then obtain fs' where fs': "RemoveBuilder demo_refs ''bld'' = Inr fs'" by (auto simp: is_ok_iff)
  have "fs_wf demo_refs" by code_simp
  from RemoveBuilder_removes [OF this fs'] show ?thesis using fs' by blast
qed

text \<open>A group with references on two nodes is never full on either, so its file outlives the builder.\<close>

lemma RemoveBuilder_leaks_group:
  "case RemoveBuilder demo_refs ''bld'' of
     Inl _ \<Rightarrow> False
   | Inr fs' \<Rightarrow> ReadGroup fs' ''g'' = Inr (demo_group [''bld/n0/x'', ''bld/n1/y'']) \<and>
       mget fs' [''refs'', ''bld''] = None"
  by code_simp

section \<open>What the removals keep\<close>

lemma fs_wf_remove:
  assumes "fs_wf fs" and "fs_remove fs p = Inr fs'"
  shows "fs_wf fs'"
proof -
  have fs': "fs' = mdel p fs" and leaf: "\<not> (is_dir fs p \<and> (\<exists>q \<in> set (mkeys fs). strict_prefix p q))"
    using assms(2) by (auto simp: fs_remove_def split: if_splits)
  have "is_dir fs' (butlast q)" if "mget fs' q = Some e" for q e
  proof -
    have q: "q \<noteq> p" "mget fs q = Some e" using that fs' by (auto simp: gomap_simps split: if_splits)
    then have d: "q \<noteq> []" "is_dir fs (butlast q)" using assms(1) by (auto simp: fs_wf_def)
    have "butlast q \<noteq> p"
    proof
      assume "butlast q = p"
      then have "is_dir fs p" "strict_prefix p q"
        using d by (auto simp: strict_prefix_def prefixeq_butlast) (metis append_butlast_last_id append_self_conv list.distinct(1))
      moreover have "q \<in> set (mkeys fs)"
        using q(2) by (auto simp: mkeys_def mget_def dest: map_of_SomeD intro: rev_image_eqI)
      ultimately show False using leaf by blast
    qed
    then show ?thesis using d(2) fs' by (auto simp: is_dir_def gomap_simps)
  qed
  then show ?thesis using assms(1) fs' by (auto simp: fs_wf_def gomap_simps split: if_splits)
qed

lemma removeGroup_wf: "removeGroup g fs = Inr fs' \<Longrightarrow> fs_wf fs \<Longrightarrow> fs_wf fs'"
  by (auto simp: removeGroup_def result_iff intro: fs_wf_remove split: if_splits)

lemma RemoveBuilderNode_wf:
  assumes "RemoveBuilderNode fs b n = Inr fs'" and "fs_wf fs"
  shows "fs_wf fs'"
proof (cases "fs_exists fs [refsDir, b, n]")
  case False
  then show ?thesis using assms by (auto simp: RemoveBuilderNode_def split: if_splits)
next
  case True
  then obtain grefs srefs fs1 where fs1: "rfold (drop_group srefs) grefs fs = Inr fs1"
      and fs': "fs' = fs_remove_all fs1 [refsDir, b, n]"
    using assms(1) by (auto simp: RemoveBuilderNode_def RemoveBuilderNode_in_def result_iff split: if_splits)
  have "fs_wf fs1"
    by (rule rfold_invariant [OF fs1, where P = fs_wf])
       (auto simp: drop_group_def assms(2) intro: removeGroup_wf split: option.splits if_splits)
  then show ?thesis using fs' fs_wf_remove_all by simp
qed

lemma RemoveBuilder_wf:
  assumes "RemoveBuilder fs b = Inr fs'" and "fs_wf fs"
  shows "fs_wf fs'"
proof (cases "fs_exists fs [refsDir, b]")
  case False
  then show ?thesis using assms by (auto simp: RemoveBuilder_def split: if_splits)
next
  case True
  then obtain ns fs1 where fs1: "rfold (\<lambda>n fs. RemoveBuilderNode fs b n) ns fs = Inr fs1"
      and fs': "fs' = fs_remove_all fs1 [refsDir, b]"
    using assms(1) by (auto simp: RemoveBuilder_def result_iff split: if_splits)
  have "fs_wf fs1" 
    by (rule rfold_invariant [OF fs1, where P = fs_wf]) (auto simp: assms(2) intro: RemoveBuilderNode_wf)
  then show ?thesis using fs' fs_wf_remove_all by simp
qed

lemma RemoveBuilder_outside:
  assumes "RemoveBuilder fs b = Inr fs'" and "\<not> prefix [refsDir] q"
  shows "mget fs' q = mget fs q"
proof (cases "fs_exists fs [refsDir, b]")
  case False
  then show ?thesis using assms by (auto simp: RemoveBuilder_def split: if_splits)
next
  case True
  then obtain ns fs1 where fs1: "rfold (\<lambda>n fs. RemoveBuilderNode fs b n) ns fs = Inr fs1"
      and fs': "fs' = fs_remove_all fs1 [refsDir, b]"
    using assms(1) by (auto simp: RemoveBuilder_def result_iff split: if_splits)
  have "mget fs1 q = mget fs q"
    using RemoveBuilder_nodes_frame [OF fs1, of q] assms(2) by (cases q) auto
  then show ?thesis using fs' assms(2) by (cases q) (auto simp: mget_remove_all)
qed

lemma ls_New_outside:
  assumes "ls_New fs dir = Inr fs'" and "\<not> prefix [refsDir] q"
  shows "mget fs' q = mget fs q"
proof (cases "fs_exists fs [refsDir]")
  case True
  then show ?thesis using assms(1) by (auto simp: ls_New_def result_iff fs_mkdir_all_def split: if_splits)
next
  case False
  then have "rfold mkdir1 (path_prefixes [refsDir]) fs = Inr fs'"
    using assms(1) by (auto simp: ls_New_def result_iff fs_mkdir_all_def split: if_splits)
  from mget_mkdirs [OF this] assms(2) show ?thesis by (auto simp: path_prefixes_iff prefix_Cons)
qed

lemma ls_New_wf: "ls_New fs dir = Inr fs' \<Longrightarrow> fs_wf fs \<Longrightarrow> fs_wf fs'"
  by (auto simp: ls_New_def result_iff intro: fs_wf_mkdir_all split: if_splits)

end
