(* ===== verification/Store.thy ===== *)
theory Store
  imports LocalState
begin

text \<open>
  The store of builder instances (\<open>store/store.go\<close>, \<open>store/util.go\<close>) and the lookups on top of it
  (\<open>store/storeutil/storeutil.go\<close>).  An instance is the file \<open>instances/name\<close>, its last use the file
  \<open>activity/name\<close>; \<open>current\<close> names the selected instance and \<open>defaults/hash\<close> the default of an endpoint.
  The operations run inside a transaction, under the store's file lock, so each one is a function from
  the directory to the directory; a call that fails returns the error.  The hash of an endpoint key and
  the parser of time stamps are the parameters in \<open>store_env\<close>.
\<close>

record store_env =
  e_toHash :: "string \<Rightarrow> string"
  e_parseTime :: "string \<Rightarrow> string option"

datatype store_error =
    StInvalidName string
  | StFs fs_error
  | StJson
  | StTime
  | StLocal ls_error
  | StNoBuilder string
  | StGenerate
  | StContexts

abbreviation instanceDir :: string where "instanceDir \<equiv> ''instances''"

abbreviation defaultsDir :: string where "defaultsDir \<equiv> ''defaults''"

abbreviation activityDir :: string where "activityDir \<equiv> ''activity''"

section \<open>Operations of a transaction\<close>

definition store_New :: "fsys \<Rightarrow> store_error + fsys" where
  "store_New fs =
     rbind (map_err StFs (fs_mkdir_all fs [instanceDir])) (\<lambda>fs.
     rbind (map_err StFs (fs_mkdir_all fs [defaultsDir])) (\<lambda>fs.
     map_err StFs (fs_mkdir_all fs [activityDir])))"

definition validName :: "string \<Rightarrow> store_error + string" where
  "validName s = (case ValidateName s of None \<Rightarrow> Inl (StInvalidName s) | Some t \<Rightarrow> Inr t)"

definition GetLastActivity :: "store_env \<Rightarrow> fsys \<Rightarrow> nodegroup \<Rightarrow> store_error + string option" where
  "GetLastActivity env fs ng =
     (case fs_read fs [activityDir, ng_Name ng] of
        Inl e \<Rightarrow> if e = ENotExist then Inr None else Inl (StFs e)
      | Inr d \<Rightarrow>
          (case d of
             DText s \<Rightarrow> (case e_parseTime env s of None \<Rightarrow> Inl StTime | Some t \<Rightarrow> Inr (Some t))
           | _ \<Rightarrow> Inl StTime))"

definition NodeGroupByName :: "store_env \<Rightarrow> fsys \<Rightarrow> string \<Rightarrow> store_error + nodegroup" where
  "NodeGroupByName env fs name0 =
     rbind (validName name0) (\<lambda>name.
     rbind (map_err StFs (fs_read fs [instanceDir, name])) (\<lambda>d.
     case d of
       DNodeGroup ng \<Rightarrow>
         rbind (GetLastActivity env fs ng) (\<lambda>t. Inr (ng\<lparr>ng_LastActivity := t\<rparr>))
     | _ \<Rightarrow> Inl StJson))"

definition UpdateLastActivity :: "string \<Rightarrow> fsys \<Rightarrow> nodegroup \<Rightarrow> store_error + fsys" where
  "UpdateLastActivity now fs ng = map_err StFs (fs_write fs [activityDir, ng_Name ng] (DText now))"

text \<open>Marshalling drops the fields the code marks as not saved.\<close>

definition saved_form :: "nodegroup \<Rightarrow> nodegroup" where
  "saved_form ng = ng\<lparr>ng_DockerContext := False, ng_LastActivity := None\<rparr>"

definition Save :: "string \<Rightarrow> fsys \<Rightarrow> nodegroup \<Rightarrow> store_error + fsys" where
  "Save now fs ng =
     rbind (validName (ng_Name ng)) (\<lambda>name.
     rbind (UpdateLastActivity now fs ng) (\<lambda>fs.
     map_err StFs (fs_write fs [instanceDir, name] (DNodeGroup (saved_form ng)))))"

definition RemoveLastActivity :: "fsys \<Rightarrow> string \<Rightarrow> store_error + fsys" where
  "RemoveLastActivity fs name0 =
     rbind (validName name0) (\<lambda>name. Inr (fs_remove_all fs [activityDir, name]))"

definition Remove :: "string \<Rightarrow> fsys \<Rightarrow> string \<Rightarrow> store_error + fsys" where
  "Remove dir fs name0 =
     rbind (validName name0) (\<lambda>name.
     rbind (RemoveLastActivity fs name) (\<lambda>fs.
     rbind (map_err StLocal (ls_New fs dir)) (\<lambda>fs.
     rbind (map_err StLocal (RemoveBuilder fs name)) (\<lambda>fs.
     Inr (fs_remove_all fs [instanceDir, name])))))"

definition SetCurrent :: "store_env \<Rightarrow> fsys \<Rightarrow> string \<Rightarrow> string \<Rightarrow> bool \<Rightarrow> bool \<Rightarrow> store_error + fsys" where
  "SetCurrent env fs key name global def =
     rbind (map_err StFs (fs_write fs [''current''] (DCurrent \<lparr>c_Key = key, c_Name = name, c_Global = global\<rparr>))) (\<lambda>fs.
       let h = e_toHash env key
       in if def then map_err StFs (fs_write fs [defaultsDir, h] (DText name))
          else Inr (fs_remove_all fs [defaultsDir, h]))"

text \<open>The callers ignore the error of \<open>reset\<close>.\<close>

definition reset_current :: "fsys \<Rightarrow> string \<Rightarrow> fsys" where
  "reset_current fs key =
     (case fs_write fs [''current''] (DCurrent \<lparr>c_Key = key, c_Name = [], c_Global = False\<rparr>) of
        Inl _ \<Rightarrow> fs | Inr fs' \<Rightarrow> fs')"

text \<open>The second half of \<open>Current\<close>: the default instance of the endpoint.\<close>

definition Current_default :: "store_env \<Rightarrow> fsys \<Rightarrow> string \<Rightarrow> store_error + (nodegroup option \<times> fsys)" where
  "Current_default env fs key =
     (case fs_read fs [defaultsDir, e_toHash env key] of
        Inl e \<Rightarrow> if e = ENotExist then Inr (None, reset_current fs key) else Inl (StFs e)
      | Inr d \<Rightarrow>
          (case d of
             DText name \<Rightarrow>
               (let ng = NodeGroupByName env fs name;
                    fs = (if is_ok ng then fs else reset_current fs key)
                in rbind (SetCurrent env fs key name False True) (\<lambda>fs.
                   Inr (case ng of Inl _ \<Rightarrow> None | Inr g \<Rightarrow> Some g, fs)))
           | _ \<Rightarrow> Inl StJson))"

definition Current :: "store_env \<Rightarrow> fsys \<Rightarrow> string \<Rightarrow> store_error + (nodegroup option \<times> fsys)" where
  "Current env fs key =
     (case fs_read fs [''current''] of
        Inl e \<Rightarrow> if e = ENotExist then Current_default env fs key else Inl (StFs e)
      | Inr d \<Rightarrow>
          (case d of
             DCurrent c \<Rightarrow>
               (if c_Name c = [] then Current_default env fs key
                else if c_Global c \<and> is_ok (NodeGroupByName env fs (c_Name c)) then
                  rbind (NodeGroupByName env fs (c_Name c)) (\<lambda>ng. Inr (Some ng, fs))
                else if c_Key c = key then
                  (case NodeGroupByName env fs (c_Name c) of
                     Inl _ \<Rightarrow> Inr (None, fs) | Inr ng \<Rightarrow> Inr (Some ng, fs))
                else Current_default env fs key)
           | _ \<Rightarrow> Inl StJson))"

text \<open>The loop of \<open>List\<close>: a name whose file is gone is removed and skipped.\<close>

fun list_loop :: "store_env \<Rightarrow> fsys \<Rightarrow> string list \<Rightarrow> store_error + (nodegroup list \<times> fsys)" where
  "list_loop env fs [] = Inr ([], fs)"
| "list_loop env fs (fi # fis) =
     (case NodeGroupByName env fs fi of
        Inl e \<Rightarrow>
          if e = StFs ENotExist then list_loop env (fs_remove_all fs [instanceDir, fi]) fis else Inl e
      | Inr ng \<Rightarrow> rbind (list_loop env fs fis) (\<lambda>(ngs, fs). Inr (ng # ngs, fs)))"

definition store_List :: "store_env \<Rightarrow> fsys \<Rightarrow> store_error + (nodegroup list \<times> fsys)" where
  "store_List env fs =
     rbind (map_err StFs (fs_readdir fs [instanceDir])) (\<lambda>fis.
     rbind (list_loop env fs fis) (\<lambda>(ngs, fs). Inr (sort_key ng_Name ngs, fs)))"

text \<open>At most six attempts of the random name generator \<open>gen\<close>.\<close>

fun GenerateName_from :: "store_env \<Rightarrow> fsys \<Rightarrow> (nat \<Rightarrow> string) \<Rightarrow> nat \<Rightarrow> nat \<Rightarrow> store_error + string" where
  "GenerateName_from env fs gen i 0 = Inl StGenerate"
| "GenerateName_from env fs gen i (Suc n) =
     (case NodeGroupByName env fs (gen i) of
        Inl e \<Rightarrow> if e = StFs ENotExist then Inr (gen i) else Inl e
      | Inr _ \<Rightarrow> GenerateName_from env fs gen (i + 1) n)"

definition GenerateName :: "store_env \<Rightarrow> fsys \<Rightarrow> (nat \<Rightarrow> string) \<Rightarrow> store_error + string" where
  "GenerateName env fs gen = GenerateName_from env fs gen 0 6"

section \<open>Lookups of the command line (storeutil)\<close>

text \<open>The docker contexts of the command line are a parameter: their names, or an error.\<close>

definition context_group :: "string \<Rightarrow> nodegroup" where
  "context_group name =
     \<lparr>ng_Name = name, ng_Driver = [],
      ng_Nodes = [\<lparr>n_Name = name, n_Endpoint = name, n_Platforms = [], n_DriverOpts = None,
                   n_BuildkitdFlags = None, n_Files = None\<rparr>],
      ng_Dynamic = False, ng_DockerContext = True, ng_LastActivity = None\<rparr>"

definition IsErrInvalidName :: "store_error \<Rightarrow> bool" where
  "IsErrInvalidName e = (case e of StInvalidName _ \<Rightarrow> True | _ \<Rightarrow> False)"

definition GetNodeGroup :: "store_env \<Rightarrow> fsys \<Rightarrow> store_error + string list \<Rightarrow> string \<Rightarrow> store_error + nodegroup" where
  "GetNodeGroup env fs contexts name =
     (case NodeGroupByName env fs name of
        Inr ng \<Rightarrow> Inr ng
      | Inl e \<Rightarrow>
          if e \<noteq> StFs ENotExist \<and> \<not> IsErrInvalidName e then Inl e
          else rbind contexts (\<lambda>list.
            if name \<in> set list
            then rbind (GetLastActivity env fs (context_group name)) (\<lambda>t.
                   Inr ((context_group name)\<lparr>ng_LastActivity := t\<rparr>))
            else Inl (StNoBuilder name)))"

definition GetCurrentInstance ::
  "store_env \<Rightarrow> fsys \<Rightarrow> store_error + string list \<Rightarrow> store_error + string \<Rightarrow> string \<Rightarrow>
   store_error + (nodegroup \<times> fsys)" where
  "GetCurrentInstance env fs contexts endpoint currentContext =
     rbind endpoint (\<lambda>ep.
     rbind (Current env fs ep) (\<lambda>(ng, fs).
     case ng of
       Some g \<Rightarrow> Inr (g, fs)
     | None \<Rightarrow> rbind (GetNodeGroup env fs contexts currentContext) (\<lambda>g. Inr (g, fs))))"

section \<open>The invariant\<close>

text \<open>The store's directories exist, and an instance file holds a group of that name.\<close>

fun instance_file :: "string \<Rightarrow> fentry \<Rightarrow> bool" where
  "instance_file name (FFile (DNodeGroup ng)) \<longleftrightarrow>
     namePattern (ng_Name ng) \<and> to_lower (ng_Name ng) = name \<and> ng_LastActivity ng = None"
| "instance_file name _ \<longleftrightarrow> False"

fun_cases instance_fileE: "instance_file name e"

definition store_wf :: "fsys \<Rightarrow> bool" where
  "store_wf fs \<longleftrightarrow> fs_wf fs \<and>
     is_dir fs [instanceDir] \<and> is_dir fs [defaultsDir] \<and> is_dir fs [activityDir] \<and>
     (\<forall>name e. mget fs [instanceDir, name] = Some e \<longrightarrow> instance_file name e) \<and>
     (\<forall>name e. mget fs [activityDir, name] = Some e \<longrightarrow> e \<noteq> FDir)"

lemma validName_iff: "validName s = Inr t \<longleftrightarrow> namePattern s \<and> t = to_lower s"
  by (auto simp: validName_def ValidateName_def)

lemma mget_write: "fs_write fs p d = Inr fs' \<Longrightarrow> mget fs' q = (if q = p then Some (FFile d) else mget fs q)"
  by (auto simp: fs_write_def mget_set split: if_splits)

lemma NodeGroupByName_iff:
  "NodeGroupByName env fs name = Inr ng \<longleftrightarrow>
     namePattern name \<and> (\<exists>g t. fs_read fs [instanceDir, to_lower name] = Inr (DNodeGroup g) \<and>
       GetLastActivity env fs g = Inr t \<and> ng = g\<lparr>ng_LastActivity := t\<rparr>)"
proof (cases "fs_read fs [instanceDir, to_lower name]")
  case (Inl e)
  then show ?thesis
    by (cases "namePattern name") (auto simp: NodeGroupByName_def validName_def ValidateName_def)
next
  case (Inr d)
  then show ?thesis
    by (cases "namePattern name"; cases d)
      (auto simp: NodeGroupByName_def validName_def ValidateName_def result_iff)
qed

section \<open>Preservation of the invariant\<close>

lemma store_wf_write:
  assumes "store_wf fs" and "fs_write fs p d = Inr fs'"
    and "\<And>name. p = [instanceDir, name] \<Longrightarrow>
      (\<exists>ng. d = DNodeGroup ng \<and> namePattern (ng_Name ng) \<and> to_lower (ng_Name ng) = name \<and> ng_LastActivity ng = None)"
  shows "store_wf fs'"
proof -
  have p: "mget fs p \<noteq> Some FDir" using assms(2) by (auto simp: fs_write_def split: if_splits)
  have keep: "is_dir fs' q" if "is_dir fs q" for q
    using that p mget_write [OF assms(2)] by (auto simp: is_dir_def)
  show ?thesis
    using assms(1,3) keep fs_wf_write [OF _ assms(2)] mget_write [OF assms(2)]
    by (auto simp: store_wf_def split: if_splits)
qed

lemma store_wf_remove:
  assumes "store_wf fs" and "2 \<le> length p"
  shows "store_wf (fs_remove_all fs p)"
proof -
  have "\<not> prefix p [x]" for x using assms(2) prefix_length_le [of p "[x]"] by auto
  moreover have "p \<noteq> []" using assms(2) by auto
  ultimately show ?thesis
    using assms(1) fs_wf_remove_all by (auto simp: store_wf_def is_dir_def mget_remove_all split: if_splits)
qed

text \<open>A step that changes nothing outside \<open>refs\<close> keeps the invariant.\<close>

lemma store_wf_outside:
  assumes "store_wf fs" and "fs_wf fs'" and "\<And>q. \<not> prefix [refsDir] q \<Longrightarrow> mget fs' q = mget fs q"
  shows "store_wf fs'"
proof -
  have "mget fs' [x] = mget fs [x]" "mget fs' [x, name] = mget fs [x, name]"
    if "x \<in> {instanceDir, defaultsDir, activityDir}" for x name
    using that assms(3) by auto
  then show ?thesis using assms(1,2) by (simp add: store_wf_def is_dir_def)
qed

lemma store_write_ok:
  assumes "store_wf fs" and "x \<in> {instanceDir, activityDir}"
  shows "\<exists>fs'. fs_write fs [x, name] d = Inr fs'"
proof -
  have "mget fs [x, name] \<noteq> Some FDir" using assms by (fastforce simp: store_wf_def)
  moreover have "is_dir fs [x]" using assms by (auto simp: store_wf_def)
  ultimately show ?thesis by (auto simp: fs_write_def)
qed

lemma stored_name:
  "store_wf fs \<Longrightarrow> fs_read fs [instanceDir, name] = Inr (DNodeGroup g) \<Longrightarrow>
     namePattern (ng_Name g) \<and> to_lower (ng_Name g) = name \<and> ng_LastActivity g = None"
  by (fastforce simp: store_wf_def fs_read_def split: option.splits fentry.splits)

lemma stored_read:
  assumes "store_wf fs"
  shows "(\<exists>g. fs_read fs [instanceDir, name] = Inr (DNodeGroup g)) \<or> fs_read fs [instanceDir, name] = Inl ENotExist"
proof (cases "mget fs [instanceDir, name]")
  case None
  then show ?thesis by (simp add: fs_read_def)
next
  case (Some e)
  then show ?thesis using assms by (fastforce simp: store_wf_def fs_read_def elim: instance_fileE)
qed

text \<open>Two directories that agree on an instance and on its activity give the same group.\<close>

lemma NodeGroupByName_cong:
  assumes "fs_read fs' [instanceDir, to_lower name] = fs_read fs [instanceDir, to_lower name]"
    and "\<And>g. fs_read fs [instanceDir, to_lower name] = Inr (DNodeGroup g) \<Longrightarrow>
      fs_read fs' [activityDir, ng_Name g] = fs_read fs [activityDir, ng_Name g]"
  shows "NodeGroupByName env fs' name = NodeGroupByName env fs name"
proof (cases "namePattern name")
  case True
  then have v: "validName name = Inr (to_lower name)" by (simp add: validName_iff)
  show ?thesis
  proof (cases "fs_read fs [instanceDir, to_lower name]")
    case (Inr d)
    then show ?thesis
      using assms by (cases d) (simp_all add: NodeGroupByName_def v GetLastActivity_def)
  qed (simp add: NodeGroupByName_def v assms(1))
next
  case False
  then show ?thesis by (simp add: NodeGroupByName_def validName_def ValidateName_def)
qed

lemma Save_iff:
  "Save now fs ng = Inr fs' \<longleftrightarrow> namePattern (ng_Name ng) \<and>
     (\<exists>fs1. fs_write fs [activityDir, ng_Name ng] (DText now) = Inr fs1 \<and>
        fs_write fs1 [instanceDir, to_lower (ng_Name ng)] (DNodeGroup (saved_form ng)) = Inr fs')"
  by (auto simp: Save_def UpdateLastActivity_def result_iff validName_iff)

lemma saved_form_simps [simp]:
  "ng_Name (saved_form ng) = ng_Name ng" "ng_LastActivity (saved_form ng) = None"
  "ng_Nodes (saved_form ng) = ng_Nodes ng" "ng_Driver (saved_form ng) = ng_Driver ng"
  "ng_Dynamic (saved_form ng) = ng_Dynamic ng" "ng_DockerContext (saved_form ng) = False"
  by (simp_all add: saved_form_def)

lemma Save_wf:
  assumes "store_wf fs" and "Save now fs ng = Inr fs'"
  shows "store_wf fs'"
proof -
  obtain fs1 where fs1: "fs_write fs [activityDir, ng_Name ng] (DText now) = Inr fs1"
      and fs': "fs_write fs1 [instanceDir, to_lower (ng_Name ng)] (DNodeGroup (saved_form ng)) = Inr fs'"
      and n: "namePattern (ng_Name ng)"
    using assms(2) by (auto simp: Save_iff)
  have "store_wf fs1" by (rule store_wf_write [OF assms(1) fs1]) simp
  from store_wf_write [OF this fs'] n show ?thesis by simp
qed

lemma Save_ok:
  assumes "store_wf fs" and "namePattern (ng_Name ng)"
  shows "\<exists>fs'. Save now fs ng = Inr fs'"
proof -
  obtain fs1 where fs1: "fs_write fs [activityDir, ng_Name ng] (DText now) = Inr fs1"
    using store_write_ok [OF assms(1), of activityDir] by auto
  then have "store_wf fs1" using store_wf_write [OF assms(1) fs1] by simp
  with store_write_ok [of fs1 instanceDir] fs1 assms(2) show ?thesis by (fastforce simp: Save_iff)
qed

lemma Remove_iff:
  "Remove dir fs name = Inr fs' \<longleftrightarrow> namePattern name \<and> namePattern (to_lower name) \<and>
     (\<exists>fs1 fs2. ls_New (fs_remove_all fs [activityDir, to_lower name]) dir = Inr fs1 \<and>
        RemoveBuilder fs1 (to_lower name) = Inr fs2 \<and> fs' = fs_remove_all fs2 [instanceDir, to_lower name])"
  by (auto simp: Remove_def RemoveLastActivity_def result_iff validName_iff)

lemma Remove_mget:
  assumes "Remove dir fs name = Inr fs'" and "\<not> prefix [refsDir] q"
  shows "mget fs' q = (if prefix [instanceDir, to_lower name] q \<or> prefix [activityDir, to_lower name] q then None
    else mget fs q)"
  using assms RemoveBuilder_outside ls_New_outside by (auto simp: Remove_iff mget_remove_all)

lemma Remove_wf:
  assumes "store_wf fs" and "Remove dir fs name = Inr fs'"
  shows "store_wf fs'"
proof -
  obtain fs1 fs2 where fs1: "ls_New (fs_remove_all fs [activityDir, to_lower name]) dir = Inr fs1"
      and fs2: "RemoveBuilder fs1 (to_lower name) = Inr fs2"
      and fs': "fs' = fs_remove_all fs2 [instanceDir, to_lower name]"
    using assms(2) by (auto simp: Remove_iff)
  have w: "store_wf (fs_remove_all fs [activityDir, to_lower name])"
    using store_wf_remove [OF assms(1)] by simp
  then have "fs_wf fs1" using ls_New_wf [OF fs1] by (simp add: store_wf_def)
  then have w1: "store_wf fs1" by (rule store_wf_outside [OF w]) (rule ls_New_outside [OF fs1])
  then have "fs_wf fs2" using RemoveBuilder_wf [OF fs2] by (simp add: store_wf_def)
  then have "store_wf fs2" by (rule store_wf_outside [OF w1]) (rule RemoveBuilder_outside [OF fs2])
  then show ?thesis using fs' store_wf_remove [of fs2] by simp
qed

lemma SetCurrent_mget:
  assumes "SetCurrent env fs key name global def = Inr fs'"
  shows "mget fs' q =
    (if prefix [defaultsDir, e_toHash env key] q \<and> (\<not> def \<or> q = [defaultsDir, e_toHash env key])
     then (if def then Some (FFile (DText name)) else None)
     else if q = [''current''] then Some (FFile (DCurrent \<lparr>c_Key = key, c_Name = name, c_Global = global\<rparr>))
     else mget fs q)"
  using assms by (cases "def") (auto simp: SetCurrent_def result_iff Let_def mget_remove_all dest!: mget_write [where q = q])

lemma SetCurrent_wf:
  assumes "store_wf fs" and "SetCurrent env fs key name global def = Inr fs'"
  shows "store_wf fs'"
proof -
  obtain fs1 where fs1: "fs_write fs [''current''] (DCurrent \<lparr>c_Key = key, c_Name = name, c_Global = global\<rparr>) = Inr fs1"
      and fs': "if def then fs_write fs1 [defaultsDir, e_toHash env key] (DText name) = Inr fs'
        else fs' = fs_remove_all fs1 [defaultsDir, e_toHash env key]"
    using assms(2) by (auto simp: SetCurrent_def result_iff Let_def split: if_splits)
  have "store_wf fs1" by (rule store_wf_write [OF assms(1) fs1]) simp
  then show ?thesis
    using fs' store_wf_write [of fs1 "[defaultsDir, e_toHash env key]"] store_wf_remove [of fs1]
    by (auto split: if_splits)
qed

lemma reset_current_wf: "store_wf fs \<Longrightarrow> store_wf (reset_current fs key)"
  by (auto simp: reset_current_def split: sum.splits intro: store_wf_write)

lemma fs_read_cong: "mget fs' p = mget fs p \<Longrightarrow> fs_read fs' p = fs_read fs p"
  by (simp add: fs_read_def)

lemma SetCurrent_instances:
  assumes "SetCurrent env fs key name global def = Inr fs'"
  shows "NodeGroupByName env' fs' n = NodeGroupByName env' fs n"
  using SetCurrent_mget [OF assms] by (intro NodeGroupByName_cong fs_read_cong) auto

section \<open>Example store\<close>

definition demo_env :: store_env where
  "demo_env = \<lparr>e_toHash = (\<lambda>k. CHR ''h'' # k), e_parseTime = Some\<rparr>"

definition demo_store :: fsys where
  "demo_store =
     [([''activity''], FDir), ([''activity'', ''foo''], FFile (DText ''t0'')),
      ([''defaults''], FDir),
      ([''instances''], FDir), ([''instances'', ''foo''], FFile (DNodeGroup demo_ng))]"

lemma store_wf_code [code]:
  "store_wf fs \<longleftrightarrow> fs_wf fs \<and>
     is_dir fs [instanceDir] \<and> is_dir fs [defaultsDir] \<and> is_dir fs [activityDir] \<and>
     list_all (\<lambda>(p, e). case p of [d, name] \<Rightarrow>
       (d = instanceDir \<longrightarrow> instance_file name e) \<and> (d = activityDir \<longrightarrow> e \<noteq> FDir) | _ \<Rightarrow> True) fs"
proof (cases "fs_wf fs")
  case True
  then have "wf_map fs" by (simp add: fs_wf_def)
  then have "mget fs p = Some e \<longleftrightarrow> (p, e) \<in> set fs" for p e by (rule mget_Some_iff)
  then show ?thesis
    by (fastforce simp: store_wf_def list_all_iff split: list.splits)
qed (simp add: store_wf_def)

lemma demo_store_wf: "store_wf demo_store" "to_lower ''foo'' = ''foo''" "namePattern ''foo''"
  by code_simp+

section \<open>Listing\<close>

lemma to_lower_char_kept: "is_letter c \<Longrightarrow> is_letter (to_lower_char c)"
  "is_name_char c \<Longrightarrow> is_name_char (to_lower_char c)"
proof -
  have "\<not> is_upper c \<and> to_lower_char c = c \<or> is_upper c \<and> is_lower (to_lower_char c)"
    using of_to_lower_char [of c] to_lower_char_id_iff [of c] by (auto simp: is_lower_def is_upper_def)
  then show "is_letter c \<Longrightarrow> is_letter (to_lower_char c)" "is_name_char c \<Longrightarrow> is_name_char (to_lower_char c)"
    by (auto simp: is_letter_def is_name_char_def)
qed

lemma namePattern_lower: "namePattern s \<Longrightarrow> namePattern (to_lower s)"
  by (auto simp: namePattern_def to_lower_def list_all_iff to_lower_char_kept split: list.splits)

lemma readdir_distinct:
  assumes "fs_wf fs" and "fs_readdir fs p = Inr ns"
  shows "distinct ns"
proof -
  have ns: "ns = map (last \<circ> fst) (filter (\<lambda>(q, _). q \<noteq> [] \<and> butlast q = p) fs)"
    using assms(2) by (auto simp: fs_readdir_def split: if_splits)
  have "distinct (map fst fs)"
    using assms(1) by (auto simp: fs_wf_def wf_map_def strict_sorted_iff)
  then have d: "distinct fs" "inj_on fst (set fs)" by (auto simp: distinct_map)
  have "inj_on (last \<circ> fst) (set (filter (\<lambda>(q, _). q \<noteq> [] \<and> butlast q = p) fs))"
  proof (rule inj_onI)
    fix x y
    assume a: "x \<in> set (filter (\<lambda>(q, _). q \<noteq> [] \<and> butlast q = p) fs)"
      "y \<in> set (filter (\<lambda>(q, _). q \<noteq> [] \<and> butlast q = p) fs)"
      and l: "(last \<circ> fst) x = (last \<circ> fst) y"
    have "butlast (fst x) = p" "fst x \<noteq> []" "butlast (fst y) = p" "fst y \<noteq> []" using a by auto
    then have "fst x = p @ [last (fst x)]" "fst y = p @ [last (fst y)]" by (metis append_butlast_last_id)+
    with l have "fst x = fst y" by simp
    with a d(2) show "x = y" by (auto dest: inj_onD)
  qed
  with d(1) show ?thesis by (simp add: ns distinct_map)
qed

lemma list_loop_ok:
  assumes "\<forall>fi \<in> set fis. is_ok (NodeGroupByName env fs fi)"
  shows "\<exists>ngs. list_loop env fs fis = Inr (ngs, fs) \<and> map (NodeGroupByName env fs) fis = map Inr ngs"
  using assms
proof (induction fis)
  case (Cons fi fis)
  then obtain ngs g where "list_loop env fs fis = Inr (ngs, fs)"
      "map (NodeGroupByName env fs) fis = map Inr ngs" "NodeGroupByName env fs fi = Inr g"
    by (auto simp: is_ok_iff)
  then show ?case by (intro exI [of _ "g # ngs"]) simp
qed simp

lemma stored_group_found:
  assumes "store_wf fs" and "mget fs [instanceDir, fi] \<noteq> None"
    and "\<And>g. fs_read fs [instanceDir, fi] = Inr (DNodeGroup g) \<Longrightarrow> is_ok (GetLastActivity env fs g)"
  shows "\<exists>g. NodeGroupByName env fs fi = Inr g \<and> to_lower (ng_Name g) = fi \<and> to_lower fi = fi"
proof -
  obtain g where g: "fs_read fs [instanceDir, fi] = Inr (DNodeGroup g)"
    using stored_read [OF assms(1), of fi] assms(2) by (auto simp: fs_read_def split: option.splits fentry.splits)
  moreover from stored_name [OF assms(1) g] have "namePattern fi" "to_lower fi = fi" "to_lower (ng_Name g) = fi"
    using namePattern_lower [of "ng_Name g"] by auto
  moreover obtain t where "GetLastActivity env fs g = Inr t" using assms(3) [OF g] by (auto simp: is_ok_iff)
  ultimately show ?thesis by (intro exI [of _ "g\<lparr>ng_LastActivity := t\<rparr>"]) (auto simp: NodeGroupByName_iff)
qed

section \<open>Lookups after a change\<close>

lemma Save_lookup:
  assumes "store_wf fs" and "namePattern (ng_Name ng)" and "e_parseTime env now = Some t"
  shows "\<exists>fs'. Save now fs ng = Inr fs' \<and> store_wf fs' \<and>
    NodeGroupByName env fs' (ng_Name ng) = Inr (ng\<lparr>ng_DockerContext := False, ng_LastActivity := Some t\<rparr>) \<and>
    (\<forall>name. to_lower name \<noteq> to_lower (ng_Name ng) \<longrightarrow> NodeGroupByName env fs' name = NodeGroupByName env fs name)"
proof -
  obtain fs' where save: "Save now fs ng = Inr fs'" using Save_ok [OF assms(1,2)] by auto
  then obtain fs1 where fs1: "fs_write fs [activityDir, ng_Name ng] (DText now) = Inr fs1"
      and fs': "fs_write fs1 [instanceDir, to_lower (ng_Name ng)] (DNodeGroup (saved_form ng)) = Inr fs'"
    by (auto simp: Save_iff)
  have rd: "fs_read fs' q = (if q = [instanceDir, to_lower (ng_Name ng)] then Inr (DNodeGroup (saved_form ng))
      else if q = [activityDir, ng_Name ng] then Inr (DText now) else fs_read fs q)" for q
    using cd.read_write [OF fs1] cd.read_write [OF fs'] by simp
  have "GetLastActivity env fs' (saved_form ng) = Inr (Some t)"
    by (simp add: GetLastActivity_def rd assms(3))
  then have "NodeGroupByName env fs' (ng_Name ng) = Inr (ng\<lparr>ng_DockerContext := False, ng_LastActivity := Some t\<rparr>)"
    using assms(2) by (simp add: NodeGroupByName_iff rd)
  moreover have "NodeGroupByName env fs' name = NodeGroupByName env fs name"
    if "to_lower name \<noteq> to_lower (ng_Name ng)" for name
  proof (rule NodeGroupByName_cong)
    show "fs_read fs' [activityDir, ng_Name g] = fs_read fs [activityDir, ng_Name g]"
      if "fs_read fs [instanceDir, to_lower name] = Inr (DNodeGroup g)" for g
      using stored_name [OF assms(1) that] \<open>to_lower name \<noteq> _\<close> by (auto simp: rd)
  qed (use that in \<open>simp add: rd\<close>)
  ultimately show ?thesis using save Save_wf [OF assms(1) save] by blast
qed

lemma Remove_lookup:
  assumes "store_wf fs" and "Remove dir fs name = Inr fs'"
  shows "store_wf fs' \<and> NodeGroupByName env fs' name = Inl (StFs ENotExist) \<and>
    (\<forall>other. to_lower other \<noteq> to_lower name \<longrightarrow> NodeGroupByName env fs' other = NodeGroupByName env fs other)"
proof -
  note m = Remove_mget [OF assms(2)]
  have n: "namePattern name" using assms(2) by (auto simp: Remove_iff)
  have "fs_read fs' [instanceDir, to_lower name] = Inl ENotExist" using m by (simp add: fs_read_def)
  with n have "NodeGroupByName env fs' name = Inl (StFs ENotExist)"
    by (simp add: NodeGroupByName_def validName_def ValidateName_def)
  moreover have "NodeGroupByName env fs' other = NodeGroupByName env fs other"
    if "to_lower other \<noteq> to_lower name" for other
  proof (intro NodeGroupByName_cong fs_read_cong)
    show "mget fs' [activityDir, ng_Name g] = mget fs [activityDir, ng_Name g]"
      if "fs_read fs [instanceDir, to_lower other] = Inr (DNodeGroup g)" for g
      using stored_name [OF assms(1) that] \<open>to_lower other \<noteq> _\<close> m
      by (cases "ng_Name g = to_lower name") auto
  qed (use that m in simp)
  ultimately show ?thesis using Remove_wf [OF assms] by blast
qed

section \<open>Properties\<close>

text \<open>C34 (Save_reads_back): saving a group with a valid name into a well-formed store succeeds and keeps
  the store well-formed; the group then reads back under its name, without the fields that are not
  saved and with the time of the save as its last activity; every other name reads as before.\<close>

theorem Save_reads_back:
  assumes "store_wf fs" and "namePattern (ng_Name ng)" and "e_parseTime env now = Some t"
  shows "\<exists>fs'. Save now fs ng = Inr fs' \<and> store_wf fs' \<and>
    NodeGroupByName env fs' (ng_Name ng) = Inr (ng\<lparr>ng_DockerContext := False, ng_LastActivity := Some t\<rparr>) \<and>
    (\<forall>name. to_lower name \<noteq> to_lower (ng_Name ng) \<longrightarrow> NodeGroupByName env fs' name = NodeGroupByName env fs name)"
  by (rule Save_lookup [OF assms])

theorem Save_reads_back_witness:
  "\<exists>fs'. Save ''t1'' demo_store demo_ng = Inr fs' \<and>
     NodeGroupByName demo_env fs' ''foo'' = Inr (demo_ng\<lparr>ng_DockerContext := False, ng_LastActivity := Some ''t1''\<rparr>)"
proof -
  have "namePattern (ng_Name demo_ng)" "ng_Name demo_ng = ''foo''" "e_parseTime demo_env ''t1'' = Some ''t1''"
    by code_simp+
  then show ?thesis using Save_reads_back [OF demo_store_wf(1), of demo_ng demo_env "''t1''" "''t1''"] by auto
qed

text \<open>C35 (Remove_forgets): a successful removal keeps the store well-formed; afterwards the name is not
  found, whatever its case, and every other name reads as before.\<close>

theorem Remove_forgets:
  assumes "store_wf fs" and "Remove dir fs name = Inr fs'"
  shows "store_wf fs' \<and> NodeGroupByName env fs' name = Inl (StFs ENotExist) \<and>
    (\<forall>other. to_lower other \<noteq> to_lower name \<longrightarrow> NodeGroupByName env fs' other = NodeGroupByName env fs other)"
  by (rule Remove_lookup [OF assms])

theorem Remove_forgets_witness:
  "is_ok (Remove ''/cfg'' demo_store ''Foo'') \<and>
   NodeGroupByName demo_env (projr (Remove ''/cfg'' demo_store ''Foo'')) ''Foo'' = Inl (StFs ENotExist)"
proof -
  have "is_ok (Remove ''/cfg'' demo_store ''Foo'')" by code_simp
  then show ?thesis using Remove_forgets [OF demo_store_wf(1), of "''/cfg''" "''Foo''" _ demo_env] by (auto simp: is_ok_iff)
qed

text \<open>C36 (SetCurrent_Current): after an instance is selected for an endpoint, asking for the current
  instance of that endpoint gives this instance, or none when its name cannot be loaded, and changes
  nothing; an instance selected globally that can be loaded is the current one for every endpoint.\<close>

theorem SetCurrent_Current:
  assumes "SetCurrent env fs key name global def = Inr fs'" and "name \<noteq> []"
  shows "Current env fs' key =
      Inr (case NodeGroupByName env fs name of Inl _ \<Rightarrow> None | Inr g \<Rightarrow> Some g, fs') \<and>
    (\<forall>key' g. global \<longrightarrow> NodeGroupByName env fs name = Inr g \<longrightarrow> Current env fs' key' = Inr (Some g, fs'))"
proof -
  have "fs_read fs' [''current''] = Inr (DCurrent \<lparr>c_Key = key, c_Name = name, c_Global = global\<rparr>)"
    using SetCurrent_mget [OF assms(1)] by (simp add: fs_read_def)
  then show ?thesis
    using assms(2) by (auto simp: Current_def SetCurrent_instances [OF assms(1)] is_ok_def split: sum.splits)
qed

theorem SetCurrent_Current_witness:
  "\<exists>fs'. SetCurrent demo_env demo_store ''ep'' ''foo'' True True = Inr fs' \<and>
     Current demo_env fs' ''other'' = Inr (Some (demo_ng\<lparr>ng_LastActivity := Some ''t0''\<rparr>), fs')"
proof -
  obtain fs' where s: "SetCurrent demo_env demo_store ''ep'' ''foo'' True True = Inr fs'"
    by (cases "SetCurrent demo_env demo_store ''ep'' ''foo'' True True")
       (auto simp: SetCurrent_def Let_def fs_write_def demo_store_def is_dir_def mget_def demo_env_def)
  have "NodeGroupByName demo_env demo_store ''foo'' = Inr (demo_ng\<lparr>ng_LastActivity := Some ''t0''\<rparr>)"
    by code_simp
  with s SetCurrent_Current [OF s] show ?thesis by simp
qed

text \<open>C37 (List_complete): where the activity files can be read, listing a well-formed store changes
  nothing and gives every stored group once, sorted by name.\<close>

theorem List_complete:
  assumes "store_wf fs"
    and "\<And>fi g. fs_read fs [instanceDir, fi] = Inr (DNodeGroup g) \<Longrightarrow> is_ok (GetLastActivity env fs g)"
  shows "\<exists>ngs. store_List env fs = Inr (ngs, fs) \<and> sorted (map ng_Name ngs) \<and> distinct (map ng_Name ngs) \<and>
    set ngs = {g. \<exists>name. NodeGroupByName env fs name = Inr g}"
proof -
  obtain fis where fis: "fs_readdir fs [instanceDir] = Inr fis"
    using assms(1) by (auto simp: store_wf_def fs_readdir_def)
  have wf: "fs_wf fs" using assms(1) by (simp add: store_wf_def)
  have mem: "fi \<in> set fis \<longleftrightarrow> mget fs [instanceDir, fi] \<noteq> None" for fi
    using fs_readdir_iff [OF wf fis, of fi] by simp
  have found: "\<exists>g. NodeGroupByName env fs fi = Inr g \<and> to_lower (ng_Name g) = fi \<and> to_lower fi = fi"
    if "fi \<in> set fis" for fi
    using stored_group_found [of fs fi env] assms that mem by blast
  then obtain ngs where ngs: "list_loop env fs fis = Inr (ngs, fs)" "map (NodeGroupByName env fs) fis = map Inr ngs"
    using list_loop_ok [of fis env fs] by (auto simp: is_ok_iff)
  have names: "map (to_lower \<circ> ng_Name) ngs = fis"
  proof (rule nth_equalityI)
    show len: "length (map (to_lower \<circ> ng_Name) ngs) = length fis" using ngs(2) by (metis length_map)
    fix i assume "i < length (map (to_lower \<circ> ng_Name) ngs)"
    then have i: "i < length ngs" "i < length fis" using len by auto
    then have "NodeGroupByName env fs (fis ! i) = Inr (ngs ! i)" using ngs(2) by (metis nth_map)
    with found [of "fis ! i"] i show "map (to_lower \<circ> ng_Name) ngs ! i = fis ! i" by auto
  qed
  have "distinct (map (to_lower \<circ> ng_Name) ngs)" using names readdir_distinct [OF wf fis] by simp
  then have d: "distinct (map ng_Name ngs)" using distinct_map [of to_lower] by (simp flip: map_map)
  have "g \<in> set ngs" if g: "NodeGroupByName env fs name = Inr g" for name g
  proof -
    have "mget fs [instanceDir, to_lower name] \<noteq> None"
      using g by (auto simp: NodeGroupByName_iff fs_read_def split: option.splits)
    then have "to_lower name \<in> set fis" by (simp add: mem)
    moreover from this g have "NodeGroupByName env fs (to_lower name) = Inr g"
      using found [of "to_lower name"] by (auto simp: NodeGroupByName_iff)
    ultimately have "Inr g \<in> set (map Inr ngs :: (store_error + nodegroup) list)"
      unfolding ngs(2) [symmetric] by force
    then show ?thesis by auto
  qed
  moreover have "\<exists>name. NodeGroupByName env fs name = Inr g" if "g \<in> set ngs" for g
    using that arg_cong [OF ngs(2), of set] by (force simp: image_iff)
  ultimately have "set ngs = {g. \<exists>name. NodeGroupByName env fs name = Inr g}" by blast
  moreover have "distinct (map ng_Name (sort_key ng_Name ngs))"
    using d by (simp add: distinct_map)
  ultimately show ?thesis using fis ngs(1) by (simp add: store_List_def)
qed

theorem List_complete_witness:
  "\<exists>ngs. store_List demo_env demo_store = Inr (ngs, demo_store) \<and> map ng_Name ngs = [''foo'']"
proof -
  have act: "is_ok (GetLastActivity demo_env demo_store g)"
    if r: "fs_read demo_store [instanceDir, fi] = Inr (DNodeGroup g)" for fi g
    using r by (auto simp: fs_read_def demo_store_def mget_def GetLastActivity_def demo_ng_def demo_env_def
        split: if_splits)
  obtain ngs where ngs: "store_List demo_env demo_store = Inr (ngs, demo_store)"
    using List_complete [OF demo_store_wf(1), of demo_env] act by blast
  have "(case store_List demo_env demo_store of Inl _ \<Rightarrow> False | Inr (l, _) \<Rightarrow> map ng_Name l = [''foo''])"
    by code_simp
  with ngs show ?thesis by simp
qed

text \<open>The generated name is the first of the six candidates that is not the name of an instance.\<close>

lemma GenerateName_first:
  "GenerateName env fs gen =
     (case dropWhile (\<lambda>i. is_ok (NodeGroupByName env fs (gen i))) [0..<6] of
        [] \<Rightarrow> Inl StGenerate
      | i # _ \<Rightarrow> (if NodeGroupByName env fs (gen i) = Inl (StFs ENotExist) then Inr (gen i)
                 else Inl (projl (NodeGroupByName env fs (gen i)))))"
proof -
  have "GenerateName_from env fs gen k n =
     (case dropWhile (\<lambda>i. is_ok (NodeGroupByName env fs (gen i))) [k..<k + n] of
        [] \<Rightarrow> Inl StGenerate
      | i # _ \<Rightarrow> (if NodeGroupByName env fs (gen i) = Inl (StFs ENotExist) then Inr (gen i)
                 else Inl (projl (NodeGroupByName env fs (gen i)))))" for k n
  proof (induction n arbitrary: k)
    case (Suc n)
    have "[k..<k + Suc n] = k # [k + 1..<k + 1 + n]" by (simp add: upt_conv_Cons)
    then show ?case by (simp add: Suc.IH is_ok_def split: sum.split)
  qed simp
  from this [of 0 6] show ?thesis by (simp add: GenerateName_def)
qed

text \<open>The activity file is written under the name as given and removed under the lower-case name, so
  removing an instance with a mixed-case name leaves its activity behind.\<close>

lemma Remove_leaves_activity:
  "(case Save ''t1'' demo_store (demo_ng\<lparr>ng_Name := ''Bar''\<rparr>) of Inl _ \<Rightarrow> False | Inr fs1 \<Rightarrow>
     (case Remove ''/cfg'' fs1 ''Bar'' of Inl _ \<Rightarrow> False | Inr fs2 \<Rightarrow> fs_read fs2 [''activity'', ''Bar''] = Inr (DText ''t1'')))"
  by code_simp

text \<open>A default that names a missing instance: \<open>reset\<close> clears the selection, and the call that follows
  selects the missing instance again.\<close>

lemma Current_keeps_missing_default:
  assumes "fs_read fs [''current''] = Inl ENotExist" and "fs_read fs [defaultsDir, e_toHash env key] = Inr (DText name)"
    and "NodeGroupByName env fs name = Inl e" and "Current env fs key = Inr (r, fs')"
  shows "r = None \<and> fs_read fs' [''current''] = Inr (DCurrent \<lparr>c_Key = key, c_Name = name, c_Global = False\<rparr>)"
  using assms by (auto simp: Current_def Current_default_def Let_def result_iff fs_read_def
      dest!: SetCurrent_mget [where q = "[''current'']"])

end
