(* ===== verification/Kubernetes.thy ===== *)
theory Kubernetes
  imports DriverFactories Store
begin

text \<open>
  The \<open>kubernetes\<close> driver: its options (\<open>driver/kubernetes/factory.go\<close>), the deployment it asks for
  (\<open>manifest/manifest.go\<close>), the choice of a pod (\<open>podchooser/podchooser.go\<close>), the nodes it reports and its
  removal (\<open>driver.go\<close>), and the names of new nodes (\<open>util/generate.go\<close>).  The cluster is a parameter: the
  pods it lists, the deployment it holds, the answers to deletions.  Resource quantities, durations and the
  consistent hash ring are parsed or computed by other packages and are parameters as well.
\<close>

section \<open>Options\<close>

record Toleration =
  t_Key :: string
  t_Operator :: string
  t_Value :: string
  t_Effect :: string
  t_TolerationSeconds :: "int option"

record DeploymentOpt =
  do_Namespace :: string
  do_Name :: string
  do_Image :: string
  do_Replicas :: int
  do_ServiceAccountName :: string
  do_SchedulerName :: string
  do_QemuInstall :: bool
  do_QemuImage :: string
  do_BuildkitFlags :: "string list"
  do_ConfigFiles :: "bytes gomap"
  do_Rootless :: bool
  do_NodeSelector :: "string gomap"
  do_CustomAnnotations :: "string gomap"
  do_CustomLabels :: "string gomap"
  do_Tolerations :: "Toleration list"
  do_RequestsCPU :: string
  do_RequestsMemory :: string
  do_RequestsEphemeralStorage :: string
  do_LimitsCPU :: string
  do_LimitsMemory :: string
  do_LimitsEphemeralStorage :: string
  do_Platforms :: "platform list"

record kube_opts =
  ko_opt :: DeploymentOpt
  ko_loadbalance :: string
  ko_namespace :: string
  ko_defaultLoad :: bool
  ko_timeout :: int

datatype k8_error =
    KPair string
  | KValue string string
  | KToleration string
  | KLoadbalance string
  | KOption string
  | KReservedAnnotation
  | KReservedLabel
  | KQuantity string
  | KDriver drv_error
  | KNoConfig
  | KNamespace
  | KClient
  | KNoPods
  | KApi string
  | KNodeName

abbreviation LoadbalanceRandom :: string where "LoadbalanceRandom \<equiv> ''random''"

abbreviation LoadbalanceSticky :: string where "LoadbalanceSticky \<equiv> ''sticky''"

abbreviation QemuImage :: string where "QemuImage \<equiv> ''tonistiigi/binfmt:latest''"

abbreviation DefaultRootlessImage :: string where "DefaultRootlessImage \<equiv> DefaultImage @ ''-rootless''"

definition trim_char :: "char \<Rightarrow> string \<Rightarrow> string" where
  "trim_char c s = rev (dropWhile ((=) c) (rev (dropWhile ((=) c) s)))"

definition split_pair :: "char \<Rightarrow> string \<Rightarrow> string gomap \<Rightarrow> k8_error + string gomap" where
  "split_pair kvsep s m =
     (case split_on kvsep s of [k, v] \<Rightarrow> Inr (mset_key k v m) | _ \<Rightarrow> Inl (KPair s))"

definition splitMultiValues :: "string \<Rightarrow> char \<Rightarrow> char \<Rightarrow> k8_error + string gomap" where
  "splitMultiValues s itemsep kvsep = rfold (split_pair kvsep) (split_on itemsep (trim_char (CHR 0x22) s)) []"

definition toleration_field :: "string \<Rightarrow> string \<Rightarrow> Toleration \<Rightarrow> k8_error + Toleration" where
  "toleration_field whole s t =
     (case split_on (CHR ''='') s of
        [k, v] \<Rightarrow>
          if k = ''key'' then Inr (t\<lparr>t_Key := v\<rparr>)
          else if k = ''operator'' then Inr (t\<lparr>t_Operator := v\<rparr>)
          else if k = ''value'' then Inr (t\<lparr>t_Value := v\<rparr>)
          else if k = ''effect'' then Inr (t\<lparr>t_Effect := v\<rparr>)
          else if k = ''tolerationSeconds'' then
            (case atoi v of None \<Rightarrow> Inl (KValue k v) | Some c \<Rightarrow> Inr (t\<lparr>t_TolerationSeconds := Some c\<rparr>))
          else Inl (KToleration whole)
      | _ \<Rightarrow> Inr t)"

definition parse_toleration :: "string \<Rightarrow> string \<Rightarrow> k8_error + Toleration" where
  "parse_toleration whole s = rfold (toleration_field whole) (split_on (CHR '','') s)
     \<lparr>t_Key = [], t_Operator = [], t_Value = [], t_Effect = [], t_TolerationSeconds = None\<rparr>"

definition parse_tolerations :: "string \<Rightarrow> k8_error + Toleration list" where
  "parse_tolerations v = rmap (parse_toleration v) (split_on (CHR '';'') v)"

definition put_value :: "string \<Rightarrow> string \<Rightarrow> 'a option \<Rightarrow> ('a \<Rightarrow> 's) \<Rightarrow> k8_error + 's" where
  "put_value k v parsed put = (case parsed of None \<Rightarrow> Inl (KValue k v) | Some x \<Rightarrow> Inr (put x))"

text \<open>One entry of the options.  \<open>isImage\<close> says whether the options name an image at all.\<close>

definition kube_option ::
  "(string \<Rightarrow> int option) \<Rightarrow> bool \<Rightarrow> string \<times> string \<Rightarrow> kube_opts \<Rightarrow> k8_error + kube_opts" where
  "kube_option ParseDuration isImage = (\<lambda>(k, v) s.
     let opt = ko_opt s
     in if k = ''image'' then Inr (if v \<noteq> [] then s\<lparr>ko_opt := opt\<lparr>do_Image := v\<rparr>\<rparr> else s)
     else if k = ''namespace'' then Inr (s\<lparr>ko_namespace := v\<rparr>)
     else if k = ''replicas'' then put_value k v (atoi v) (\<lambda>n. s\<lparr>ko_opt := opt\<lparr>do_Replicas := n\<rparr>\<rparr>)
     else if k = ''requests.cpu'' then Inr (s\<lparr>ko_opt := opt\<lparr>do_RequestsCPU := v\<rparr>\<rparr>)
     else if k = ''requests.memory'' then Inr (s\<lparr>ko_opt := opt\<lparr>do_RequestsMemory := v\<rparr>\<rparr>)
     else if k = ''requests.ephemeral-storage'' then Inr (s\<lparr>ko_opt := opt\<lparr>do_RequestsEphemeralStorage := v\<rparr>\<rparr>)
     else if k = ''limits.cpu'' then Inr (s\<lparr>ko_opt := opt\<lparr>do_LimitsCPU := v\<rparr>\<rparr>)
     else if k = ''limits.memory'' then Inr (s\<lparr>ko_opt := opt\<lparr>do_LimitsMemory := v\<rparr>\<rparr>)
     else if k = ''limits.ephemeral-storage'' then Inr (s\<lparr>ko_opt := opt\<lparr>do_LimitsEphemeralStorage := v\<rparr>\<rparr>)
     else if k = ''rootless'' then
       put_value k v (parse_bool v) (\<lambda>b.
         let opt = opt\<lparr>do_Rootless := b\<rparr>
         in s\<lparr>ko_opt := (if isImage then opt else opt\<lparr>do_Image := DefaultRootlessImage\<rparr>)\<rparr>)
     else if k = ''schedulername'' then Inr (s\<lparr>ko_opt := opt\<lparr>do_SchedulerName := v\<rparr>\<rparr>)
     else if k = ''serviceaccount'' then Inr (s\<lparr>ko_opt := opt\<lparr>do_ServiceAccountName := v\<rparr>\<rparr>)
     else if k = ''nodeselector'' then
       rbind (splitMultiValues v (CHR '','') (CHR ''='')) (\<lambda>m. Inr (s\<lparr>ko_opt := opt\<lparr>do_NodeSelector := m\<rparr>\<rparr>))
     else if k = ''annotations'' then
       rbind (splitMultiValues v (CHR '','') (CHR ''='')) (\<lambda>m. Inr (s\<lparr>ko_opt := opt\<lparr>do_CustomAnnotations := m\<rparr>\<rparr>))
     else if k = ''labels'' then
       rbind (splitMultiValues v (CHR '','') (CHR ''='')) (\<lambda>m. Inr (s\<lparr>ko_opt := opt\<lparr>do_CustomLabels := m\<rparr>\<rparr>))
     else if k = ''tolerations'' then
       rbind (parse_tolerations v) (\<lambda>ts. Inr (s\<lparr>ko_opt := opt\<lparr>do_Tolerations := ts\<rparr>\<rparr>))
     else if k = ''loadbalance'' then
       (if v = LoadbalanceSticky \<or> v = LoadbalanceRandom then Inr (s\<lparr>ko_loadbalance := v\<rparr>) else Inl (KLoadbalance v))
     else if k = ''qemu.install'' then put_value k v (parse_bool v) (\<lambda>b. s\<lparr>ko_opt := opt\<lparr>do_QemuInstall := b\<rparr>\<rparr>)
     else if k = ''qemu.image'' then Inr (if v \<noteq> [] then s\<lparr>ko_opt := opt\<lparr>do_QemuImage := v\<rparr>\<rparr> else s)
     else if k = ''default-load'' then put_value k v (parse_bool v) (\<lambda>b. s\<lparr>ko_defaultLoad := b\<rparr>)
     else if k = ''timeout'' then put_value k v (ParseDuration v) (\<lambda>t. s\<lparr>ko_timeout := t\<rparr>)
     else Inl (KOption k))"

definition kube_default :: "string \<Rightarrow> string \<Rightarrow> InitConfig \<Rightarrow> kube_opts" where
  "kube_default deploymentName namespace cfg =
     \<lparr>ko_opt = \<lparr>do_Namespace = [], do_Name = deploymentName, do_Image = DefaultImage, do_Replicas = 1,
        do_ServiceAccountName = [], do_SchedulerName = [], do_QemuInstall = False, do_QemuImage = QemuImage,
        do_BuildkitFlags = (case ic_BuildkitdFlags cfg of None \<Rightarrow> [] | Some fs \<Rightarrow> fs),
        do_ConfigFiles = go_range (ic_Files cfg), do_Rootless = False, do_NodeSelector = [],
        do_CustomAnnotations = [], do_CustomLabels = [], do_Tolerations = [], do_RequestsCPU = [],
        do_RequestsMemory = [], do_RequestsEphemeralStorage = [], do_LimitsCPU = [], do_LimitsMemory = [],
        do_LimitsEphemeralStorage = [], do_Platforms = ic_Platforms cfg\<rparr>,
      ko_loadbalance = LoadbalanceSticky, ko_namespace = namespace, ko_defaultLoad = False,
      ko_timeout = 120 * 10 ^ 9\<rparr>"

text \<open>\<open>order\<close> lists the options in the order in which the range meets them.\<close>

definition processDriverOpts ::
  "(string \<Rightarrow> int option) \<Rightarrow> (string \<times> string) list \<Rightarrow> string \<Rightarrow> string \<Rightarrow> InitConfig \<Rightarrow> k8_error + kube_opts" where
  "processDriverOpts ParseDuration order deploymentName namespace cfg =
     rfold (kube_option ParseDuration (''image'' \<in> fst ` set order)) order (kube_default deploymentName namespace cfg)"

section \<open>Options are read in any order\<close>

definition kube_option_ok :: "(string \<Rightarrow> int option) \<Rightarrow> string \<times> string \<Rightarrow> bool" where
  "kube_option_ok ParseDuration = (\<lambda>(k, v).
     if k = ''image'' then True else if k = ''namespace'' then True
     else if k = ''replicas'' then atoi v \<noteq> None
     else if k = ''requests.cpu'' then True else if k = ''requests.memory'' then True
     else if k = ''requests.ephemeral-storage'' then True
     else if k = ''limits.cpu'' then True else if k = ''limits.memory'' then True
     else if k = ''limits.ephemeral-storage'' then True
     else if k = ''rootless'' then parse_bool v \<noteq> None
     else if k = ''schedulername'' then True else if k = ''serviceaccount'' then True
     else if k = ''nodeselector'' then is_ok (splitMultiValues v (CHR '','') (CHR ''=''))
     else if k = ''annotations'' then is_ok (splitMultiValues v (CHR '','') (CHR ''=''))
     else if k = ''labels'' then is_ok (splitMultiValues v (CHR '','') (CHR ''=''))
     else if k = ''tolerations'' then is_ok (parse_tolerations v)
     else if k = ''loadbalance'' then v = LoadbalanceSticky \<or> v = LoadbalanceRandom
     else if k = ''qemu.install'' then parse_bool v \<noteq> None else if k = ''qemu.image'' then True
     else if k = ''default-load'' then parse_bool v \<noteq> None
     else if k = ''timeout'' then ParseDuration v \<noteq> None else False)"

lemma put_value_ok [simp]: "is_ok (put_value k v p put) \<longleftrightarrow> p \<noteq> None"
  by (simp add: put_value_def is_ok_def split: option.splits)

lemma rbind_Inr_ok [simp]: "is_ok (rbind m (\<lambda>x. Inr (f x))) \<longleftrightarrow> is_ok m"
  by (cases m) simp_all

lemma if_True_False: "(if P then True else False) \<longleftrightarrow> P"
  by simp

lemma kube_option_iff: "is_ok (kube_option ParseDuration isImage x s) \<longleftrightarrow> kube_option_ok ParseDuration x"
  by (cases x) (simp only: kube_option_def kube_option_ok_def Let_def prod.case if_distrib [of is_ok] is_ok_simps
    put_value_ok rbind_Inr_ok if_True_False simp_thms cong: if_cong)

lemma if_eqE: "(if c then a else b) = y \<Longrightarrow> (c \<Longrightarrow> a = y \<Longrightarrow> P) \<Longrightarrow> (b = y \<Longrightarrow> P) \<Longrightarrow> P"
  by (cases c) auto

lemma kube_option_fields:
  assumes "kube_option ParseDuration isImage (k, v) s = Inr s'" and "k = ''image'' \<longrightarrow> isImage"
  shows "do_Namespace (ko_opt s') = do_Namespace (ko_opt s) \<and>
    do_Name (ko_opt s') = do_Name (ko_opt s) \<and>
    do_BuildkitFlags (ko_opt s') = do_BuildkitFlags (ko_opt s) \<and>
    do_ConfigFiles (ko_opt s') = do_ConfigFiles (ko_opt s) \<and>
    do_Platforms (ko_opt s') = do_Platforms (ko_opt s) \<and>
    do_Image (ko_opt s') = (if k = (if isImage then ''image'' else ''rootless'') then (if isImage then (if v \<noteq> [] then v else do_Image (ko_opt s)) else DefaultRootlessImage) else do_Image (ko_opt s)) \<and>
    do_RequestsCPU (ko_opt s') = (if k = ''requests.cpu'' then v else do_RequestsCPU (ko_opt s)) \<and>
    do_RequestsMemory (ko_opt s') = (if k = ''requests.memory'' then v else do_RequestsMemory (ko_opt s)) \<and>
    do_RequestsEphemeralStorage (ko_opt s') = (if k = ''requests.ephemeral-storage'' then v else do_RequestsEphemeralStorage (ko_opt s)) \<and>
    do_LimitsCPU (ko_opt s') = (if k = ''limits.cpu'' then v else do_LimitsCPU (ko_opt s)) \<and>
    do_LimitsMemory (ko_opt s') = (if k = ''limits.memory'' then v else do_LimitsMemory (ko_opt s)) \<and>
    do_LimitsEphemeralStorage (ko_opt s') = (if k = ''limits.ephemeral-storage'' then v else do_LimitsEphemeralStorage (ko_opt s)) \<and>
    do_SchedulerName (ko_opt s') = (if k = ''schedulername'' then v else do_SchedulerName (ko_opt s)) \<and>
    do_ServiceAccountName (ko_opt s') = (if k = ''serviceaccount'' then v else do_ServiceAccountName (ko_opt s)) \<and>
    do_QemuImage (ko_opt s') = (if k = ''qemu.image'' then (if v \<noteq> [] then v else do_QemuImage (ko_opt s)) else do_QemuImage (ko_opt s)) \<and>
    do_Replicas (ko_opt s') = (if k = ''replicas'' then the (atoi v) else do_Replicas (ko_opt s)) \<and>
    do_Rootless (ko_opt s') = (if k = ''rootless'' then the (parse_bool v) else do_Rootless (ko_opt s)) \<and>
    do_QemuInstall (ko_opt s') = (if k = ''qemu.install'' then the (parse_bool v) else do_QemuInstall (ko_opt s)) \<and>
    do_NodeSelector (ko_opt s') = (if k = ''nodeselector'' then projr (splitMultiValues v (CHR '','') (CHR ''='')) else do_NodeSelector (ko_opt s)) \<and>
    do_CustomAnnotations (ko_opt s') = (if k = ''annotations'' then projr (splitMultiValues v (CHR '','') (CHR ''='')) else do_CustomAnnotations (ko_opt s)) \<and>
    do_CustomLabels (ko_opt s') = (if k = ''labels'' then projr (splitMultiValues v (CHR '','') (CHR ''='')) else do_CustomLabels (ko_opt s)) \<and>
    do_Tolerations (ko_opt s') = (if k = ''tolerations'' then projr (parse_tolerations v) else do_Tolerations (ko_opt s)) \<and>
    ko_namespace s' = (if k = ''namespace'' then v else ko_namespace s) \<and>
    ko_loadbalance s' = (if k = ''loadbalance'' then v else ko_loadbalance s) \<and>
    ko_defaultLoad s' = (if k = ''default-load'' then the (parse_bool v) else ko_defaultLoad s) \<and>
    ko_timeout s' = (if k = ''timeout'' then the (ParseDuration v) else ko_timeout s)"
  using assms(1) [unfolded kube_option_def prod.case Let_def] assms(2)
  by (elim if_eqE; clarsimp simp: put_value_def result_iff split: option.split_asm if_split_asm)

lemma kube_options_field:
  assumes "processDriverOpts ParseDuration xs name ns cfg = Inr t" and "distinct (map fst xs)"
    and "\<And>k v s s'. kube_option ParseDuration (''image'' \<in> fst ` set xs) (k, v) s = Inr s' \<Longrightarrow>
      k = ''image'' \<longrightarrow> ''image'' \<in> fst ` set xs \<Longrightarrow> get s' = (if k = key then val v (get s) else get s)"
  shows "get t = (case map_of xs key of None \<Rightarrow> get (kube_default name ns cfg) | Some v \<Rightarrow> val v (get (kube_default name ns cfg)))"
proof -
  have r: "rfold (kube_option ParseDuration (''image'' \<in> fst ` set xs)) xs (kube_default name ns cfg) = Inr t"
    using assms(1) by (simp add: processDriverOpts_def)
  show ?thesis
  proof (rule rfold_field [OF r assms(2)])
    show "get s' = (if k = key then val v (get s) else get s)"
      if "(k, v) \<in> set xs" "kube_option ParseDuration (''image'' \<in> fst ` set xs) (k, v) s = Inr s'" for k v s s'
      using that(1) by (intro assms(3) [OF that(2)]) force
  qed
qed

lemma kube_options_same:
  assumes "processDriverOpts ParseDuration xs name ns cfg = Inr t" and "processDriverOpts ParseDuration ys name ns cfg = Inr t'"
    and "mset xs = mset ys" and "distinct (map fst xs)"
    and "\<And>isImage k v s s'. kube_option ParseDuration isImage (k, v) s = Inr s' \<Longrightarrow> k = ''image'' \<longrightarrow> isImage \<Longrightarrow>
      get s' = (if k = key isImage then val isImage v (get s) else get s)"
  shows "get t = get t'"
proof -
  note ys = map_of_reorder [OF assms(3,4)]
  define i where "i = (''image'' \<in> fst ` set xs)"
  have i': "(''image'' \<in> fst ` set ys) = i" using ys(3) by (simp add: i_def)
  have "get t = (case map_of xs (key i) of None \<Rightarrow> get (kube_default name ns cfg) | Some v \<Rightarrow> val i v (get (kube_default name ns cfg)))"
    by (rule kube_options_field [OF assms(1,4)]) (rule assms(5), simp_all flip: i_def)
  moreover have "get t' = (case map_of ys (key i) of None \<Rightarrow> get (kube_default name ns cfg) | Some v \<Rightarrow> val i v (get (kube_default name ns cfg)))"
    by (rule kube_options_field [OF assms(2) ys(2)]) (rule assms(5), simp_all add: i')
  ultimately show ?thesis using ys(1) by simp
qed

lemma kube_options_equal:
  assumes "processDriverOpts ParseDuration xs name ns cfg = Inr t" and "processDriverOpts ParseDuration ys name ns cfg = Inr t'"
    and "mset xs = mset ys" and "distinct (map fst xs)"
  shows "t = t'"
proof -
  have "do_Namespace (ko_opt t) = do_Namespace (ko_opt t') \<and>
    do_Name (ko_opt t) = do_Name (ko_opt t') \<and>
    do_BuildkitFlags (ko_opt t) = do_BuildkitFlags (ko_opt t') \<and>
    do_ConfigFiles (ko_opt t) = do_ConfigFiles (ko_opt t') \<and>
    do_Platforms (ko_opt t) = do_Platforms (ko_opt t')"
    by (intro conjI; rule kube_options_same [OF assms, where key = "\<lambda>_. []" and val = "\<lambda>_ _ x. x"]; drule (1) kube_option_fields; simp)
  moreover have "do_Image (ko_opt t) = do_Image (ko_opt t') \<and>
    do_RequestsCPU (ko_opt t) = do_RequestsCPU (ko_opt t') \<and>
    do_RequestsMemory (ko_opt t) = do_RequestsMemory (ko_opt t') \<and>
    do_RequestsEphemeralStorage (ko_opt t) = do_RequestsEphemeralStorage (ko_opt t') \<and>
    do_LimitsCPU (ko_opt t) = do_LimitsCPU (ko_opt t') \<and>
    do_LimitsMemory (ko_opt t) = do_LimitsMemory (ko_opt t') \<and>
    do_LimitsEphemeralStorage (ko_opt t) = do_LimitsEphemeralStorage (ko_opt t') \<and>
    do_SchedulerName (ko_opt t) = do_SchedulerName (ko_opt t') \<and>
    do_ServiceAccountName (ko_opt t) = do_ServiceAccountName (ko_opt t') \<and>
    do_QemuImage (ko_opt t) = do_QemuImage (ko_opt t') \<and>
    do_Replicas (ko_opt t) = do_Replicas (ko_opt t') \<and>
    do_Rootless (ko_opt t) = do_Rootless (ko_opt t') \<and>
    do_QemuInstall (ko_opt t) = do_QemuInstall (ko_opt t') \<and>
    do_NodeSelector (ko_opt t) = do_NodeSelector (ko_opt t') \<and>
    do_CustomAnnotations (ko_opt t) = do_CustomAnnotations (ko_opt t') \<and>
    do_CustomLabels (ko_opt t) = do_CustomLabels (ko_opt t') \<and>
    do_Tolerations (ko_opt t) = do_Tolerations (ko_opt t') \<and>
    ko_namespace t = ko_namespace t' \<and>
    ko_loadbalance t = ko_loadbalance t' \<and>
    ko_defaultLoad t = ko_defaultLoad t' \<and>
    ko_timeout t = ko_timeout t'"
    by (intro conjI; rule kube_options_same [OF assms]; drule (1) kube_option_fields; elim conjE; assumption)
  ultimately show ?thesis by (intro kube_opts.equality DeploymentOpt.equality) simp_all
qed

section \<open>Properties\<close>

text \<open>C17 (processDriverOpts_order): the options of a \<open>kubernetes\<close> driver mean the same in whatever order the
  range over them meets them: they are accepted exactly when each option is acceptable on its own, and
  then every order gives the same settings.\<close>

theorem processDriverOpts_order:
  assumes "mset xs = mset ys" and "distinct (map fst xs)"
  shows "(is_ok (processDriverOpts ParseDuration xs name ns cfg) \<longleftrightarrow> list_all (kube_option_ok ParseDuration) xs) \<and>
    (is_ok (processDriverOpts ParseDuration xs name ns cfg) \<longrightarrow>
       processDriverOpts ParseDuration ys name ns cfg = processDriverOpts ParseDuration xs name ns cfg)"
proof -
  have ok: "is_ok (processDriverOpts ParseDuration zs name ns cfg) \<longleftrightarrow> list_all (kube_option_ok ParseDuration) zs" for zs
    unfolding processDriverOpts_def list_all_iff by (rule rfold_ok_iff) (rule kube_option_iff)
  moreover have "processDriverOpts ParseDuration ys name ns cfg = processDriverOpts ParseDuration xs name ns cfg"
    if "is_ok (processDriverOpts ParseDuration xs name ns cfg)"
  proof -
    have "is_ok (processDriverOpts ParseDuration ys name ns cfg)"
      using that ok [of xs] ok [of ys] map_of_reorder(3) [OF assms] by (simp add: list_all_iff)
    then show ?thesis using that kube_options_equal [OF _ _ assms] by (metis is_ok_iff)
  qed
  ultimately show ?thesis by blast
qed

theorem processDriverOpts_order_witness:
  "is_ok (processDriverOpts atoi [(''rootless'', ''true''), (''replicas'', ''2'')] ''foo0'' ''ns'' (demo_config [])) \<and>
   processDriverOpts atoi [(''replicas'', ''2''), (''rootless'', ''true'')] ''foo0'' ''ns'' (demo_config []) =
   processDriverOpts atoi [(''rootless'', ''true''), (''replicas'', ''2'')] ''foo0'' ''ns'' (demo_config [])"
proof -
  have "list_all (kube_option_ok atoi) [(''rootless'', ''true''), (''replicas'', ''2'')]" by code_simp
  moreover have "mset [(''rootless'', ''true''), (''replicas'', ''2'')] = mset [(''replicas'', ''2''), (''rootless'', ''true'')]"
    by (simp add: add_mset_commute)
  ultimately show ?thesis
    using processDriverOpts_order [of "[(''rootless'', ''true''), (''replicas'', ''2'')]"
      "[(''replicas'', ''2''), (''rootless'', ''true'')]" atoi "''foo0''" "''ns''" "demo_config []"] by simp
qed

text \<open>A named image is the one that runs, an empty name leaves the default, and
  without a name the mere presence of \<open>rootless\<close>, whatever its value, selects the rootless image.\<close>

theorem processDriverOpts_image:
  assumes "processDriverOpts ParseDuration xs name ns cfg = Inr s" and "distinct (map fst xs)"
  shows "do_Image (ko_opt s) =
    (case map_of xs ''image'' of
       Some v \<Rightarrow> if v \<noteq> [] then v else DefaultImage
     | None \<Rightarrow> if map_of xs ''rootless'' \<noteq> None then DefaultRootlessImage else DefaultImage)"
proof -
  define i where "i = (''image'' \<in> fst ` set xs)"
  have "do_Image (ko_opt s) = (case map_of xs (if i then ''image'' else ''rootless'') of
      None \<Rightarrow> do_Image (ko_opt (kube_default name ns cfg))
    | Some v \<Rightarrow> (if i then (if v \<noteq> [] then v else do_Image (ko_opt (kube_default name ns cfg))) else DefaultRootlessImage))"
    by (rule kube_options_field [OF assms, folded i_def]; drule (1) kube_option_fields; elim conjE; assumption)
  moreover have "i \<longleftrightarrow> map_of xs ''image'' \<noteq> None" by (simp add: i_def map_of_eq_None_iff)
  ultimately show ?thesis by (auto simp: kube_default_def split: option.splits)
qed

theorem processDriverOpts_image_witness:
  "\<exists>s. processDriverOpts atoi [(''rootless'', ''false'')] ''foo0'' ''ns'' (demo_config []) = Inr s \<and>
     \<not> do_Rootless (ko_opt s) \<and> do_Image (ko_opt s) = DefaultRootlessImage"
proof -
  obtain s where s: "processDriverOpts atoi [(''rootless'', ''false'')] ''foo0'' ''ns'' (demo_config []) = Inr s"
      "\<not> do_Rootless (ko_opt s)"
    by (simp add: processDriverOpts_def kube_option_def put_value_def parse_bool_def Let_def)
  from processDriverOpts_image [OF s(1)] s show ?thesis by simp
qed

end
