(* ===== verification/KubeManifest.thy ===== *)
theory KubeManifest
  imports Kubernetes "HOL-Library.Word"
begin

text \<open>
  What the \<open>kubernetes\<close> driver does with its options: the deployment and the configuration maps
  (\<open>driver/kubernetes/manifest/manifest.go\<close>), the running pods and the choice among them
  (\<open>podchooser/podchooser.go\<close>), the factory, the reported state and the removal (\<open>factory.go\<close>,
  \<open>driver.go\<close>), and generated node names (\<open>util/generate.go\<close>).  The maps of labels and of annotations are
  shared by the deployment, its selector, the pod template and the configuration maps; they are one field
  each, so that a later write shows everywhere.
\<close>

section \<open>Files by directory\<close>

record config =
  cf_name :: string
  cf_path :: string
  cf_files :: "string gomap"

record split_state =
  sp_configs :: "config list"
  sp_idx :: "nat gomap"
  sp_nameIdx :: nat

definition add_file :: "string \<Rightarrow> bytes \<Rightarrow> config \<Rightarrow> config" where
  "add_file k v c = c\<lparr>cf_files := mset_key (path_Base k) v (cf_files c)\<rparr>"

definition split_file :: "split_state \<Rightarrow> string \<times> bytes \<Rightarrow> split_state" where
  "split_file st = (\<lambda>(k, v).
     let dir = path_Dir k
     in case mget (sp_idx st) dir of
          Some i \<Rightarrow> st\<lparr>sp_configs := (sp_configs st)[i := add_file k v (sp_configs st ! i)]\<rparr>
        | None \<Rightarrow>
            (let i = length (sp_configs st);
                 n = (if dir \<noteq> ''.'' then sp_nameIdx st + 1 else sp_nameIdx st);
                 name = (if dir \<noteq> ''.'' then ''config-'' @ itoa n else ''config'');
                 c = add_file k v \<lparr>cf_name = name, cf_path = dir, cf_files = []\<rparr>
             in \<lparr>sp_configs = sp_configs st @ [c], sp_idx = mset_key dir i (sp_idx st), sp_nameIdx = n\<rparr>))"

text \<open>\<open>order\<close> lists the files in the order in which the range over the map meets them.\<close>

definition splitConfigFiles :: "(string \<times> bytes) list \<Rightarrow> config list" where
  "splitConfigFiles order = sp_configs (foldl split_file \<lparr>sp_configs = [], sp_idx = [], sp_nameIdx = 0\<rparr> order)"

section \<open>The deployment\<close>

record VolumeMount =
  vm_Name :: string
  vm_MountPath :: string

datatype VolumeSource = VConfigMap string | VEmptyDir

datatype SecurityContext = Privileged | SeccompUnconfined

record Container =
  c_CName :: string
  c_Image :: string
  c_Args :: "string list"
  c_Security :: SecurityContext
  c_Probe :: "string list"
  c_Requests :: "string gomap"
  c_Limits :: "string gomap"
  c_VolumeMounts :: "VolumeMount list"

record Deployment =
  dp_Namespace :: string
  dp_Name :: string
  dp_Labels :: "string gomap"
  dp_Annotations :: "string gomap"
  dp_Replicas :: "32 word"
  dp_ServiceAccountName :: string
  dp_SchedulerName :: string
  dp_Container :: Container
  dp_InitContainers :: "Container list"
  dp_Volumes :: "(string \<times> VolumeSource) list"
  dp_NodeSelector :: "string gomap"
  dp_Tolerations :: "Toleration list"

record ConfigMap =
  cm_Namespace :: string
  cm_Name :: string
  cm_Annotations :: "string gomap"
  cm_Data :: "string gomap"

abbreviation AnnotationPlatform :: string where "AnnotationPlatform \<equiv> ''buildx.docker.com/platform''"

abbreviation LabelApp :: string where "LabelApp \<equiv> ''app''"

abbreviation containerName :: string where "containerName \<equiv> ''buildkitd''"

abbreviation apparmorAnnotation :: string where
  "apparmorAnnotation \<equiv> ''container.apparmor.security.beta.kubernetes.io/'' @ containerName"

definition custom_entry :: "string \<Rightarrow> k8_error \<Rightarrow> string \<times> string \<Rightarrow> string gomap \<Rightarrow> k8_error + string gomap" where
  "custom_entry reserved err = (\<lambda>(k, v) m. if k = reserved then Inl err else Inr (mset_key k v m))"

definition toRootless :: "Deployment \<Rightarrow> Deployment" where
  "toRootless d =
     (let c = dp_Container d
      in d\<lparr>dp_Container := c\<lparr>c_Args := c_Args c @ [''--oci-worker-no-process-sandbox''], c_Security := SeccompUnconfined,
             c_VolumeMounts := c_VolumeMounts c @ [\<lparr>vm_Name = ''buildkitd'', vm_MountPath = ''/home/user/.local/share/buildkit''\<rparr>]\<rparr>,
           dp_Annotations := mset_key apparmorAnnotation ''unconfined'' (dp_Annotations d),
           dp_Volumes := dp_Volumes d @ [(''buildkitd'', VEmptyDir)]\<rparr>)"

definition mount_config :: "string \<Rightarrow> config \<Rightarrow> Deployment \<Rightarrow> Deployment" where
  "mount_config cmName cfg d =
     (let c = dp_Container d
      in d\<lparr>dp_Container := c\<lparr>c_VolumeMounts := c_VolumeMounts c @
               [\<lparr>vm_Name = cf_name cfg, vm_MountPath = path_join [''/etc/buildkit'', cf_path cfg]\<rparr>]\<rparr>,
           dp_Volumes := dp_Volumes d @ [(cf_name cfg, VConfigMap cmName)]\<rparr>)"

text \<open>A resource request or limit: an empty one is left out.\<close>

definition put_quantity :: "(string \<Rightarrow> string option) \<Rightarrow> string \<times> string \<Rightarrow> string gomap \<Rightarrow> k8_error + string gomap" where
  "put_quantity ParseQuantity = (\<lambda>(k, v) m.
     if v = [] then Inr m
     else case ParseQuantity v of None \<Rightarrow> Inl (KQuantity v) | Some q \<Rightarrow> Inr (mset_key k q m))"

abbreviation no_container :: "string \<Rightarrow> string \<Rightarrow> string list \<Rightarrow> Container" where
  "no_container name img args \<equiv> \<lparr>c_CName = name, c_Image = img, c_Args = args, c_Security = Privileged, c_Probe = [],
     c_Requests = [], c_Limits = [], c_VolumeMounts = []\<rparr>"

definition base_deployment :: "DeploymentOpt \<Rightarrow> string gomap \<Rightarrow> string gomap \<Rightarrow> Deployment" where
  "base_deployment opt labels annotations =
     \<lparr>dp_Namespace = do_Namespace opt, dp_Name = do_Name opt, dp_Labels = labels, dp_Annotations = annotations,
      dp_Replicas = word_of_int (do_Replicas opt),
      dp_ServiceAccountName = do_ServiceAccountName opt, dp_SchedulerName = do_SchedulerName opt,
      dp_Container = (no_container containerName (do_Image opt) (do_BuildkitFlags opt))
        \<lparr>c_Probe := [''buildctl'', ''debug'', ''workers'']\<rparr>,
      dp_InitContainers = [], dp_Volumes = [], dp_NodeSelector = [], dp_Tolerations = []\<rparr>"

text \<open>\<open>order\<close> is the order of the configuration files.\<close>

definition NewDeployment ::
  "(string \<Rightarrow> string option) \<Rightarrow> (string \<times> bytes) list \<Rightarrow> DeploymentOpt \<Rightarrow> k8_error + (Deployment \<times> ConfigMap list)" where
  "NewDeployment ParseQuantity order opt =
     (let annotations = (if do_Platforms opt \<noteq> []
            then mset_key AnnotationPlatform (join '','' (platforms_Format (do_Platforms opt))) [] else [])
      in
      rbind (rfold (custom_entry AnnotationPlatform KReservedAnnotation) (do_CustomAnnotations opt) annotations) (\<lambda>annotations.
      rbind (rfold (custom_entry LabelApp KReservedLabel) (do_CustomLabels opt) (mset_key LabelApp (do_Name opt) [])) (\<lambda>labels.
        let configs = splitConfigFiles order;
            cmName = (\<lambda>cfg. do_Name opt @ ''-'' @ cf_name cfg);
            d = foldl (\<lambda>d cfg. mount_config (cmName cfg) cfg d) (base_deployment opt labels annotations) configs;
            d = (if do_QemuInstall opt
                 then d\<lparr>dp_InitContainers := [no_container ''qemu'' (do_QemuImage opt) [''--install'', ''all'']]\<rparr> else d);
            d = (if do_Rootless opt then toRootless d else d);
            d = (if do_NodeSelector opt \<noteq> [] then d\<lparr>dp_NodeSelector := do_NodeSelector opt\<rparr> else d);
            d = (if do_Tolerations opt \<noteq> [] then d\<lparr>dp_Tolerations := do_Tolerations opt\<rparr> else d)
        in
        rbind (rfold (put_quantity ParseQuantity)
          [(''cpu'', do_RequestsCPU opt), (''memory'', do_RequestsMemory opt), (''ephemeral-storage'', do_RequestsEphemeralStorage opt)]
          (c_Requests (dp_Container d))) (\<lambda>requests.
        rbind (rfold (put_quantity ParseQuantity)
          [(''cpu'', do_LimitsCPU opt), (''memory'', do_LimitsMemory opt), (''ephemeral-storage'', do_LimitsEphemeralStorage opt)]
          (c_Limits (dp_Container d))) (\<lambda>limits.
        Inr (d\<lparr>dp_Container := (dp_Container d)\<lparr>c_Requests := requests, c_Limits := limits\<rparr>\<rparr>,
             map (\<lambda>cfg. \<lparr>cm_Namespace = do_Namespace opt, cm_Name = cmName cfg, cm_Annotations = dp_Annotations d,
                         cm_Data = cf_files cfg\<rparr>) configs))))))"

section \<open>Every file is mounted\<close>

text \<open>What the loop over the files keeps, after the files \<open>dn\<close>: the index of a directory is the one
  configuration of that path, names are distinct, and a configuration holds the files of its directory.\<close>

definition split_inv :: "(string \<times> bytes) list \<Rightarrow> split_state \<Rightarrow> bool" where
  "split_inv dn st \<longleftrightarrow>
     (\<forall>d i. mget (sp_idx st) d = Some i \<longleftrightarrow> i < length (sp_configs st) \<and> cf_path (sp_configs st ! i) = d) \<and>
     (\<forall>c \<in> set (sp_configs st). if cf_path c = ''.'' then cf_name c = ''config''
        else \<exists>m. m \<le> sp_nameIdx st \<and> cf_name c = ''config-'' @ itoa m) \<and>
     distinct (map cf_name (sp_configs st)) \<and>
     (\<forall>(k, v) \<in> set dn. mget (sp_idx st) (path_Dir k) \<noteq> None) \<and>
     (\<forall>c \<in> set (sp_configs st). \<forall>b v. mget (cf_files c) b = Some v \<longleftrightarrow>
        (\<exists>k. (k, v) \<in> set dn \<and> path_Dir k = cf_path c \<and> path_Base k = b))"

lemma split_invD:
  assumes "split_inv dn st"
  shows "mget (sp_idx st) d = Some i \<longleftrightarrow> i < length (sp_configs st) \<and> cf_path (sp_configs st ! i) = d"
    and "c \<in> set (sp_configs st) \<Longrightarrow> if cf_path c = ''.'' then cf_name c = ''config''
        else \<exists>m. m \<le> sp_nameIdx st \<and> cf_name c = ''config-'' @ itoa m"
    and "distinct (map cf_name (sp_configs st))"
    and "(k, v) \<in> set dn \<Longrightarrow> mget (sp_idx st) (path_Dir k) \<noteq> None"
    and "c \<in> set (sp_configs st) \<Longrightarrow> mget (cf_files c) b = Some v \<longleftrightarrow>
        (\<exists>k. (k, v) \<in> set dn \<and> path_Dir k = cf_path c \<and> path_Base k = b)"
  using assms unfolding split_inv_def by blast+

abbreviation place :: "string \<times> bytes \<Rightarrow> string \<times> string" where
  "place \<equiv> \<lambda>(k, v). (path_Dir k, path_Base k)"

lemma split_invI:
  assumes "\<And>d i. mget (sp_idx st) d = Some i \<longleftrightarrow> i < length (sp_configs st) \<and> cf_path (sp_configs st ! i) = d"
    and "\<And>c. c \<in> set (sp_configs st) \<Longrightarrow> if cf_path c = ''.'' then cf_name c = ''config''
        else \<exists>m. m \<le> sp_nameIdx st \<and> cf_name c = ''config-'' @ itoa m"
    and "distinct (map cf_name (sp_configs st))"
    and "\<And>k v. (k, v) \<in> set dn \<Longrightarrow> mget (sp_idx st) (path_Dir k) \<noteq> None"
    and "\<And>c b v. c \<in> set (sp_configs st) \<Longrightarrow> mget (cf_files c) b = Some v \<longleftrightarrow>
        (\<exists>k. (k, v) \<in> set dn \<and> path_Dir k = cf_path c \<and> path_Base k = b)"
  shows "split_inv dn st"
  using assms unfolding split_inv_def by blast

lemma split_file_old:
  assumes "split_inv dn st" and "place (k, v) \<notin> place ` set dn" and "mget (sp_idx st) (path_Dir k) = Some i"
  shows "split_inv (dn @ [(k, v)]) (split_file st (k, v))"
proof -
  note inv = split_invD [OF assms(1)]
  define cs where "cs = (sp_configs st)[i := add_file k v (sp_configs st ! i)]"
  have st': "split_file st (k, v) = st\<lparr>sp_configs := cs\<rparr>" using assms(3) by (simp add: split_file_def cs_def)
  have i: "i < length (sp_configs st)" "cf_path (sp_configs st ! i) = path_Dir k" using inv(1) assms(3) by blast+
  have nth: "cs ! j = (if j = i then add_file k v (sp_configs st ! i) else sp_configs st ! j)" if "j < length cs" for j
    using that by (simp add: cs_def nth_list_update)
  have path: "cf_path (cs ! j) = cf_path (sp_configs st ! j)" "cf_name (cs ! j) = cf_name (sp_configs st ! j)" if "j < length cs" for j
    using nth [OF that] by (simp_all add: add_file_def)
  have len: "length cs = length (sp_configs st)" by (simp add: cs_def)
  have same: "map cf_name cs = map cf_name (sp_configs st)" by (rule nth_equalityI) (use path len in simp_all)
  have files: "mget (cf_files (cs ! j)) b = Some w \<longleftrightarrow>
      (\<exists>k'. (k', w) \<in> set (dn @ [(k, v)]) \<and> path_Dir k' = cf_path (cs ! j) \<and> path_Base k' = b)" if j: "j < length cs" for j b w
  proof (cases "j = i")
    case True
    then show ?thesis
      using nth [OF j] path [OF j] inv(5) [of "sp_configs st ! i" b w] i assms(2) by (force simp: add_file_def mget_set)
  next
    case False
    then have "cf_path (sp_configs st ! j) \<noteq> path_Dir k" using inv(1) [of "path_Dir k" j] assms(3) j len by auto
    then show ?thesis using False nth [OF j] inv(5) [of "sp_configs st ! j" b w] j len by auto
  qed
  have "if cf_path c = ''.'' then cf_name c = ''config'' else \<exists>m. m \<le> sp_nameIdx st \<and> cf_name c = ''config-'' @ itoa m"
    if "c \<in> set cs" for c using that inv(2) path len by (metis in_set_conv_nth)
  moreover have "mget (sp_idx st) d = Some j \<longleftrightarrow> j < length cs \<and> cf_path (cs ! j) = d" for d j using inv(1) path len by auto
  moreover have "mget (sp_idx st) (path_Dir k') \<noteq> None" if "(k', w) \<in> set (dn @ [(k, v)])" for k' w
    using that inv(4) assms(3) by auto
  moreover have "mget (cf_files c) b = Some w \<longleftrightarrow>
      (\<exists>k'. (k', w) \<in> set (dn @ [(k, v)]) \<and> path_Dir k' = cf_path c \<and> path_Base k' = b)" if "c \<in> set cs" for c b w
    using files that by (metis in_set_conv_nth)
  moreover have "distinct (map cf_name cs)" using inv(3) same by simp
  moreover have "sp_configs (split_file st (k, v)) = cs" "sp_idx (split_file st (k, v)) = sp_idx st"
    "sp_nameIdx (split_file st (k, v)) = sp_nameIdx st" by (simp_all add: st')
  ultimately show ?thesis by (intro split_invI) metis+
qed

lemma split_file_new:
  assumes "split_inv dn st" and "mget (sp_idx st) (path_Dir k) = None"
  shows "split_inv (dn @ [(k, v)]) (split_file st (k, v))"
proof -
  note inv = split_invD [OF assms(1)]
  define n where "n = (if path_Dir k \<noteq> ''.'' then sp_nameIdx st + 1 else sp_nameIdx st)"
  define c where "c = add_file k v \<lparr>cf_name = (if path_Dir k \<noteq> ''.'' then ''config-'' @ itoa n else ''config''),
    cf_path = path_Dir k, cf_files = []\<rparr>"
  define st' where "st' = \<lparr>sp_configs = sp_configs st @ [c], sp_idx = mset_key (path_Dir k) (length (sp_configs st)) (sp_idx st),
    sp_nameIdx = n\<rparr>"
  have st': "split_file st (k, v) = st'" using assms(2) by (simp add: split_file_def st'_def c_def n_def Let_def)
  have fresh: "cf_path c' \<noteq> path_Dir k" if m: "c' \<in> set (sp_configs st)" for c'
  proof -
    obtain i where "i < length (sp_configs st)" "c' = sp_configs st ! i" using m unfolding in_set_conv_nth by blast
    then show ?thesis using inv(1) [of "path_Dir k" i] assms(2) by auto
  qed
  have c: "cf_path c = path_Dir k" "cf_name c = (if path_Dir k \<noteq> ''.'' then ''config-'' @ itoa n else ''config'')"
    "mget (cf_files c) b = Some w \<longleftrightarrow> b = path_Base k \<and> w = v" for b w
    by (auto simp: c_def add_file_def mget_def split: if_splits)
  have "cf_name c' \<noteq> cf_name c" if "c' \<in> set (sp_configs st)" for c'
    using inv(2) [OF that] fresh [OF that] c(2) by (auto simp: n_def split: if_splits)
  then have "distinct (map cf_name (sp_configs st'))" using inv(3) by (simp add: st'_def) (metis imageE)
  moreover have "if cf_path c' = ''.'' then cf_name c' = ''config'' else \<exists>m. m \<le> n \<and> cf_name c' = ''config-'' @ itoa m"
    if "c' \<in> set (sp_configs st')" for c'
  proof (cases "c' = c")
    case False
    then have "c' \<in> set (sp_configs st)" using that by (simp add: st'_def)
    moreover have "sp_nameIdx st \<le> n" by (simp add: n_def)
    ultimately show ?thesis using inv(2) [of c'] by (cases "cf_path c' = ''.''") (auto intro: le_trans)
  qed (use c in auto)
  moreover have "mget (sp_idx st') d = Some i \<longleftrightarrow> i < length (sp_configs st') \<and> cf_path (sp_configs st' ! i) = d" for d i
    using inv(1) [of d i] fresh c(1) by (auto simp: st'_def mget_set nth_append)
  moreover have "mget (sp_idx st') (path_Dir k') \<noteq> None" if "(k', w) \<in> set (dn @ [(k, v)])" for k' w
    using that inv(4) by (auto simp: st'_def mget_set)
  moreover have "mget (cf_files c') b = Some w \<longleftrightarrow>
      (\<exists>k'. (k', w) \<in> set (dn @ [(k, v)]) \<and> path_Dir k' = cf_path c' \<and> path_Base k' = b)"
    if "c' \<in> set (sp_configs st')" for c' b w
  proof (cases "c' \<in> set (sp_configs st)")
    case True
    then show ?thesis using inv(5) [OF True] fresh [OF True] by auto
  next
    case False
    then have "c' = c" using that by (simp add: st'_def)
    moreover have "path_Dir k' \<noteq> path_Dir k" if "(k', u) \<in> set dn" for k' u using inv(4) [OF that] assms(2) by auto
    ultimately show ?thesis using c by auto
  qed
  moreover have "sp_nameIdx st' = n" by (simp add: st'_def)
  ultimately show ?thesis unfolding st' by (intro split_invI) metis+
qed

lemma splitConfigFiles_inv:
  "distinct (map place order) \<Longrightarrow> split_inv order (foldl split_file \<lparr>sp_configs = [], sp_idx = [], sp_nameIdx = 0\<rparr> order)"
proof (induction order rule: rev_induct)
  case Nil
  then show ?case by (simp add: split_inv_def)
next
  case (snoc kv order)
  obtain k v where kv: "kv = (k, v)" by fastforce
  define st where "st = foldl split_file \<lparr>sp_configs = [], sp_idx = [], sp_nameIdx = 0\<rparr> order"
  have inv: "split_inv order st" and new: "place (k, v) \<notin> place ` set order"
    using snoc kv by (auto simp: st_def)
  show ?case
    using split_file_old [OF inv new] split_file_new [OF inv, where k = k and v = v] kv
    by (cases "mget (sp_idx st) (path_Dir k)") (simp_all flip: st_def)
qed

section \<open>Properties of the files\<close>

text \<open>C18 (splitConfigFiles_places): the configuration files of a deployment are split by directory without
  loss: configurations have distinct names and distinct paths, and a configuration holds under a name
  exactly the file of that name in its directory.\<close>

theorem splitConfigFiles_places:
  assumes "distinct (map place order)"
  shows "distinct (map cf_name (splitConfigFiles order)) \<and> distinct (map cf_path (splitConfigFiles order)) \<and>
    (\<forall>c \<in> set (splitConfigFiles order). \<forall>b v. mget (cf_files c) b = Some v \<longleftrightarrow>
       (\<exists>k. (k, v) \<in> set order \<and> path_Dir k = cf_path c \<and> path_Base k = b)) \<and>
    (\<forall>(k, v) \<in> set order. \<exists>c \<in> set (splitConfigFiles order). cf_path c = path_Dir k \<and> mget (cf_files c) (path_Base k) = Some v)"
proof -
  define st where "st = foldl split_file \<lparr>sp_configs = [], sp_idx = [], sp_nameIdx = 0\<rparr> order"
  note inv = split_invD [OF splitConfigFiles_inv [OF assms], folded st_def]
  have cs: "splitConfigFiles order = sp_configs st" by (simp add: splitConfigFiles_def st_def)
  have "i = j" if "i < length (sp_configs st)" "j < length (sp_configs st)" "cf_path (sp_configs st ! i) = cf_path (sp_configs st ! j)" for i j
    using inv(1) [of "cf_path (sp_configs st ! i)" i] inv(1) [of "cf_path (sp_configs st ! i)" j] that by simp
  then have "distinct (map cf_path (sp_configs st))" by (auto simp: distinct_conv_nth)
  moreover have "\<exists>c \<in> set (sp_configs st). cf_path c = path_Dir k \<and> mget (cf_files c) (path_Base k) = Some v"
    if kv: "(k, v) \<in> set order" for k v
  proof -
    obtain i where "i < length (sp_configs st)" "cf_path (sp_configs st ! i) = path_Dir k"
      using inv(1) inv(4) [OF kv] by blast
    then show ?thesis using inv(5) [of "sp_configs st ! i" "path_Base k" v] kv by (intro bexI [of _ "sp_configs st ! i"]) auto
  qed
  ultimately show ?thesis unfolding cs using inv(3,5) by blast
qed

theorem splitConfigFiles_places_witness:
  "splitConfigFiles [(''buildkitd.toml'', ''t''), (''certs/reg/ca.pem'', ''c'')] =
     [\<lparr>cf_name = ''config'', cf_path = ''.'', cf_files = [(''buildkitd.toml'', ''t'')]\<rparr>,
      \<lparr>cf_name = ''config-1'', cf_path = ''certs/reg'', cf_files = [(''ca.pem'', ''c'')]\<rparr>] \<and>
   distinct (map cf_name (splitConfigFiles [(''buildkitd.toml'', ''t''), (''certs/reg/ca.pem'', ''c'')]))"
proof -
  have "splitConfigFiles [(''buildkitd.toml'', ''t''), (''certs/reg/ca.pem'', ''c'')] =
     [\<lparr>cf_name = ''config'', cf_path = ''.'', cf_files = [(''buildkitd.toml'', ''t'')]\<rparr>,
      \<lparr>cf_name = ''config-1'', cf_path = ''certs/reg'', cf_files = [(''ca.pem'', ''c'')]\<rparr>]" by code_simp
  moreover have "distinct (map place [(''buildkitd.toml'', ''t''), (''certs/reg/ca.pem'', ''c'')])" by code_simp
  ultimately show ?thesis using splitConfigFiles_places by blast
qed

end
