(* ===== verification/KubeDriver.thy ===== *)
theory KubeDriver
  imports KubeManifest
begin

text \<open>
  The \<open>kubernetes\<close> driver at work: the factory (\<open>driver/kubernetes/factory.go\<close>), the running pods and the
  choice among them (\<open>podchooser/podchooser.go\<close>), starting, state and removal (\<open>driver.go\<close>), and the names
  of generated nodes (\<open>util/generate.go\<close>).  The cluster is a record of functions on a world; time is the
  list of what the ticks of the waiting loop observe.
\<close>

section \<open>Pods\<close>

record Pod =
  pd_Name :: string
  pd_Running :: bool
  pd_Annotations :: "string gomap"

text \<open>\<open>items\<close> are the pods the cluster lists for the selector of the deployment, or the error of the call.\<close>

definition ListRunningPods :: "k8_error + Pod list \<Rightarrow> k8_error + Pod list" where
  "ListRunningPods items = rbind items (\<lambda>ps. Inr (sort_key pd_Name (filter pd_Running ps)))"

definition RandomPodChooser_ChoosePod :: "nat \<Rightarrow> k8_error + Pod list \<Rightarrow> k8_error + Pod" where
  "RandomPodChooser_ChoosePod rnd items =
     rbind (ListRunningPods items) (\<lambda>pods.
     if length pods = 0 then Inl KNoPods else Inr (pods ! (rnd mod length pods)))"

text \<open>The map from names to pods keeps the last pod of a name.  The ring of the hash library is a parameter:
  the node it gives for the names and a key.  A missing entry of the map is a nil pod.\<close>

definition StickyPodChooser_ChoosePod ::
  "(string list \<Rightarrow> string \<Rightarrow> string option) \<Rightarrow> nat \<Rightarrow> string \<Rightarrow> k8_error + Pod list \<Rightarrow> k8_error + Pod option" where
  "StickyPodChooser_ChoosePod GetNode rnd key items =
     rbind (ListRunningPods items) (\<lambda>pods.
       let podNames = map pd_Name pods;
           podMap = mput_all (map (\<lambda>p. (pd_Name p, p)) pods) []
       in case GetNode podNames key of
            None \<Rightarrow> rbind (RandomPodChooser_ChoosePod rnd items) (\<lambda>p. Inr (Some p))
          | Some chosen \<Rightarrow> Inr (mget podMap chosen))"

section \<open>The factory\<close>

text \<open>A client configuration: whether it gives a usable client, and its namespace.\<close>

record kube_client =
  kc_usable :: bool
  kc_Namespace :: "string option"

record kube_env =
  ke_FromEndpoint :: "string \<Rightarrow> kube_client option"
  ke_InCluster :: kube_client
  ke_ParseDuration :: "string \<Rightarrow> int option"
  ke_ParseQuantity :: "string \<Rightarrow> string option"
  ke_NewForConfig :: bool

record kube_driver =
  kd_config :: InitConfig
  kd_client :: kube_client
  kd_minReplicas :: int
  kd_deployment :: Deployment
  kd_configMaps :: "ConfigMap list"
  kd_namespace :: string
  kd_chooser :: "string option"
  kd_defaultLoad :: bool
  kd_timeout :: int

definition kube_Priority :: "string \<Rightarrow> bool \<Rightarrow> int" where
  "kube_Priority endpoint api = (if \<not> api then 80 else 40)"

definition buildxNameToDeploymentName :: "string \<Rightarrow> drv_error + string" where
  "buildxNameToDeploymentName bx =
     rbind (ParseBuilderName bx) (\<lambda>s. Inr (map (\<lambda>c. if c = CHR ''_'' then CHR ''-'' else c) s))"

definition choose_client :: "kube_env \<Rightarrow> string \<Rightarrow> kube_client option" where
  "choose_client env ep =
     (let cc = (case ke_FromEndpoint env ep of None \<Rightarrow> ke_FromEndpoint env ''default'' | Some c \<Rightarrow> Some c);
          tryInCluster = (case cc of None \<Rightarrow> True | Some c \<Rightarrow> \<not> kc_usable c)
      in if tryInCluster \<and> kc_usable (ke_InCluster env) then Some (ke_InCluster env) else cc)"

text \<open>The chooser is \<open>Some key\<close> for the sticky one and \<^term>\<open>None\<close> for the random one.  \<open>order\<close> and \<open>files\<close>
  are the orders in which the options and the files are met.\<close>

definition kube_New ::
  "kube_env \<Rightarrow> (string \<times> string) list \<Rightarrow> (string \<times> bytes) list \<Rightarrow> InitConfig \<Rightarrow> k8_error + kube_driver" where
  "kube_New env order files cfg =
     (case choose_client env (ic_EndpointAddr cfg) of
        None \<Rightarrow> Inl KNoConfig
      | Some cc \<Rightarrow>
          rbind (map_err KDriver (buildxNameToDeploymentName (ic_Name cfg))) (\<lambda>deploymentName.
          rbind (case kc_Namespace cc of None \<Rightarrow> Inl KNamespace | Some ns \<Rightarrow> Inr ns) (\<lambda>namespace.
          if \<not> kc_usable cc then Inl KClient
          else if \<not> ke_NewForConfig env then Inl KClient
          else
            rbind (processDriverOpts (ke_ParseDuration env) order deploymentName namespace cfg) (\<lambda>ko.
            rbind (NewDeployment (ke_ParseQuantity env) files (ko_opt ko)) (\<lambda>(d, cms).
            Inr \<lparr>kd_config = cfg, kd_client = cc, kd_minReplicas = do_Replicas (ko_opt ko), kd_deployment = d,
                 kd_configMaps = cms, kd_namespace = ko_namespace ko,
                 kd_chooser = (if ko_loadbalance ko = LoadbalanceSticky then Some (ic_ContextPathHash cfg) else None),
                 kd_defaultLoad = ko_defaultLoad ko, kd_timeout = ko_timeout ko\<rparr>)))))"

section \<open>State and removal\<close>

record 'w kube_api =
  k_GetDeployment :: "string \<Rightarrow> 'w \<Rightarrow> dk_error + int"
  k_CreateDeployment :: "Deployment \<Rightarrow> 'w \<Rightarrow> dk_error option \<times> 'w"
  k_DeleteDeployment :: "string \<Rightarrow> 'w \<Rightarrow> dk_error option \<times> 'w"
  k_CreateConfigMap :: "ConfigMap \<Rightarrow> 'w \<Rightarrow> dk_error option \<times> 'w"
  k_UpdateConfigMap :: "ConfigMap \<Rightarrow> 'w \<Rightarrow> dk_error option \<times> 'w"
  k_DeleteConfigMap :: "string \<Rightarrow> 'w \<Rightarrow> dk_error option \<times> 'w"

text \<open>The node a pod stands for; platforms that do not parse are left out.\<close>

definition pod_node :: "host \<Rightarrow> Pod \<Rightarrow> node" where
  "pod_node h p =
     (let ps = (case mget (pd_Annotations p) AnnotationPlatform of
            None \<Rightarrow> []
          | Some s \<Rightarrow> (case platforms_Parse h (split_on (CHR '','') s) of Inl _ \<Rightarrow> [] | Inr ps \<Rightarrow> ps))
      in \<lparr>n_Name = pd_Name p, n_Endpoint = [], n_Platforms = ps, n_DriverOpts = None, n_BuildkitdFlags = None,
          n_Files = None\<rparr>)"

definition kube_Info :: "host \<Rightarrow> 'w kube_api \<Rightarrow> k8_error + Pod list \<Rightarrow> kube_driver \<Rightarrow> 'w \<Rightarrow> k8_error + Info" where
  "kube_Info h api items d w =
     (case k_GetDeployment api (dp_Name (kd_deployment d)) w of
        Inl _ \<Rightarrow> Inr \<lparr>i_Status = Inactive, i_DynamicNodes = []\<rparr>
      | Inr ready \<Rightarrow>
          if ready \<le> 0 then Inr \<lparr>i_Status = Stopped, i_DynamicNodes = []\<rparr>
          else rbind (ListRunningPods items) (\<lambda>pods. Inr \<lparr>i_Status = Running, i_DynamicNodes = map (pod_node h) pods\<rparr>))"

fun delete_configs :: "'w kube_api \<Rightarrow> ConfigMap list \<Rightarrow> 'w \<Rightarrow> dk_error option \<times> 'w" where
  "delete_configs api [] w = (None, w)"
| "delete_configs api (c # cs) w =
     (case k_DeleteConfigMap api (cm_Name c) w of
        (Some e, w) \<Rightarrow> if e \<noteq> DkNotFound then (Some e, w) else delete_configs api cs w
      | (None, w) \<Rightarrow> delete_configs api cs w)"

definition kube_Rm :: "'w kube_api \<Rightarrow> kube_driver \<Rightarrow> bool \<Rightarrow> 'w \<Rightarrow> dk_error option \<times> 'w" where
  "kube_Rm api d rmDaemon w =
     (if \<not> rmDaemon then (None, w)
      else case k_DeleteDeployment api (dp_Name (kd_deployment d)) w of
          (Some e, w) \<Rightarrow> if e \<noteq> DkNotFound then (Some e, w) else delete_configs api (kd_configMaps d) w
        | (None, w) \<Rightarrow> delete_configs api (kd_configMaps d) w)"

text \<open>\<open>IsAlreadyExists\<close> is \<open>DkConflict\<close>: the configuration map is then updated.\<close>

fun create_configs :: "'w kube_api \<Rightarrow> ConfigMap list \<Rightarrow> 'w \<Rightarrow> dk_error option \<times> 'w" where
  "create_configs api [] w = (None, w)"
| "create_configs api (c # cs) w =
     (case k_CreateConfigMap api c w of
        (Some e, w) \<Rightarrow>
          if e \<noteq> DkConflict then (Some e, w)
          else (case k_UpdateConfigMap api c w of (Some e, w) \<Rightarrow> (Some e, w) | (None, w) \<Rightarrow> create_configs api cs w)
      | (None, w) \<Rightarrow> create_configs api cs w)"

text \<open>The waiting loop over what happens next: a tick that observes the ready replicas (or an error), the
  timeout, or a cancelled context.  The error of the last tick is returned on a timeout.\<close>

datatype wait_event = Tick "dk_error + int" | Timeout | Done dk_error

fun kube_wait :: "int \<Rightarrow> dk_error option \<Rightarrow> wait_event list \<Rightarrow> dk_error option option" where
  "kube_wait minReplicas err [] = None"
| "kube_wait minReplicas err (Done e # es) = Some (Some e)"
| "kube_wait minReplicas err (Timeout # es) = Some err"
| "kube_wait minReplicas err (Tick (Inl e) # es) = kube_wait minReplicas (Some e) es"
| "kube_wait minReplicas err (Tick (Inr ready) # es) =
     (if sint (word_of_int minReplicas :: 32 word) \<le> ready then Some None
      else kube_wait minReplicas (Some (DkError ''replicas'')) es)"

definition kube_Bootstrap :: "'w kube_api \<Rightarrow> wait_event list \<Rightarrow> kube_driver \<Rightarrow> 'w \<Rightarrow> dk_error option option \<times> 'w" where
  "kube_Bootstrap api events d w =
     (case k_GetDeployment api (dp_Name (kd_deployment d)) w of
        Inr _ \<Rightarrow> (kube_wait (kd_minReplicas d) None events, w)
      | Inl e \<Rightarrow>
          if e \<noteq> DkNotFound then (Some (Some e), w)
          else (case create_configs api (kd_configMaps d) w of
                  (Some e, w) \<Rightarrow> (Some (Some e), w)
                | (None, w) \<Rightarrow>
                    (case k_CreateDeployment api (kd_deployment d) w of
                       (Some e, w) \<Rightarrow> (Some (Some e), w)
                     | (None, w) \<Rightarrow> (kube_wait (kd_minReplicas d) None events, w))))"

section \<open>Generated node names\<close>

definition hex_digit :: "nat \<Rightarrow> char" where
  "hex_digit n = (if n < 10 then digit n else char_of (87 + n))"

definition hex_EncodeToString :: "bytes \<Rightarrow> string" where
  "hex_EncodeToString b = concat (map (\<lambda>c. [hex_digit (of_char c div 16), hex_digit (of_char c mod 16)]) b)"

abbreviation maxNameLength :: nat where "maxNameLength \<equiv> 63"

abbreviation randomLength :: nat where "randomLength \<equiv> 5"

abbreviation maxGeneratedNameLength :: nat where "maxGeneratedNameLength \<equiv> maxNameLength - randomLength"

text \<open>\<open>b\<close> are the 32 random bytes.\<close>

definition randomSuffix :: "bytes \<Rightarrow> string" where
  "randomSuffix b = take randomLength (hex_EncodeToString b)"

definition generateName :: "string \<Rightarrow> bytes \<Rightarrow> string" where
  "generateName base b = take maxGeneratedNameLength base @ randomSuffix b"

text \<open>The randomness of the \<open>i\<close>-th attempt: an identifier (or the error of making one) and random bytes.\<close>

type_synonym randomness = "nat \<Rightarrow> string option \<times> bytes"

definition randomName :: "randomness \<Rightarrow> nat \<Rightarrow> k8_error + string" where
  "randomName rnd i =
     (case rnd i of (None, b) \<Rightarrow> Inl (KApi ''uuid'') | (Some u, b) \<Rightarrow> Inr (generateName (''buildkit-'' @ u @ ''-'') b))"

fun generate_from :: "randomness \<Rightarrow> nodegroup \<Rightarrow> nat \<Rightarrow> nat \<Rightarrow> k8_error + string" where
  "generate_from rnd ng i 0 = Inl KNodeName"
| "generate_from rnd ng i (Suc n) =
     rbind (randomName rnd i) (\<lambda>name.
       if list_ex (\<lambda>m. n_Name m = name) (ng_Nodes ng) then generate_from rnd ng (i + 1) n else Inr name)"

definition GenerateNodeName :: "store_env \<Rightarrow> randomness \<Rightarrow> string \<Rightarrow> fsys \<Rightarrow> k8_error + string" where
  "GenerateNodeName env rnd builderName fs =
     (case NodeGroupByName env fs builderName of
        Inl _ \<Rightarrow> randomName rnd 0
      | Inr ng \<Rightarrow> generate_from rnd ng 0 6)"

section \<open>Lists in any order\<close>

lemma sort_key_mset_eq:
  assumes "mset xs = mset ys" and "inj_on f (set xs)"
  shows "sort_key f xs = sort_key f ys"
proof (rule properties_for_sort_key [symmetric])
  show "mset (sort_key f xs) = mset ys" using assms(1) by simp
  show "sorted (map f (sort_key f xs))" by simp
  fix k
  assume "k \<in> set (sort_key f xs)"
  then have k: "k \<in> set xs" by simp
  have "filter (\<lambda>x. f k = f x) zs = filter ((=) k) zs" if "set zs = set xs" for zs
    using that k assms(2) by (intro filter_cong) (auto dest: inj_onD)
  moreover have "filter ((=) k) zs = replicate (count (mset zs) k) k" for zs
    by (induction zs) (auto simp: replicate_append_same)
  ultimately show "filter (\<lambda>x. f k = f x) (sort_key f xs) = filter (\<lambda>x. f k = f x) ys"
    using assms(1) mset_eq_setD [OF assms(1)] by (metis mset_sort set_sort)
qed

lemma ListRunningPods_order:
  assumes "mset ps = mset qs" and "distinct (map pd_Name (filter pd_Running ps))"
  shows "ListRunningPods (Inr ps) = ListRunningPods (Inr qs)"
proof -
  have "mset (filter pd_Running ps) = mset (filter pd_Running qs)" using assms(1) by simp
  moreover have "inj_on pd_Name (set (filter pd_Running ps))" using assms(2) by (simp only: distinct_map)
  ultimately show ?thesis by (simp add: ListRunningPods_def sort_key_mset_eq)
qed

lemma generate_from_ok:
  "generate_from rnd ng i n = Inr name \<Longrightarrow> (\<exists>j. randomName rnd j = Inr name) \<and> name \<notin> n_Name ` set (ng_Nodes ng)"
  by (induction rnd ng i n rule: generate_from.induct) (auto simp: result_iff list_ex_iff split: if_splits)

lemma randomName_length: "randomName rnd i = Inr name \<Longrightarrow> length name \<le> maxNameLength"
  by (auto simp: randomName_def generateName_def randomSuffix_def split: prod.splits option.splits)

text \<open>A tick that finds an error, or fewer ready replicas than asked for.\<close>

definition too_few :: "int \<Rightarrow> wait_event \<Rightarrow> bool" where
  "too_few minReplicas e =
     (case e of
        Tick (Inl _) \<Rightarrow> True
      | Tick (Inr ready) \<Rightarrow> ready < sint (word_of_int minReplicas :: 32 word)
      | _ \<Rightarrow> False)"

lemma too_few_simps [simp]:
  "too_few m (Tick (Inl e))" "too_few m (Tick (Inr n)) \<longleftrightarrow> n < sint (word_of_int m :: 32 word)"
  "\<not> too_few m Timeout" "\<not> too_few m (Done d)"
  by (simp_all add: too_few_def)

lemma kube_wait_later:
  "kube_wait minReplicas (Some x) es = Some None \<longleftrightarrow>
     (case dropWhile (too_few minReplicas) es of Tick _ # _ \<Rightarrow> True | _ \<Rightarrow> False)"
proof (induction es arbitrary: x)
  case (Cons e es)
  show ?case
  proof (cases e)
    case (Tick r)
    then show ?thesis using Cons.IH by (cases r) auto
  qed simp_all
qed simp

section \<open>Example\<close>

definition demo_pod :: "string \<Rightarrow> bool \<Rightarrow> Pod" where
  "demo_pod name running = \<lparr>pd_Name = name, pd_Running = running, pd_Annotations = []\<rparr>"

definition demo_ring :: "string list \<Rightarrow> string \<Rightarrow> string option" where
  "demo_ring names key = (case names of [] \<Rightarrow> None | n # _ \<Rightarrow> Some n)"

definition demo_rnd :: randomness where
  "demo_rnd i = (Some (replicate 36 (CHR ''a'')), replicate 32 (char_of i))"

section \<open>Properties\<close>

text \<open>C19 (sticky_pod): when the hash ring answers with one of the names it was given and running pods have
  distinct names, the sticky choice is a running pod of the name the ring gives, and does not depend on the
  order in which the cluster lists the pods.\<close>

theorem sticky_pod:
  assumes "mset ps = mset qs" and "distinct (map pd_Name (filter pd_Running ps))"
    and "\<And>names n. GetNode names key = Some n \<Longrightarrow> n \<in> set names"
    and "\<And>names. names \<noteq> [] \<Longrightarrow> GetNode names key \<noteq> None"
  shows "StickyPodChooser_ChoosePod GetNode rnd key (Inr ps) = StickyPodChooser_ChoosePod GetNode rnd key (Inr qs) \<and>
    (if filter pd_Running ps = [] then StickyPodChooser_ChoosePod GetNode rnd key (Inr ps) = Inl KNoPods
     else \<exists>p. StickyPodChooser_ChoosePod GetNode rnd key (Inr ps) = Inr (Some p) \<and> p \<in> set ps \<and> pd_Running p \<and>
       GetNode (map pd_Name (sort_key pd_Name (filter pd_Running ps))) key = Some (pd_Name p))"
proof -
  define pods where "pods = sort_key pd_Name (filter pd_Running ps)"
  have l: "ListRunningPods (Inr ps) = Inr pods" "ListRunningPods (Inr qs) = Inr pods"
    using ListRunningPods_order [OF assms(1,2)] by (simp_all add: pods_def ListRunningPods_def)
  have set: "set pods = set (filter pd_Running ps)" by (simp add: pods_def)
  have dist: "distinct (map fst (map (\<lambda>p. (pd_Name p, p)) pods))"
    using assms(2) by (simp add: pods_def distinct_map comp_def)
  show ?thesis
  proof (cases "pods = []")
    case True
    then have "filter pd_Running ps = []" using set by auto
    moreover have "GetNode [] key = None" using assms(3) [of "[]"] by (cases "GetNode [] key") auto
    ultimately show ?thesis
      using True by (simp add: StickyPodChooser_ChoosePod_def RandomPodChooser_ChoosePod_def l)
  next
    case False
    obtain n where n: "GetNode (map pd_Name pods) key = Some n" using assms(4) [of "map pd_Name pods"] False by auto
    then obtain p where p: "p \<in> set pods" "n = pd_Name p" using assms(3) by fastforce
    have "distinct (map fst (rev (map (\<lambda>p. (pd_Name p, p)) pods)))" using dist by (simp add: rev_map [symmetric])
    then have "map_of (rev (map (\<lambda>p. (pd_Name p, p)) pods)) n = Some p" using p by (simp add: map_of_eq_Some_iff)
    then have "mget (mput_all (map (\<lambda>p. (pd_Name p, p)) pods) []) n = Some p" by (simp add: mget_mput_all)
    then show ?thesis
      using False n p set by (auto simp: StickyPodChooser_ChoosePod_def l filter_empty_conv simp flip: pods_def)
  qed
qed

theorem sticky_pod_witness:
  "StickyPodChooser_ChoosePod demo_ring 0 ''ctx'' (Inr [demo_pod ''b'' True, demo_pod ''a'' True, demo_pod ''c'' False]) =
   StickyPodChooser_ChoosePod demo_ring 0 ''ctx'' (Inr [demo_pod ''a'' True, demo_pod ''c'' False, demo_pod ''b'' True])"
proof -
  have "mset [demo_pod ''b'' True, demo_pod ''a'' True, demo_pod ''c'' False] =
      mset [demo_pod ''a'' True, demo_pod ''c'' False, demo_pod ''b'' True]" by simp
  moreover have "distinct (map pd_Name (filter pd_Running [demo_pod ''b'' True, demo_pod ''a'' True, demo_pod ''c'' False]))"
    by code_simp
  moreover have "n \<in> set names" if "demo_ring names ''ctx'' = Some n" for names n
    using that by (cases names) (simp_all add: demo_ring_def)
  moreover have "demo_ring names ''ctx'' \<noteq> None" if "names \<noteq> []" for names
    using that by (cases names) (simp_all add: demo_ring_def)
  ultimately show ?thesis
    by (rule sticky_pod [THEN conjunct1])
qed

text \<open>A generated node name is at most as long as a Kubernetes name may be, and no
  node of the instance bears it.\<close>

theorem GenerateNodeName_fresh:
  assumes "GenerateNodeName env rnd builder fs = Inr name"
  shows "length name \<le> 63 \<and>
    (\<forall>ng. NodeGroupByName env fs builder = Inr ng \<longrightarrow> name \<notin> n_Name ` set (ng_Nodes ng))"
proof (cases "NodeGroupByName env fs builder")
  case (Inl e)
  then show ?thesis using assms randomName_length by (auto simp: GenerateNodeName_def)
next
  case (Inr ng)
  then have "generate_from rnd ng 0 6 = Inr name" using assms by (simp add: GenerateNodeName_def)
  from generate_from_ok [OF this] randomName_length Inr show ?thesis by auto
qed

theorem GenerateNodeName_fresh_witness:
  "\<exists>name. GenerateNodeName demo_env demo_rnd ''foo'' demo_store = Inr name \<and> length name \<le> 63"
proof -
  have "is_ok (GenerateNodeName demo_env demo_rnd ''foo'' demo_store)" by code_simp
  then show ?thesis using GenerateNodeName_fresh by (auto simp: is_ok_iff)
qed

text \<open>Waiting succeeds exactly when a tick finds enough ready replicas before a timeout
  or a cancellation, or when the timeout comes before any tick at all.\<close>

theorem kube_wait_result:
  "kube_wait minReplicas None es = Some None \<longleftrightarrow>
     (case dropWhile (too_few minReplicas) es of
        Tick _ # _ \<Rightarrow> True
      | Timeout # _ \<Rightarrow> takeWhile (too_few minReplicas) es = []
      | _ \<Rightarrow> False)"
proof (cases es)
  case (Cons e more)
  show ?thesis
  proof (cases e)
    case (Tick r)
    then show ?thesis using Cons kube_wait_later [of minReplicas _ more]
      by (cases r; cases "dropWhile (too_few minReplicas) more") (simp_all del: dropWhile_eq_Nil_conv split: wait_event.splits)
  qed (simp_all add: Cons)
qed simp

end
