(* ===== verification/BuilderNodes.thy ===== *)
theory BuilderNodes
  imports Store DriverBase
begin

text \<open>
  A builder and its nodes (\<open>builder/node.go\<close> and the first half of \<open>builder/builder.go\<close>).  Loading the nodes
  makes a driver for each node of the group and asks it for its state; the nodes are loaded by goroutines
  that write to different elements, so the result is a list, node by node.  What the drivers, the docker
  client and the BuildKit daemons answer is the parameter \<open>load_env\<close>.
\<close>

record worker =
  w_ID :: string
  w_Platforms :: "platform list"
  w_GCPolicy :: "string list"
  w_Labels :: "string gomap"
  w_CDIDevices :: "string list"

text \<open>The answer of the daemon about itself; an old daemon does not implement the call.\<close>

datatype bk_info = BkVersion string | BkUnimplemented | BkError

record 'd load_env =
  le_host :: host
  le_drivers :: "'d Factory list"
  le_ClientAPI :: "string \<Rightarrow> drv_error option"
  le_Ping :: "string \<Rightarrow> drv_error option"
  le_ImageOpt :: "nodegroup \<Rightarrow> drv_error option"
  le_contextPathHash :: string
  le_Info :: "'d \<Rightarrow> drv_error + Info"
  le_Client :: "'d \<Rightarrow> drv_error option"
  le_Workers :: "'d \<Rightarrow> drv_error + worker list"
  le_BkInfo :: "'d \<Rightarrow> bk_info"
  le_Version :: "'d \<Rightarrow> drv_error + string"

record 'd bnode =
  bn_Node :: node
  bn_Builder :: string
  bn_Driver :: "'d option"
  bn_DriverInfo :: "Info option"
  bn_Version :: string
  bn_Err :: "drv_error option"
  bn_IDs :: "string list"
  bn_Platforms :: "platform list"
  bn_GCPolicy :: "string list"
  bn_Labels :: "string gomap"
  bn_CDIDevices :: "string list"

text \<open>The factory of a builder is looked up once: \<^term>\<open>None\<close> before, then its result (nil on an error).\<close>

record 'd Builder =
  b_NodeGroup :: nodegroup
  b_factory :: "'d Factory option option"
  b_nodes :: "'d bnode list"
  b_err :: "drv_error option"

definition new_builder :: "nodegroup \<Rightarrow> 'd Builder" where
  "new_builder ng = \<lparr>b_NodeGroup = ng, b_factory = None, b_nodes = [], b_err = None\<rparr>"

definition zero_node :: node where
  "zero_node = \<lparr>n_Name = [], n_Endpoint = [], n_Platforms = [], n_DriverOpts = None, n_BuildkitdFlags = None, n_Files = None\<rparr>"

definition start_node :: "node \<Rightarrow> string \<Rightarrow> 'd bnode" where
  "start_node n builder =
     \<lparr>bn_Node = n, bn_Builder = builder, bn_Driver = None, bn_DriverInfo = None, bn_Version = [],
      bn_Err = None, bn_IDs = [], bn_Platforms = n_Platforms n, bn_GCPolicy = [], bn_Labels = [],
      bn_CDIDevices = []\<rparr>"

section \<open>The factory of a builder\<close>

definition choose_factory :: "'d load_env \<Rightarrow> nodegroup \<Rightarrow> drv_error + 'd Factory" where
  "choose_factory le ng =
     (if ng_Driver ng \<noteq> [] then GetFactory (le_drivers le) (ng_Driver ng) True
      else
        case ng_Nodes ng of
          [] \<Rightarrow> Inl DrPanicIndex
        | n # _ \<Rightarrow>
            (case le_ClientAPI le (n_Endpoint n) of
               Some e \<Rightarrow> Inl e
             | None \<Rightarrow>
                 (case le_Ping le (n_Endpoint n) of
                    Some e \<Rightarrow> Inl e
                  | None \<Rightarrow> GetDefaultFactory (le_drivers le) (n_Endpoint n) True False)))"

text \<open>A second call returns what the first one stored, without its error.\<close>

definition builder_Factory :: "'d load_env \<Rightarrow> 'd Builder \<Rightarrow> 'd Builder \<times> (drv_error + 'd Factory option)" where
  "builder_Factory le b =
     (case b_factory b of
        Some f \<Rightarrow> (b, Inr f)
      | None \<Rightarrow>
          (case choose_factory le (b_NodeGroup b) of
             Inl e \<Rightarrow> (b\<lparr>b_factory := Some None\<rparr>, Inl e)
           | Inr f \<Rightarrow>
               (b\<lparr>b_factory := Some (Some f),
                  b_NodeGroup := (if ng_Driver (b_NodeGroup b) \<noteq> [] then b_NodeGroup b
                                  else (b_NodeGroup b)\<lparr>ng_Driver := f_Name f\<rparr>)\<rparr>,
                Inr (Some f))))"

section \<open>Loading\<close>

definition add_worker :: "'d bnode \<Rightarrow> nat \<times> worker \<Rightarrow> 'd bnode" where
  "add_worker n = (\<lambda>(idx, w).
     let n = n\<lparr>bn_IDs := bn_IDs n @ [w_ID w], bn_Platforms := bn_Platforms n @ w_Platforms w\<rparr>;
         n = (if idx = 0 then n\<lparr>bn_GCPolicy := w_GCPolicy w, bn_Labels := w_Labels w\<rparr> else n)
     in n\<lparr>bn_CDIDevices := w_CDIDevices w\<rparr>)"

text \<open>The node after the call and its error; the fields set before an error stay.\<close>

definition loadData :: "'d load_env \<Rightarrow> 'd bnode \<Rightarrow> 'd bnode \<times> drv_error option" where
  "loadData le n =
     (case bn_Driver n of
        None \<Rightarrow> (n, None)
      | Some d \<Rightarrow>
          (case le_Info le d of
             Inl e \<Rightarrow> (n, Some e)
           | Inr info \<Rightarrow>
               (let n = n\<lparr>bn_DriverInfo := Some info\<rparr>
                in if i_Status info \<noteq> Running then (n, None)
                   else case le_Client le d of
                     Some e \<Rightarrow> (n, Some e)
                   | None \<Rightarrow>
                       (case le_Workers le d of
                          Inl e \<Rightarrow> (n, Some e)
                        | Inr ws \<Rightarrow>
                            (let n = foldl add_worker n (enumerate 0 ws);
                                 n = n\<lparr>bn_IDs := sort (bn_IDs n), bn_Platforms := Dedupe (le_host le) (bn_Platforms n)\<rparr>
                             in case le_BkInfo le d of
                                  BkVersion v \<Rightarrow> (n\<lparr>bn_Version := v\<rparr>, None)
                                | BkError \<Rightarrow> (n, None)
                                | BkUnimplemented \<Rightarrow>
                                    (case le_Version le d of
                                       Inl e \<Rightarrow> (n\<lparr>bn_Version := []\<rparr>, Some e)
                                     | Inr v \<Rightarrow> (n\<lparr>bn_Version := v\<rparr>, None)))))))"

text \<open>The client made for the endpoint of the node is there, so the interface that holds it is never nil.\<close>

definition init_config :: "'d load_env \<Rightarrow> node \<Rightarrow> InitConfig" where
  "init_config le n =
     \<lparr>ic_Name = BuilderName (n_Name n), ic_EndpointAddr = n_Endpoint n, ic_DockerAPI = True,
      ic_BuildkitdFlags = n_BuildkitdFlags n, ic_Files = n_Files n, ic_DriverOpts = n_DriverOpts n,
      ic_Platforms = n_Platforms n, ic_ContextPathHash = le_contextPathHash le\<rparr>"

definition load_node :: "'d load_env \<Rightarrow> bool \<Rightarrow> string \<Rightarrow> 'd Factory option \<Rightarrow> node \<Rightarrow> 'd bnode" where
  "load_node le data builder factory n =
     (let node = start_node n builder
      in case le_ClientAPI le (n_Endpoint n) of
           Some e \<Rightarrow> node\<lparr>bn_Err := Some e\<rparr>
         | None \<Rightarrow>
             (case GetDriver (le_drivers le) factory (init_config le n) of
                Inl e \<Rightarrow> node\<lparr>bn_Err := Some e\<rparr>
              | Inr d \<Rightarrow>
                  (let node = node\<lparr>bn_Driver := Some d\<rparr>
                   in if \<not> data then node
                      else case loadData le node of
                        (node, Some e) \<Rightarrow> node\<lparr>bn_Err := Some e\<rparr>
                      | (node, None) \<Rightarrow> node)))"

definition dynamic_nodes :: "'d bnode \<Rightarrow> node list" where
  "dynamic_nodes d = (case bn_DriverInfo d of None \<Rightarrow> [] | Some i \<Rightarrow> i_DynamicNodes i)"

definition expand_node :: "'d bnode \<Rightarrow> 'd bnode list" where
  "expand_node di =
     map (\<lambda>dyn. if n_Platforms dyn \<noteq> [] then di\<lparr>bn_Platforms := n_Platforms dyn\<rparr> else di) (dynamic_nodes di)"

definition replace_dynamic :: "'d Builder \<Rightarrow> 'd Builder" where
  "replace_dynamic b =
     (let kubernetesDriverCount = length (filter (\<lambda>d. dynamic_nodes d \<noteq> []) (b_nodes b))
      in if length (b_nodes b) = kubernetesDriverCount
         then b\<lparr>b_NodeGroup := (b_NodeGroup b)\<lparr>ng_Nodes := concat (map dynamic_nodes (b_nodes b)), ng_Dynamic := True\<rparr>,
                b_nodes := concat (map expand_node (b_nodes b))\<rparr>
         else b)"

definition LoadNodes :: "'d load_env \<Rightarrow> bool \<Rightarrow> 'd Builder \<Rightarrow> 'd Builder \<times> (drv_error + 'd bnode list)" where
  "LoadNodes le data b =
     (let fail = (\<lambda>b e. (b\<lparr>b_nodes := replicate (length (ng_Nodes (b_NodeGroup b))) (start_node zero_node []),
                           b_err := (case b_err b of None \<Rightarrow> Some e | Some e' \<Rightarrow> Some e')\<rparr>, Inl e))
      in case builder_Factory le b of
           (b, Inl e) \<Rightarrow> fail b e
         | (b, Inr factory) \<Rightarrow>
             (case le_ImageOpt le (b_NodeGroup b) of
                Some e \<Rightarrow> fail b e
              | None \<Rightarrow>
                  (let b = b\<lparr>b_nodes := map (load_node le data (ng_Name (b_NodeGroup b)) factory) (ng_Nodes (b_NodeGroup b))\<rparr>;
                       b = (if data then replace_dynamic b else b)
                   in (b, Inr (b_nodes b)))))"

section \<open>Nodes and their groups\<close>

lemma foldl_add_worker_keeps:
  "bn_Node (foldl add_worker n ws) = bn_Node n \<and> bn_Builder (foldl add_worker n ws) = bn_Builder n \<and>
   bn_Err (foldl add_worker n ws) = bn_Err n"
  by (induction ws arbitrary: n) (auto simp: add_worker_def Let_def split: prod.splits)

lemma loadData_keeps:
  "bn_Node (fst (loadData le n)) = bn_Node n \<and> bn_Builder (fst (loadData le n)) = bn_Builder n"
proof -
  have "bn_Node (foldl add_worker m ws) = bn_Node m" "bn_Builder (foldl add_worker m ws) = bn_Builder m" for m :: "'a bnode" and ws
    using foldl_add_worker_keeps by blast+
  then show ?thesis
    by (simp add: loadData_def Let_def split: option.split sum.split bk_info.split)
qed

lemma load_node_keeps: "bn_Node (load_node le data builder f n) = n \<and> bn_Builder (load_node le data builder f n) = builder"
proof -
  have "bn_Node m = bn_Node (start_node n builder\<lparr>bn_Driver := d\<rparr>) \<and> bn_Builder m = builder"
    if "loadData le (start_node n builder\<lparr>bn_Driver := d\<rparr>) = (m, e)" for m e d
    using loadData_keeps [of le "start_node n builder\<lparr>bn_Driver := d\<rparr>"] that by (simp add: start_node_def)
  then show ?thesis
    by (auto simp: load_node_def Let_def start_node_def split: option.split sum.split prod.split)
qed

lemma replace_dynamic_length:
  "length (b_nodes b) = length (ng_Nodes (b_NodeGroup b)) \<Longrightarrow>
   length (b_nodes (replace_dynamic b)) = length (ng_Nodes (b_NodeGroup (replace_dynamic b)))"
  by (simp add: replace_dynamic_def Let_def length_concat comp_def expand_node_def)

text \<open>A second call after a failed lookup of the factory reports success without a factory.\<close>

lemma builder_Factory_forgets:
  assumes "builder_Factory le b = (b', Inl e)"
  shows "builder_Factory le b' = (b', Inr None)"
  using assms by (auto simp: builder_Factory_def split: option.splits sum.splits)

section \<open>Properties\<close>

text \<open>C10 (LoadNodes_aligned): however loading ends, a builder has as many loaded nodes as its group has
  nodes, so that an index into one is an index into the other; after a success the group either is the one
  before, each loaded node standing for the node of the same index, or it is marked as dynamic and consists
  of the nodes the drivers report.\<close>

theorem LoadNodes_aligned:
  assumes "LoadNodes le data b = (b', r)"
  shows "length (b_nodes b') = length (ng_Nodes (b_NodeGroup b')) \<and>
    (is_ok r \<longrightarrow>
       ng_Nodes (b_NodeGroup b') = ng_Nodes (b_NodeGroup b) \<and> map bn_Node (b_nodes b') = ng_Nodes (b_NodeGroup b) \<or>
       data \<and> ng_Dynamic (b_NodeGroup b'))"
proof -
  obtain b1 f where f: "builder_Factory le b = (b1, f)" by fastforce
  have ng: "ng_Nodes (b_NodeGroup b1) = ng_Nodes (b_NodeGroup b)"
    using f by (auto simp: builder_Factory_def split: option.splits sum.splits)
  show ?thesis
  proof (cases f)
    case (Inl e)
    then show ?thesis using assms f by (auto simp: LoadNodes_def Let_def)
  next
    case (Inr factory)
    show ?thesis
    proof (cases "le_ImageOpt le (b_NodeGroup b1)")
      case (Some e)
      then show ?thesis using assms f Inr by (auto simp: LoadNodes_def Let_def)
    next
      case None
      define b2 where "b2 = b1\<lparr>b_nodes := map (load_node le data (ng_Name (b_NodeGroup b1)) factory) (ng_Nodes (b_NodeGroup b1))\<rparr>"
      have b': "b' = (if data then replace_dynamic b2 else b2)" "r = Inr (b_nodes b')"
        using assms f Inr None by (auto simp: LoadNodes_def Let_def b2_def)
      have len: "length (b_nodes b2) = length (ng_Nodes (b_NodeGroup b2))" by (simp add: b2_def)
      have nodes: "map bn_Node (b_nodes b2) = ng_Nodes (b_NodeGroup b)"
        by (simp add: b2_def ng comp_def load_node_keeps)
      have "replace_dynamic b2 = b2 \<or> ng_Dynamic (b_NodeGroup (replace_dynamic b2))"
        by (simp add: replace_dynamic_def Let_def)
      then show ?thesis
        using b' len nodes replace_dynamic_length [OF len] ng by (auto simp: b2_def)
    qed
  qed
qed

section \<open>Example builder\<close>

definition demo_load_env :: "string load_env" where
  "demo_load_env =
     \<lparr>le_host = demo_host, le_drivers = [demo_factory ''docker-container'' 30 True], le_ClientAPI = (\<lambda>_. None),
      le_Ping = (\<lambda>_. None), le_ImageOpt = (\<lambda>_. None), le_contextPathHash = [],
      le_Info = (\<lambda>_. Inr \<lparr>i_Status = Inactive, i_DynamicNodes = []\<rparr>), le_Client = (\<lambda>_. None),
      le_Workers = (\<lambda>_. Inr []), le_BkInfo = (\<lambda>_. BkVersion ''v0''), le_Version = (\<lambda>_. Inr ''v0'')\<rparr>"

theorem LoadNodes_aligned_witness:
  "length (b_nodes (fst (LoadNodes demo_load_env True (new_builder (demo_ng\<lparr>ng_Driver := ''docker-container''\<rparr>))))) = 2 \<and>
   length (ng_Nodes (b_NodeGroup (fst (LoadNodes demo_load_env True (new_builder (demo_ng\<lparr>ng_Driver := ''docker-container''\<rparr>)))))) = 2"
proof -
  have "length (b_nodes (fst (LoadNodes demo_load_env True (new_builder (demo_ng\<lparr>ng_Driver := ''docker-container''\<rparr>))))) = 2"
    by code_simp
  then show ?thesis
    using LoadNodes_aligned [of demo_load_env True "new_builder (demo_ng\<lparr>ng_Driver := ''docker-container''\<rparr>)"]
    by (metis prod.collapse)
qed

end
