(* ===== verification/Builder.thy ===== *)
theory Builder
  imports BuilderNodes KubeDriver Csv
begin

text \<open>
  Creating, leaving, listing and booting builders (\<open>builder/builder.go\<close>), composed from the store, the local
  state, the instance model and the registry of drivers, with the docker contexts of
  \<open>util/dockerutil/context.go\<close>.  An operation runs inside a transaction of the store: it takes the
  directory and returns the directory after the call.  \<open>Create\<close> returns it with an error too, so that what a
  failed call leaves behind is part of the model.  The environment, the docker command line, the splitting of shell words, the
  flag parser and the TOML files are parameters in \<open>builder_env\<close>.
\<close>

datatype b_error =
    BReserved
  | BAppendName
  | BContextName string
  | BAppendMissing string
  | BNoAppend string
  | BMismatch string string
  | BStore store_error
  | BContexts
  | BDriver drv_error
  | BCsv csv_error
  | BKeyValue string
  | BShlex
  | BConfig string
  | BPanicType
  | BK8sEndpoint string
  | BK8s k8_error
  | BNoRemote
  | BParseHost string
  | BTLS
  | BCurrentEndpoint string
  | BUpdate ng_error
  | BLoad drv_error
  | BInit string string drv_error
  | BRollback store_error
  | BLeaveName
  | BLeaveNode
  | BLeaveMissing string
  | BLeave ng_error
  | BLocal ls_error
  | BSwitchContext string

section \<open>Docker contexts\<close>

text \<open>The contexts of the command line: their names and the host of their docker endpoint, \<^term>\<open>None\<close> when
  it cannot be read.  The outer \<^term>\<open>None\<close> is the error of listing them.\<close>

record docker_cli =
  dc_Contexts :: "(string \<times> string option) list option"
  dc_CurrentContext :: string
  dc_TLSData :: bool
  dc_ParseHost :: "string \<Rightarrow> string option"

definition GetDockerEndpoint :: "docker_cli \<Rightarrow> string \<Rightarrow> unit + string option" where
  "GetDockerEndpoint cli name =
     (case dc_Contexts cli of
        None \<Rightarrow> Inl ()
      | Some l \<Rightarrow>
          (case map_of l name of
             None \<Rightarrow> Inr None
           | Some None \<Rightarrow> Inl ()
           | Some (Some host) \<Rightarrow> Inr (Some host)))"

definition GetCurrentEndpoint :: "docker_cli \<Rightarrow> b_error + string" where
  "GetCurrentEndpoint cli =
     (let name = dc_CurrentContext cli
      in if name \<noteq> ''default'' then Inr name
         else case GetDockerEndpoint cli name of
             Inl _ \<Rightarrow> Inl (BCurrentEndpoint name)
           | Inr (Some host) \<Rightarrow> Inr host
           | Inr None \<Rightarrow> Inr [])"

definition context_names :: "docker_cli \<Rightarrow> b_error + string list" where
  "context_names cli = (case dc_Contexts cli of None \<Rightarrow> Inl BContexts | Some l \<Rightarrow> Inr (map fst l))"

definition store_contexts :: "docker_cli \<Rightarrow> store_error + string list" where
  "store_contexts cli = (case context_names cli of Inl _ \<Rightarrow> Inl StContexts | Inr cs \<Rightarrow> Inr cs)"

definition validateEndpoint :: "docker_cli \<Rightarrow> string \<Rightarrow> b_error + string" where
  "validateEndpoint cli ep =
     (case GetDockerEndpoint cli ep of
        Inr (Some host) \<Rightarrow> Inr (if ep = ''default'' then host else ep)
      | _ \<Rightarrow> (case dc_ParseHost cli ep of None \<Rightarrow> Inl (BParseHost ep) | Some h \<Rightarrow> Inr h))"

definition validateBuildkitEndpoint :: "(string \<Rightarrow> bool) \<Rightarrow> string \<Rightarrow> b_error + string" where
  "validateBuildkitEndpoint rest_ok ep =
     (case IsValidEndpoint rest_ok ep of Some e \<Rightarrow> Inl (BDriver e) | None \<Rightarrow> Inr ep)"

section \<open>Options\<close>

definition csv_pair :: "string \<Rightarrow> string gomap \<Rightarrow> b_error + string gomap" where
  "csv_pair v m = (case cut (CHR ''='') v of None \<Rightarrow> Inl (BKeyValue v) | Some (k, w) \<Rightarrow> Inr (mset_key k w m))"

definition csv_item :: "string \<Rightarrow> string gomap \<Rightarrow> b_error + string gomap" where
  "csv_item s m = rbind (map_err BCsv (csv_fields s)) (\<lambda>fields. rfold csv_pair fields m)"

definition csvToMap :: "string list \<Rightarrow> b_error + string gomap option" where
  "csvToMap ss = (if ss = [] then Inr None else rbind (rfold csv_item ss []) (\<lambda>m. Inr (Some m)))"

text \<open>What the TOML tree of a configuration file says under \<open>insecure-entitlements\<close>.\<close>

datatype conf_array = ConfNone | ConfStrings "string list" | ConfOther

record 'd builder_env =
  be_store :: store_env
  be_now :: string
  be_dir :: string
  be_cli :: docker_cli
  be_load :: "'d load_env"
  be_genName :: "nat \<Rightarrow> string"
  be_rnd :: randomness
  be_BUILDKIT_HOST :: string
  be_KUBECONFIG :: string
  be_urlRest :: "string \<Rightarrow> bool"
  be_Split :: "string \<Rightarrow> string list option"
  be_parseFlags :: "string list \<Rightarrow> string list"
  be_LoadConfigTree :: "string \<Rightarrow> string + conf_array"
  be_LoadConfigFiles :: "string \<Rightarrow> string + bytes gomap"

definition hasNetworkHostInConf :: "'d builder_env \<Rightarrow> string \<Rightarrow> b_error + bool" where
  "hasNetworkHostInConf env file =
     (if file = [] then Inr False
      else case be_LoadConfigTree env file of
          Inl e \<Rightarrow> Inl (BConfig e)
        | Inr ConfNone \<Rightarrow> Inr False
        | Inr (ConfStrings es) \<Rightarrow> Inr (''network.host'' \<in> set es)
        | Inr ConfOther \<Rightarrow> Inl BPanicType)"

definition parseBuildkitdFlags ::
  "'d builder_env \<Rightarrow> string \<Rightarrow> string \<Rightarrow> string gomap option \<Rightarrow> string \<Rightarrow> b_error + string list option" where
  "parseBuildkitdFlags env inp drv dopts file =
     rbind (if inp = [] then Inr None
            else case be_Split env inp of None \<Rightarrow> Inl BShlex | Some ws \<Rightarrow> Inr (Some ws)) (\<lambda>res.
       let flags = (case res of None \<Rightarrow> [] | Some ws \<Rightarrow> ws);
           allow = be_parseFlags env flags;
           hasHost = (''network.host'' \<in> set allow);
           add = Some (flags @ [''--allow-insecure-entitlement=network.host''])
       in rbind (hasNetworkHostInConf env file) (\<lambda>inConf.
          Inr (if mget (go_range dopts) ''network'' = Some ''host'' \<and> \<not> hasHost \<and> drv = ''docker-container'' then add
               else if allow = [] \<and> \<not> inConf \<and> (drv = ''kubernetes'' \<or> drv = ''docker-container'') then add
               else res)))"

text \<open>\<open>url.QueryEscape\<close>, and the URL the code builds: the path of a name needs no escaping, since a name
  that reaches this point matches the name pattern.\<close>

definition query_char :: "char \<Rightarrow> string" where
  "query_char c =
     (if is_letter c \<or> is_digit c \<or> c \<in> set ''-_.~'' then [c]
      else if c = CHR '' '' then ''+''
      else let n = of_char c; hex = (\<lambda>d. if d < 10 then digit d else char_of (55 + d))
           in [CHR ''%'', hex (n div 16), hex (n mod 16)])"

definition QueryEscape :: "string \<Rightarrow> string" where
  "QueryEscape s = concat (map query_char s)"

definition k8s_endpoint :: "string \<Rightarrow> string \<Rightarrow> string \<Rightarrow> string" where
  "k8s_endpoint name nodeName kubeconfig =
     ''kubernetes:///'' @ name @ ''?deployment='' @ QueryEscape nodeName @ ''&kubeconfig='' @ QueryEscape kubeconfig"

section \<open>Create\<close>

record CreateOpts =
  co_Name :: string
  co_Driver :: string
  co_NodeName :: string
  co_Platforms :: "string list"
  co_BuildkitdFlags :: string
  co_BuildkitdConfigFile :: string
  co_DriverOpts :: "string list"
  co_Use :: bool
  co_Endpoint :: string
  co_Append :: bool

definition create_name :: "'d builder_env \<Rightarrow> fsys \<Rightarrow> CreateOpts \<Rightarrow> b_error + string" where
  "create_name env fs opts =
     (if co_Name opts = ''default'' then Inl BReserved
      else if co_Append opts \<and> co_Name opts = [] then Inl BAppendName
      else
        rbind (if co_Name opts = [] then map_err BStore (GenerateName (be_store env) fs (be_genName env)) else Inr (co_Name opts)) (\<lambda>name.
        if co_Append opts then Inr name
        else rbind (context_names (be_cli env)) (\<lambda>cs. if name \<in> set cs then Inl (BContextName name) else Inr name)))"

text \<open>The group of the name, \<^term>\<open>None\<close> when it is not in the store.\<close>

definition create_group :: "'d builder_env \<Rightarrow> fsys \<Rightarrow> CreateOpts \<Rightarrow> string \<Rightarrow> b_error + nodegroup option" where
  "create_group env fs opts name =
     (case NodeGroupByName (be_store env) fs name of
        Inr ng \<Rightarrow> Inr (Some ng)
      | Inl e \<Rightarrow>
          if e = StFs ENotExist then
            (if co_Append opts \<and> co_Name opts \<noteq> [] then Inl (BAppendMissing (co_Name opts)) else Inr None)
          else Inl (BStore e))"

definition create_driver :: "'d builder_env \<Rightarrow> CreateOpts \<Rightarrow> nodegroup option \<Rightarrow> b_error + string" where
  "create_driver env opts ng =
     (if co_Driver opts \<noteq> [] then Inr (co_Driver opts)
      else case ng of
          Some g \<Rightarrow> Inr (ng_Driver g)
        | None \<Rightarrow>
            if co_Endpoint opts = [] \<and> be_BUILDKIT_HOST env \<noteq> [] then Inr ''remote''
            else rbind (map_err BDriver (GetDefaultFactory (le_drivers (be_load env)) (co_Endpoint opts) True True)) (\<lambda>f. Inr (f_Name f)))"

definition BuildKitConfigFile :: "'d builder_env \<Rightarrow> fsys \<Rightarrow> string option" where
  "BuildKitConfigFile env fs =
     (if mget fs [''buildkitd.default.toml''] \<noteq> None then Some (path_join [be_dir env, ''buildkitd.default.toml'']) else None)"

text \<open>The endpoint of the node and whether it was set by the user.\<close>

definition create_endpoint :: "'d builder_env \<Rightarrow> fsys \<Rightarrow> CreateOpts \<Rightarrow> string \<Rightarrow> string \<Rightarrow> b_error + (string \<times> bool)" where
  "create_endpoint env fs opts name drv =
     (if drv = ''kubernetes'' then
        (if co_Endpoint opts \<noteq> [] then Inl (BK8sEndpoint (co_Endpoint opts))
         else rbind (if co_NodeName opts = [] then map_err BK8s (GenerateNodeName (be_store env) (be_rnd env) name fs)
                     else Inr (co_NodeName opts)) (\<lambda>nodeName.
              Inr (k8s_endpoint name nodeName (be_KUBECONFIG env), False)))
      else if drv = ''remote'' then
        rbind (if co_Endpoint opts \<noteq> [] then Inr (co_Endpoint opts)
               else if be_BUILDKIT_HOST env \<noteq> [] then Inr (be_BUILDKIT_HOST env) else Inl BNoRemote) (\<lambda>ep.
        rbind (validateBuildkitEndpoint (be_urlRest env) ep) (\<lambda>ep. Inr (ep, True)))
      else if co_Endpoint opts \<noteq> [] then
        rbind (validateEndpoint (be_cli env) (co_Endpoint opts)) (\<lambda>ep. Inr (ep, True))
      else if dc_CurrentContext (be_cli env) = ''default'' \<and> dc_TLSData (be_cli env) then Inl BTLS
      else rbind (GetCurrentEndpoint (be_cli env)) (\<lambda>ep. Inr (ep, False)))"

definition create_check :: "CreateOpts \<Rightarrow> string \<Rightarrow> string \<Rightarrow> nodegroup option \<Rightarrow> b_error + unit" where
  "create_check opts name drv found =
     (case found of
        None \<Rightarrow> Inr ()
      | Some g \<Rightarrow>
          if co_NodeName opts = [] \<and> \<not> co_Append opts then Inl (BNoAppend name)
          else if drv \<noteq> ng_Driver g then Inl (BMismatch name (ng_Driver g)) else Inr ())"

definition create_base :: "string \<Rightarrow> string \<Rightarrow> nodegroup option \<Rightarrow> nodegroup" where
  "create_base name drv found =
     (case found of
        Some g \<Rightarrow> g
      | None \<Rightarrow> \<lparr>ng_Name = name, ng_Driver = drv, ng_Nodes = [], ng_Dynamic = False, ng_DockerContext = False,
                 ng_LastActivity = None\<rparr>)"

definition create_config :: "'d builder_env \<Rightarrow> fsys \<Rightarrow> CreateOpts \<Rightarrow> string" where
  "create_config env fs opts =
     (if co_BuildkitdConfigFile opts = [] then (case BuildKitConfigFile env fs of None \<Rightarrow> [] | Some f \<Rightarrow> f)
      else co_BuildkitdConfigFile opts)"

definition create_update ::
  "'d builder_env \<Rightarrow> CreateOpts \<Rightarrow> nodegroup \<Rightarrow> string \<Rightarrow> bool \<Rightarrow> string list option \<Rightarrow> string \<Rightarrow> string gomap option \<Rightarrow>
   b_error + nodegroup" where
  "create_update env opts ng ep setEp flags cfg dopts =
     (case Update (le_host (be_load env)) (be_LoadConfigFiles env) ng (co_NodeName opts) ep (co_Platforms opts) setEp
             (co_Append opts) flags cfg dopts of
        (_, Some e) \<Rightarrow> Inl (BUpdate e)
      | (ng', None) \<Rightarrow> Inr ng')"

text \<open>Everything up to the first write: the group as it was (its copy is what a rollback saves), the updated
  group, and the endpoint.\<close>

definition create_prepare ::
  "'d builder_env \<Rightarrow> fsys \<Rightarrow> CreateOpts \<Rightarrow> b_error + (nodegroup option \<times> nodegroup \<times> string)" where
  "create_prepare env fs opts =
     rbind (create_name env fs opts) (\<lambda>name.
     rbind (create_group env fs opts name) (\<lambda>found.
     rbind (create_driver env opts found) (\<lambda>drv.
     rbind (create_check opts name drv found) (\<lambda>_.
     rbind (map_err BDriver (GetFactory (le_drivers (be_load env)) drv True)) (\<lambda>_.
     rbind (csvToMap (co_DriverOpts opts)) (\<lambda>dopts.
     rbind (parseBuildkitdFlags env (co_BuildkitdFlags opts) drv dopts (create_config env fs opts)) (\<lambda>flags.
     rbind (create_endpoint env fs opts name drv) (\<lambda>(ep, setEp).
     rbind (create_update env opts (create_base name drv found) ep setEp flags (create_config env fs opts) dopts) (\<lambda>ng.
     Inr (map_option nodegroup_Copy found, ng, ep))))))))))"

definition create_rollback :: "'d builder_env \<Rightarrow> nodegroup option \<Rightarrow> string \<Rightarrow> fsys \<Rightarrow> store_error + fsys" where
  "create_rollback env orig name fs =
     (case orig of None \<Rightarrow> Remove (be_dir env) fs name | Some g \<Rightarrow> Save (be_now env) fs g)"

definition create_use :: "'d builder_env \<Rightarrow> CreateOpts \<Rightarrow> string \<Rightarrow> string \<Rightarrow> fsys \<Rightarrow> b_error + fsys" where
  "create_use env opts name ep fs =
     (if co_Use opts \<and> ep \<noteq> []
      then rbind (GetCurrentEndpoint (be_cli env)) (\<lambda>current.
             map_err BStore (SetCurrent (be_store env) fs current name False False))
      else Inr fs)"

text \<open>A write of the store that fails is taken to change nothing.\<close>

definition create_commit ::
  "'d builder_env \<Rightarrow> CreateOpts \<Rightarrow> nodegroup option \<Rightarrow> nodegroup \<Rightarrow> string \<Rightarrow> fsys \<Rightarrow> fsys \<times> (b_error + 'd Builder)" where
  "create_commit env opts orig ng ep fs =
     (case Save (be_now env) fs ng of
        Inl e \<Rightarrow> (fs, Inl (BStore e))
      | Inr fs \<Rightarrow>
          (case GetNodeGroup (be_store env) fs (store_contexts (be_cli env)) (ng_Name ng) of
             Inl e \<Rightarrow> (fs, Inl (BStore e))
           | Inr g \<Rightarrow>
               (case LoadNodes (be_load env) True (new_builder g) of
                  (b, Inl e) \<Rightarrow> (fs, Inl (BLoad e))
                | (b, Inr nodes) \<Rightarrow>
                    (case find (\<lambda>n. bn_Err n \<noteq> None) nodes of
                       Some n \<Rightarrow>
                         (case create_rollback env orig (ng_Name ng) fs of
                            Inl e2 \<Rightarrow> (fs, Inl (BRollback e2))
                          | Inr fs \<Rightarrow> (fs, Inl (BInit (ng_Name ng) (n_Name (bn_Node n)) (the (bn_Err n)))))
                     | None \<Rightarrow>
                         (case create_use env opts (ng_Name ng) ep fs of
                            Inl e \<Rightarrow> (fs, Inl e)
                          | Inr fs \<Rightarrow> (fs, Inr b))))))"

definition Create :: "'d builder_env \<Rightarrow> fsys \<Rightarrow> CreateOpts \<Rightarrow> fsys \<times> (b_error + 'd Builder)" where
  "Create env fs opts =
     (case create_prepare env fs opts of
        Inl e \<Rightarrow> (fs, Inl e)
      | Inr (orig, ng, ep) \<Rightarrow> create_commit env opts orig ng ep fs)"

section \<open>Leave\<close>

definition builder_Leave :: "'d builder_env \<Rightarrow> fsys \<Rightarrow> string \<Rightarrow> string \<Rightarrow> b_error + fsys" where
  "builder_Leave env fs name nodeName =
     (if name = [] then Inl BLeaveName
      else if nodeName = [] then Inl BLeaveNode
      else
        case NodeGroupByName (be_store env) fs name of
          Inl e \<Rightarrow> if e = StFs ENotExist then Inl (BLeaveMissing name) else Inl (BStore e)
        | Inr ng \<Rightarrow>
            (case Leave ng nodeName of
               (_, Some e) \<Rightarrow> Inl (BLeave e)
             | (ng, None) \<Rightarrow>
                 rbind (map_err BLocal (ls_New fs (be_dir env))) (\<lambda>fs.
                 rbind (map_err BLocal (RemoveBuilderNode fs (ng_Name ng) nodeName)) (\<lambda>fs.
                 map_err BStore (Save (be_now env) fs ng)))))"

section \<open>Builders\<close>

definition builder_Validate :: "docker_cli \<Rightarrow> nodegroup \<Rightarrow> b_error option" where
  "builder_Validate cli ng =
     (if \<not> ng_DockerContext ng then None
      else case context_names cli of
          Inl e \<Rightarrow> Some e
        | Inr cs \<Rightarrow> if ng_Name ng \<in> set cs \<and> ng_Name ng \<noteq> dc_CurrentContext cli then Some (BSwitchContext (ng_Name ng)) else None)"

text \<open>\<open>New\<close> inside a transaction; an empty name stands for the current instance.\<close>

definition builder_New :: "store_env \<Rightarrow> docker_cli \<Rightarrow> fsys \<Rightarrow> string \<Rightarrow> bool \<Rightarrow> b_error + ('d Builder \<times> fsys)" where
  "builder_New env cli fs name validate =
     rbind (if name \<noteq> [] then map_err BStore (rbind (GetNodeGroup env fs (store_contexts cli) name) (\<lambda>g. Inr (g, fs)))
            else rbind (GetCurrentEndpoint cli) (\<lambda>ep.
                 map_err BStore (GetCurrentInstance env fs (store_contexts cli) (Inr ep) (dc_CurrentContext cli)))) (\<lambda>(g, fs).
     case (if validate then builder_Validate cli g else None) of
       Some e \<Rightarrow> Inl e
     | None \<Rightarrow> Inr (new_builder g, fs))"

definition ContextName :: "docker_cli \<Rightarrow> nodegroup \<Rightarrow> string" where
  "ContextName cli ng =
     (case context_names cli of
        Inl _ \<Rightarrow> []
      | Inr cs \<Rightarrow>
          (case find (\<lambda>c. ng_Driver ng = ''docker'' \<and> length (ng_Nodes ng) = 1 \<and> n_Endpoint (ng_Nodes ng ! 0) = c) cs of
             None \<Rightarrow> [] | Some c \<Rightarrow> c))"

text \<open>The groups of all builders: those of the store, then the contexts that no stored group is named after.\<close>

definition GetBuilders :: "store_env \<Rightarrow> docker_cli \<Rightarrow> fsys \<Rightarrow> b_error + ('d Builder list \<times> fsys)" where
  "GetBuilders env cli fs =
     rbind (map_err BStore (store_List env fs)) (\<lambda>(storeng, fs).
     rbind (context_names cli) (\<lambda>cs.
     rbind (rmap (\<lambda>ng. rbind (builder_New env cli fs (ng_Name ng) False) (\<lambda>(b, _). Inr b)) storeng) (\<lambda>bs.
     rbind (rmap (\<lambda>c. rbind (builder_New env cli fs c False) (\<lambda>(b, _). Inr b))
              (filter (\<lambda>c. c \<notin> set (map (\<lambda>b. ng_Name (b_NodeGroup b)) bs)) (sort cs))) (\<lambda>cbs.
     Inr (bs @ cbs, fs)))))"

definition builder_Inactive :: "'d Builder \<Rightarrow> bool" where
  "builder_Inactive b = list_all (\<lambda>d. \<not> (case bn_DriverInfo d of None \<Rightarrow> False | Some i \<Rightarrow> i_Status i = Running)) (b_nodes b)"

definition to_boot :: "'d bnode list \<Rightarrow> nat list" where
  "to_boot nodes =
     map fst (filter (\<lambda>(idx, d). bn_Err d = None \<and> bn_Driver d \<noteq> None \<and>
       (case bn_DriverInfo d of None \<Rightarrow> False | Some i \<Rightarrow> i_Status i \<noteq> Running)) (enumerate 0 nodes))"

text \<open>\<open>boot\<close> is the outcome of booting a driver, \<open>finish\<close> the order in which the goroutines finish, and
  \<open>newPrinter\<close> and \<open>printer\<close> the errors of making the progress printer and of waiting for it.\<close>

definition builder_Boot ::
  "('d \<Rightarrow> drv_error option) \<Rightarrow> nat list \<Rightarrow> drv_error option \<Rightarrow> drv_error option \<Rightarrow> 'd Builder \<Rightarrow>
   'd Builder \<times> bool \<times> drv_error option" where
  "builder_Boot boot finish newPrinter printer b =
     (let toBoot = to_boot (b_nodes b)
      in if toBoot = [] then (b, False, None)
         else if newPrinter \<noteq> None then (b, False, newPrinter)
         else
           let result = (\<lambda>idx. case bn_Driver (b_nodes b ! idx) of None \<Rightarrow> None | Some d \<Rightarrow> boot d);
               nodes = map (\<lambda>(idx, d). if idx \<in> set toBoot \<and> result idx \<noteq> None then d\<lparr>bn_Err := result idx\<rparr> else d)
                           (enumerate 0 (b_nodes b));
               errs = List.map_filter result finish;
               b = b\<lparr>b_nodes := nodes\<rparr>
           in if printer = None \<and> length errs = length toBoot then (b, False, Some (hd errs)) else (b, True, printer))"

end
