(* ===== verification/BuilderStore.thy ===== *)
theory BuilderStore
  imports Builder
begin

text \<open>
  What creating a builder and leaving a node do to the store, on every outcome: the composition of the
  operations of \<open>builder/builder.go\<close> with the store, the local state and the instance model.
\<close>

section \<open>Preparing\<close>

lemma Update_name:
  assumes "Update h load ng name endpoint platforms endpointsSet actionAppend flags cfgFile dopts = (ng', None)"
  shows "ng_Name ng' = ng_Name ng"
  using assms
proof (cases rule: Update_ok_cases)
  case (existing i n pp files)
  then have "i < length (ng_Nodes ng)" using findNode_Some by blast
  with validateDuplicates_ok(4) [OF existing(4)] show ?thesis
    by (metis length_list_update nodegroup.select_convs(1,3) nodegroup.surjective nodegroup.update_convs(3))
next
  case (fresh n pp)
  have "length (ng_Nodes ng) < length (ng_Nodes (ng\<lparr>ng_Nodes := ng_Nodes ng @ [n]\<rparr>))" by simp
  from validateDuplicates_ok(4) [OF fresh(7) this] show ?thesis
    by (metis nodegroup.select_convs(1) nodegroup.surjective nodegroup.update_convs(3))
qed

text \<open>The group that will be written bears the name of the group that was found, or a new valid name.\<close>

lemma create_prepare_name:
  assumes "create_prepare env fs opts = Inr (orig, ng, ep)" and "store_wf fs"
  shows "namePattern (ng_Name ng) \<and>
    (case NodeGroupByName (be_store env) fs (ng_Name ng) of
       Inl e \<Rightarrow> e = StFs ENotExist \<and> orig = None
     | Inr g \<Rightarrow> orig = Some (nodegroup_Copy g) \<and> ng_Name g = ng_Name ng)"
proof -
  obtain name found drv flags dopts setEp where
    g: "create_group env fs opts name = Inr found" and orig: "orig = map_option nodegroup_Copy found"
    and u: "create_update env opts (create_base name drv found) ep setEp flags (create_config env fs opts) dopts = Inr ng"
    using assms(1) by (auto simp: create_prepare_def result_iff)
  have n: "ng_Name ng = ng_Name (create_base name drv found)"
    using u by (auto simp: create_update_def split: prod.splits option.splits dest: Update_name)
  show ?thesis
  proof (cases found)
    case None
    then have "NodeGroupByName (be_store env) fs name = Inl (StFs ENotExist)"
      using g by (auto simp: create_group_def split: sum.splits if_splits)
    moreover from this have "namePattern name"
      by (auto simp: NodeGroupByName_def validName_def ValidateName_def split: if_splits)
    ultimately show ?thesis using None n orig by (simp add: create_base_def)
  next
    case (Some h)
    then have h: "NodeGroupByName (be_store env) fs name = Inr h"
      using g by (auto simp: create_group_def split: sum.splits if_splits)
    then obtain g0 t where g0: "fs_read fs [instanceDir, to_lower name] = Inr (DNodeGroup g0)" "namePattern name"
        "GetLastActivity (be_store env) fs g0 = Inr t" "h = g0\<lparr>ng_LastActivity := t\<rparr>"
      by (auto simp: NodeGroupByName_iff)
    from stored_name [OF assms(2) g0(1)] have "namePattern (ng_Name g0)" "to_lower (ng_Name g0) = to_lower name" by auto
    moreover from this g0 have "NodeGroupByName (be_store env) fs (ng_Name g0) = Inr h" by (auto simp: NodeGroupByName_iff)
    ultimately show ?thesis using Some n orig g0(4) by (simp add: create_base_def)
  qed
qed

text \<open>Preparing fails with errors of its own only.\<close>

lemma rfold_Inl: "rfold f xs s = Inl e \<Longrightarrow> \<exists>x s'. f x s' = Inl e"
  by (induction xs arbitrary: s) (auto simp: result_iff)

lemma GetCurrentEndpoint_no_init: "GetCurrentEndpoint cli \<noteq> Inl (BInit a b c)"
  by (auto simp: GetCurrentEndpoint_def Let_def split: sum.splits option.splits)

lemma create_steps_no_init:
  "create_name env fs opts \<noteq> Inl (BInit a b c)" "create_group env fs opts name \<noteq> Inl (BInit a b c)"
  "create_driver env opts found \<noteq> Inl (BInit a b c)" "create_check opts name drv found \<noteq> Inl (BInit a b c)"
  "csvToMap ss \<noteq> Inl (BInit a b c)" "parseBuildkitdFlags env inp drv dopts cfg \<noteq> Inl (BInit a b c)"
  "create_endpoint env fs opts name drv \<noteq> Inl (BInit a b c)" "create_update env opts ng ep setEp flags cfg dopts \<noteq> Inl (BInit a b c)"
proof -
  show "create_name env fs opts \<noteq> Inl (BInit a b c)" "create_group env fs opts name \<noteq> Inl (BInit a b c)"
    by (auto simp: create_name_def create_group_def context_names_def result_iff split: if_splits option.splits sum.splits)
  show "create_driver env opts found \<noteq> Inl (BInit a b c)" "create_check opts name drv found \<noteq> Inl (BInit a b c)"
    by (auto simp: create_driver_def create_check_def result_iff split: if_splits option.splits)
  have "csv_pair v m \<noteq> Inl (BInit a b c)" for v m by (simp add: csv_pair_def split: option.splits)
  then have "csv_item v m \<noteq> Inl (BInit a b c)" for v m by (auto simp: csv_item_def result_iff dest: rfold_Inl)
  then show "csvToMap ss \<noteq> Inl (BInit a b c)" by (auto simp: csvToMap_def result_iff dest: rfold_Inl)
  show "parseBuildkitdFlags env inp drv dopts cfg \<noteq> Inl (BInit a b c)"
    by (auto simp: parseBuildkitdFlags_def hasNetworkHostInConf_def result_iff Let_def
      split: if_splits option.splits sum.splits conf_array.splits)
  show "create_endpoint env fs opts name drv \<noteq> Inl (BInit a b c)"
    using GetCurrentEndpoint_no_init [of "be_cli env"]
    by (auto simp: create_endpoint_def validateEndpoint_def validateBuildkitEndpoint_def result_iff
      split: if_splits option.splits sum.splits)
  show "create_update env opts ng ep setEp flags cfg dopts \<noteq> Inl (BInit a b c)"
    by (auto simp: create_update_def split: prod.splits option.splits)
qed

lemma create_prepare_no_init: "create_prepare env fs opts \<noteq> Inl (BInit a b c)"
  by (auto simp: create_prepare_def result_iff create_steps_no_init)

section \<open>Writing\<close>

text \<open>The directory after the group was saved, in the words of the lookups.\<close>

definition saved_in :: "store_env \<Rightarrow> fsys \<Rightarrow> fsys \<Rightarrow> string \<Rightarrow> nodegroup \<Rightarrow> bool" where
  "saved_in env fs fs' t ng \<longleftrightarrow> store_wf fs' \<and>
     NodeGroupByName env fs' (ng_Name ng) = Inr (ng\<lparr>ng_DockerContext := False, ng_LastActivity := Some t\<rparr>) \<and>
     (\<forall>name. to_lower name \<noteq> to_lower (ng_Name ng) \<longrightarrow> NodeGroupByName env fs' name = NodeGroupByName env fs name)"

lemma Save_saved_in:
  assumes "store_wf fs" and "namePattern (ng_Name ng)" and "e_parseTime env now = Some t"
  obtains fs' where "Save now fs ng = Inr fs'" and "saved_in env fs fs' t ng"
  using Save_lookup [OF assms] unfolding saved_in_def by blast

lemma create_use_saved:
  assumes "saved_in (be_store env) fs fs1 t ng" and "create_use env opts (ng_Name ng) ep fs1 = Inr fs'"
  shows "saved_in (be_store env) fs fs' t ng"
  using assms SetCurrent_wf SetCurrent_instances
  by (auto simp: saved_in_def create_use_def result_iff split: if_splits)

text \<open>How the writing half ends, once the group is saved.\<close>

lemma create_commit_cases:
  assumes "create_commit env opts orig ng ep fs = (fs', r)" and "Save (be_now env) fs ng = Inr fs1"
    and "saved_in (be_store env) fs fs1 t ng"
  obtains (load) e where "r = Inl (BLoad e)" "fs' = fs1"
  | (rollback) n e where "r = Inl (BInit (ng_Name ng) n e)" "create_rollback env orig (ng_Name ng) fs1 = Inr fs'"
  | (stuck) e where "r = Inl (BRollback e)" "fs' = fs1" "create_rollback env orig (ng_Name ng) fs1 = Inl e"
  | (use) e where "r = Inl e" "fs' = fs1" "create_use env opts (ng_Name ng) ep fs1 = Inl e"
  | (finished) b where "r = Inr b" "create_use env opts (ng_Name ng) ep fs1 = Inr fs'" "list_all (\<lambda>n. bn_Err n = None) (b_nodes b)"
proof -
  have g: "GetNodeGroup (be_store env) fs1 (store_contexts (be_cli env)) (ng_Name ng) =
      Inr (ng\<lparr>ng_DockerContext := False, ng_LastActivity := Some t\<rparr>)"
    using assms(3) by (simp add: GetNodeGroup_def saved_in_def)
  obtain b l where l: "LoadNodes (be_load env) True (new_builder (ng\<lparr>ng_DockerContext := False, ng_LastActivity := Some t\<rparr>)) = (b, l)"
    by fastforce
  show ?thesis
  proof (cases l)
    case (Inl e)
    then show ?thesis using assms(1,2) g l load by (auto simp: create_commit_def)
  next
    case (Inr nodes)
    have nodes: "nodes = b_nodes b" using l Inr by (auto simp: LoadNodes_def Let_def split: prod.splits sum.splits option.splits)
    show ?thesis
    proof (cases "find (\<lambda>n. bn_Err n \<noteq> None) nodes")
      case (Some n)
      then show ?thesis
        using assms(1,2) g l Inr rollback stuck
        by (cases "create_rollback env orig (ng_Name ng) fs1") (auto simp: create_commit_def)
    next
      case None
      then have "list_all (\<lambda>n. bn_Err n = None) (b_nodes b)" using nodes by (simp add: find_None_iff list_all_iff)
      with None show ?thesis
        using assms(1,2) g l Inr use finished
        by (cases "create_use env opts (ng_Name ng) ep fs1") (auto simp: create_commit_def)
    qed
  qed
qed

text \<open>A failed load of the nodes is not rolled back: the group stays in the store.\<close>

lemma Create_load_error_keeps:
  assumes "store_wf fs" and "e_parseTime (be_store env) (be_now env) = Some t"
    and "create_prepare env fs opts = Inr (orig, ng, ep)" and "Create env fs opts = (fs', Inl (BLoad e))"
  shows "saved_in (be_store env) fs fs' t ng"
proof -
  obtain fs1 where fs1: "Save (be_now env) fs ng = Inr fs1" "saved_in (be_store env) fs fs1 t ng"
    using Save_saved_in [OF assms(1) _ assms(2)] create_prepare_name [OF assms(3,1)] by metis
  have "create_commit env opts orig ng ep fs = (fs', Inl (BLoad e))" using assms(3,4) by (simp add: Create_def)
  from create_commit_cases [OF this fs1] have "fs' = fs1"
    by cases (auto simp: create_use_def GetCurrentEndpoint_def Let_def result_iff split: if_splits sum.splits option.splits)
  with fs1(2) show ?thesis by simp
qed

section \<open>Local state\<close>

lemma ls_New_keeps:
  assumes "ls_New fs dir = Inr fs'" and "2 \<le> length q"
  shows "mget fs' q = mget fs q"
proof (cases "fs_exists fs [refsDir]")
  case True
  then show ?thesis using assms(1) by (auto simp: ls_New_def result_iff fs_mkdir_all_def split: if_splits)
next
  case False
  then have "rfold mkdir1 (path_prefixes [refsDir]) fs = Inr fs'"
    using assms(1) by (auto simp: ls_New_def result_iff fs_mkdir_all_def split: if_splits)
  from mget_mkdirs [OF this] assms(2) show ?thesis by (auto simp: path_prefixes_iff dest: prefix_length_le)
qed

lemma RemoveBuilderNode_gone:
  assumes "RemoveBuilderNode fs b n = Inr fs'" and "fs_wf fs"
  shows "mget fs' [refsDir, b, n, rid] = None"
proof (cases "fs_exists fs [refsDir, b, n]")
  case True
  then show ?thesis
    using assms(1) by (auto simp: RemoveBuilderNode_def RemoveBuilderNode_in_def result_iff mget_remove_all split: if_splits)
next
  case False
  then have "fs' = fs" "mget fs [refsDir, b, n] = None" using assms(1) by (auto simp: RemoveBuilderNode_def fs_exists_def split: if_splits)
  then show ?thesis using assms(2) by (cases "mget fs [refsDir, b, n, rid]") (auto simp: fs_wf_def is_dir_def)
qed

lemma Save_keeps_refs:
  assumes "Save now fs ng = Inr fs'"
  shows "mget fs' (refsDir # q) = mget fs (refsDir # q)"
  using assms by (auto simp: Save_iff fs_write_def gomap_simps split: if_splits)

section \<open>Example builders\<close>

definition demo_cli :: docker_cli where
  "demo_cli = \<lparr>dc_Contexts = Some [(''default'', Some ''unix:///sock'')], dc_CurrentContext = ''default'', dc_TLSData = False,
     dc_ParseHost = Some\<rparr>"

definition demo_builder_env :: "(drv_error + Info) \<Rightarrow> string builder_env" where
  "demo_builder_env info =
     \<lparr>be_store = demo_env, be_now = ''t1'', be_dir = ''/cfg'', be_cli = demo_cli,
      be_load = demo_load_env\<lparr>le_Info := (\<lambda>_. info)\<rparr>, be_genName = (\<lambda>_. ''gen''), be_rnd = demo_rnd,
      be_BUILDKIT_HOST = [], be_KUBECONFIG = [], be_urlRest = (\<lambda>_. True), be_Split = (\<lambda>s. Some [s]),
      be_parseFlags = (\<lambda>_. []), be_LoadConfigTree = (\<lambda>_. Inr ConfNone), be_LoadConfigFiles = demo_load\<rparr>"

definition demo_opts :: "string \<Rightarrow> bool \<Rightarrow> CreateOpts" where
  "demo_opts name app =
     \<lparr>co_Name = name, co_Driver = [], co_NodeName = [], co_Platforms = [''linux/riscv64''], co_BuildkitdFlags = [],
      co_BuildkitdConfigFile = [], co_DriverOpts = [], co_Use = True, co_Endpoint = [], co_Append = app\<rparr>"

section \<open>Booting and listing\<close>

lemma length_map_filter: "length (List.map_filter f xs) = length (filter (\<lambda>x. f x \<noteq> None) xs)"
  by (induction xs) (auto simp: List.map_filter_simps split: option.splits)

lemma to_boot_iff:
  "idx \<in> set (to_boot nodes) \<longleftrightarrow> idx < length nodes \<and> bn_Err (nodes ! idx) = None \<and> bn_Driver (nodes ! idx) \<noteq> None \<and>
     (\<exists>i. bn_DriverInfo (nodes ! idx) = Some i \<and> i_Status i \<noteq> Running)"
  by (auto simp: to_boot_def in_set_enumerate_eq split: option.splits intro!: rev_image_eqI)

text \<open>Whatever the order in which the drivers finish, booting is reported as done when one of them booted, and
  as failed with the error of one of them otherwise.\<close>

lemma builder_Boot_one_is_enough:
  assumes "mset finish = mset (to_boot (b_nodes b))" and "to_boot (b_nodes b) \<noteq> []"
  shows "case snd (builder_Boot boot finish None None b) of
      (True, e) \<Rightarrow> e = None \<and> (\<exists>idx \<in> set (to_boot (b_nodes b)). boot (the (bn_Driver (b_nodes b ! idx))) = None)
    | (False, e) \<Rightarrow> (\<exists>idx \<in> set (to_boot (b_nodes b)). e = boot (the (bn_Driver (b_nodes b ! idx)))) \<and> e \<noteq> None"
proof -
  let ?r = "\<lambda>idx. case bn_Driver (b_nodes b ! idx) of None \<Rightarrow> None | Some d \<Rightarrow> boot d"
  have same: "set finish = set (to_boot (b_nodes b))" "length finish = length (to_boot (b_nodes b))"
    using assms(1) mset_eq_setD mset_eq_length by blast+
  have r: "?r idx = boot (the (bn_Driver (b_nodes b ! idx)))" if "idx \<in> set finish" for idx
    using that same(1) by (auto simp: to_boot_iff)
  show ?thesis
  proof (cases "\<forall>idx \<in> set finish. ?r idx \<noteq> None")
    case True
    then have len: "length (List.map_filter ?r finish) = length (to_boot (b_nodes b))"
      using same(2) by (simp add: length_map_filter)
    then have "List.map_filter ?r finish \<noteq> []" using assms(2) by auto
    then have "hd (List.map_filter ?r finish) \<in> set (List.map_filter ?r finish)" by simp
    then obtain idx where "idx \<in> set finish" "?r idx = Some (hd (List.map_filter ?r finish))"
      by (auto simp: List.map_filter_def)
    then have "\<exists>idx \<in> set (to_boot (b_nodes b)). Some (hd (List.map_filter ?r finish)) = boot (the (bn_Driver (b_nodes b ! idx)))"
      using r same(1) by metis
    then show ?thesis using len assms(2) by (simp add: builder_Boot_def Let_def)
  next
    case False
    then have "length (filter (\<lambda>x. ?r x \<noteq> None) finish) < length (to_boot (b_nodes b))"
      using same(2) by (metis (mono_tags, lifting) length_filter_less)
    then show ?thesis using False assms(2) r same(1) by (auto simp: builder_Boot_def Let_def length_map_filter)
  qed
qed

text \<open>The store finds a group whatever the case of its name, and the list of builders compares names as they
  are: a context whose name differs from that of a stored group in case only lists that group twice.\<close>

lemma GetBuilders_lists_twice:
  "case GetBuilders demo_env (demo_cli\<lparr>dc_Contexts := Some [(''FOO'', Some ''unix:///foo'')]\<rparr>) demo_store of
     Inl _ \<Rightarrow> False
   | Inr (bs :: string Builder list, _) \<Rightarrow> map (\<lambda>b. ng_Name (b_NodeGroup b)) bs = [''foo'', ''foo'']"
  by code_simp

section \<open>Properties\<close>

text \<open>C4 (Create_saves): when a builder is created in a well-formed store, the store stays well-formed and holds
  the updated group under its name, every other name reads as before, and all nodes of the builder were
  initialised.\<close>

theorem Create_saves:
  assumes "store_wf fs" and "e_parseTime (be_store env) (be_now env) = Some t" and "Create env fs opts = (fs', Inr b)"
  shows "\<exists>orig ng ep. create_prepare env fs opts = Inr (orig, ng, ep) \<and> store_wf fs' \<and>
    NodeGroupByName (be_store env) fs' (ng_Name ng) = Inr (ng\<lparr>ng_DockerContext := False, ng_LastActivity := Some t\<rparr>) \<and>
    (\<forall>name. to_lower name \<noteq> to_lower (ng_Name ng) \<longrightarrow>
       NodeGroupByName (be_store env) fs' name = NodeGroupByName (be_store env) fs name) \<and>
    list_all (\<lambda>n. bn_Err n = None) (b_nodes b)"
proof -
  obtain orig ng ep where p: "create_prepare env fs opts = Inr (orig, ng, ep)"
      and c: "create_commit env opts orig ng ep fs = (fs', Inr b)"
    using assms(3) by (auto simp: Create_def split: sum.splits)
  obtain fs1 where fs1: "Save (be_now env) fs ng = Inr fs1" "saved_in (be_store env) fs fs1 t ng"
    using Save_saved_in [OF assms(1) _ assms(2)] create_prepare_name [OF p assms(1)] by metis
  from c fs1 have "saved_in (be_store env) fs fs' t ng \<and> list_all (\<lambda>n. bn_Err n = None) (b_nodes b)"
    by (cases rule: create_commit_cases) (auto dest: create_use_saved [OF fs1(2)])
  with p show ?thesis unfolding saved_in_def by blast
qed

theorem Create_saves_witness:
  "\<exists>fs' b ng. Create (demo_builder_env (Inr \<lparr>i_Status = Inactive, i_DynamicNodes = []\<rparr>)) demo_store (demo_opts ''bar'' False) = (fs', Inr b) \<and>
     store_wf fs' \<and> NodeGroupByName demo_env fs' (ng_Name ng) = Inr (ng\<lparr>ng_DockerContext := False, ng_LastActivity := Some ''t1''\<rparr>)"
proof -
  let ?env = "demo_builder_env (Inr \<lparr>i_Status = Inactive, i_DynamicNodes = []\<rparr>)"
  have "is_ok (snd (Create ?env demo_store (demo_opts ''bar'' False)))" by code_simp
  then obtain fs' b where c: "Create ?env demo_store (demo_opts ''bar'' False) = (fs', Inr b)"
    by (metis is_ok_iff prod.collapse)
  moreover have "e_parseTime (be_store ?env) (be_now ?env) = Some ''t1''" "be_store ?env = demo_env"
    by (simp_all add: demo_builder_env_def demo_env_def)
  ultimately show ?thesis using Create_saves [OF demo_store_wf(1) _ c, of "''t1''"] by fastforce
qed

text \<open>C5 (Create_rollback): when a node of a builder cannot be initialised, the store is well-formed and every
  other name reads as before; a builder that was not there is gone again, and one that was there is saved
  as its copy, which has lost the platforms and flags of its nodes.\<close>

theorem Create_rollback:
  assumes "store_wf fs" and "e_parseTime (be_store env) (be_now env) = Some t"
    and "Create env fs opts = (fs', Inl (BInit name node e))"
  shows "store_wf fs' \<and>
    (\<forall>other. to_lower other \<noteq> to_lower name \<longrightarrow>
       NodeGroupByName (be_store env) fs' other = NodeGroupByName (be_store env) fs other) \<and>
    (case NodeGroupByName (be_store env) fs name of
       Inl _ \<Rightarrow> NodeGroupByName (be_store env) fs' name = Inl (StFs ENotExist)
     | Inr g \<Rightarrow> NodeGroupByName (be_store env) fs' name = Inr ((nodegroup_Copy g)\<lparr>ng_LastActivity := Some t\<rparr>) \<and>
         list_all (\<lambda>n. n_Platforms n = [] \<and> n_BuildkitdFlags n = Some []) (ng_Nodes (nodegroup_Copy g)))"
proof -
  obtain orig ng ep where p: "create_prepare env fs opts = Inr (orig, ng, ep)"
      and c: "create_commit env opts orig ng ep fs = (fs', Inl (BInit name node e))"
    using assms(3) create_prepare_no_init by (fastforce simp: Create_def split: sum.splits)
  note n = create_prepare_name [OF p assms(1)]
  obtain fs1 where fs1: "Save (be_now env) fs ng = Inr fs1" "saved_in (be_store env) fs fs1 t ng"
    using Save_saved_in [OF assms(1) _ assms(2)] n by metis
  have r: "name = ng_Name ng" "create_rollback env orig (ng_Name ng) fs1 = Inr fs'"
    using c fs1 by (cases rule: create_commit_cases; auto simp: create_use_def GetCurrentEndpoint_def Let_def result_iff
      split: if_splits sum.splits option.splits)+
  show ?thesis
  proof (cases "NodeGroupByName (be_store env) fs name")
    case (Inl x)
    then have "Remove (be_dir env) fs1 name = Inr fs'" using n r by (simp add: create_rollback_def)
    from Remove_lookup [OF _ this] fs1(2) Inl r(1) show ?thesis by (auto simp: saved_in_def)
  next
    case (Inr g)
    then have s: "Save (be_now env) fs1 (nodegroup_Copy g) = Inr fs'" "ng_Name (nodegroup_Copy g) = name"
      using n r by (simp_all add: create_rollback_def nodegroup_Copy_def)
    have "store_wf fs1" using fs1(2) by (simp add: saved_in_def)
    from Save_lookup [OF this _ assms(2), of "nodegroup_Copy g"] s n r(1) have
      "saved_in (be_store env) fs1 fs' t (nodegroup_Copy g)" by (auto simp: saved_in_def)
    then show ?thesis
      using fs1(2) s(2) Inr r(1)
      by (auto simp: saved_in_def nodegroup_Copy_def node_Copy_def go_copy_def list_all_iff)
  qed
qed

theorem Create_rollback_witness:
  "\<exists>fs' nd. Create (demo_builder_env (Inl ErrNotConnecting)) demo_store (demo_opts ''foo'' True) =
       (fs', Inl (BInit ''foo'' nd ErrNotConnecting)) \<and>
     NodeGroupByName demo_env fs' ''foo'' = Inr ((nodegroup_Copy demo_ng)\<lparr>ng_LastActivity := Some ''t1''\<rparr>) \<and>
     ng_Nodes (nodegroup_Copy demo_ng) \<noteq> ng_Nodes demo_ng"
proof -
  let ?env = "demo_builder_env (Inl ErrNotConnecting)"
  have "case snd (Create ?env demo_store (demo_opts ''foo'' True)) of
      Inl (BInit name node e) \<Rightarrow> name = ''foo'' \<and> e = ErrNotConnecting | _ \<Rightarrow> False" by code_simp
  then obtain fs' nd where c: "Create ?env demo_store (demo_opts ''foo'' True) = (fs', Inl (BInit ''foo'' nd ErrNotConnecting))"
    by (cases "Create ?env demo_store (demo_opts ''foo'' True)") (auto split: sum.splits b_error.splits)
  have e: "e_parseTime (be_store ?env) (be_now ?env) = Some ''t1''" "be_store ?env = demo_env"
    by (simp_all add: demo_builder_env_def demo_env_def)
  have g: "NodeGroupByName demo_env demo_store ''foo'' = Inr (demo_ng\<lparr>ng_LastActivity := Some ''t0''\<rparr>)" by code_simp
  have "nodegroup_Copy (demo_ng\<lparr>ng_LastActivity := Some ''t0''\<rparr>) = nodegroup_Copy demo_ng"
    "ng_Nodes (nodegroup_Copy demo_ng) \<noteq> ng_Nodes demo_ng" by code_simp+
  with Create_rollback [OF demo_store_wf(1) e(1) c] g e(2) c show ?thesis by auto
qed

text \<open>C6 (builder_Leave_removes): after a node has left, the store is well-formed, the group of the name has every
  other node and at least one, every other name reads as before, no build reference of the node is left
  and those of other nodes are untouched.\<close>

theorem builder_Leave_removes:
  assumes "store_wf fs" and "e_parseTime (be_store env) (be_now env) = Some t"
    and "NodeGroupByName (be_store env) fs name = Inr ng" and "ng_wf ng"
    and "builder_Leave env fs name nodeName = Inr fs'"
  shows "store_wf fs' \<and>
    (\<exists>ng'. NodeGroupByName (be_store env) fs' name = Inr ng' \<and> ng_wf ng' \<and> ng_Nodes ng' \<noteq> [] \<and>
       ng_Nodes ng' = filter (\<lambda>n. n_Name n \<noteq> nodeName) (ng_Nodes ng)) \<and>
    (\<forall>other. to_lower other \<noteq> to_lower name \<longrightarrow>
       NodeGroupByName (be_store env) fs' other = NodeGroupByName (be_store env) fs other) \<and>
    (\<forall>rid. \<not> is_ok (ReadRef fs' (ng_Name ng) nodeName rid)) \<and>
    (\<forall>b n rid. (b, n) \<noteq> (ng_Name ng, nodeName) \<longrightarrow> ReadRef fs' b n rid = ReadRef fs b n rid)"
proof -
  obtain ng1 fs1 fs2 where l: "Leave ng nodeName = (ng1, None)" and fs1: "ls_New fs (be_dir env) = Inr fs1"
      and fs2: "RemoveBuilderNode fs1 (ng_Name ng1) nodeName = Inr fs2" and s: "Save (be_now env) fs2 ng1 = Inr fs'"
      and ne: "nodeName \<noteq> []"
    using assms(3,5) by (auto simp: builder_Leave_def result_iff split: if_splits prod.splits option.splits)
  note lf = Leave_filter [OF assms(4) l]
  have "ng_Name ng1 = ng_Name (ng\<lparr>ng_Nodes := ng_Nodes ng1\<rparr>)" using lf by (intro arg_cong [of _ _ ng_Name]) blast
  then have nn: "ng_Name ng1 = ng_Name ng" by simp
  from lf have ng1: "ng_wf ng1" "ng_Nodes ng1 = filter (\<lambda>n. n_Name n \<noteq> nodeName) (ng_Nodes ng)" "ng_Nodes ng1 \<noteq> []"
    by blast+
  obtain g0 u where g0: "fs_read fs [instanceDir, to_lower name] = Inr (DNodeGroup g0)" "namePattern name" "ng = g0\<lparr>ng_LastActivity := u\<rparr>"
    using assms(3) by (auto simp: NodeGroupByName_iff)
  have nm: "namePattern (ng_Name ng1)" "to_lower (ng_Name ng1) = to_lower name"
    using stored_name [OF assms(1) g0(1)] g0(3) nn by auto
  have out: "mget fs2 q = mget fs q" if "\<not> prefix [refsDir] q" for q
    using RemoveBuilderNode_frame [OF fs2, of q] ls_New_outside [OF fs1 that] that by (auto simp: prefix_def)
  have wf1: "fs_wf fs1" using ls_New_wf [OF fs1] assms(1) by (simp add: store_wf_def)
  then have wf2: "store_wf fs2" using store_wf_outside [OF assms(1) RemoveBuilderNode_wf [OF fs2] out] by blast
  have same: "NodeGroupByName (be_store env) fs2 other = NodeGroupByName (be_store env) fs other" for other
    by (intro NodeGroupByName_cong fs_read_cong out) auto
  have sv: "saved_in (be_store env) fs2 fs' t ng1" using Save_lookup [OF wf2 nm(1) assms(2)] s by (auto simp: saved_in_def)
  have "NodeGroupByName (be_store env) fs' name = NodeGroupByName (be_store env) fs' (ng_Name ng1)"
    using nm g0(2) by (simp add: NodeGroupByName_def validName_def ValidateName_def)
  moreover have save: "mget fs' [refsDir, b, n, rid] = mget fs2 [refsDir, b, n, rid]" for b n rid
    using Save_keeps_refs [OF s] by simp
  have "ReadRef fs' (ng_Name ng) nodeName rid \<noteq> Inr st" for rid st
    using save RemoveBuilderNode_gone [OF fs2 wf1] nn by (simp add: ReadRef_path fs_read_def)
  moreover have "ReadRef fs' b n rid = ReadRef fs b n rid" if "(b, n) \<noteq> (ng_Name ng, nodeName)" for b n rid
    using save RemoveBuilderNode_frame [OF fs2] ls_New_keeps [OF fs1] that nn by (intro ReadRef_cong) auto
  ultimately show ?thesis using sv same nm(2) ng1 by (auto simp: saved_in_def ng_wf_def is_ok_iff)
qed

theorem builder_Leave_removes_witness:
  "\<exists>fs' ng'. builder_Leave (demo_builder_env (Inl ErrNotConnecting)) demo_store ''foo'' ''foo0'' = Inr fs' \<and>
     NodeGroupByName demo_env fs' ''foo'' = Inr ng' \<and> map n_Name (ng_Nodes ng') = [''foo1'']"
proof -
  let ?env = "demo_builder_env (Inl ErrNotConnecting)"
  have "is_ok (builder_Leave ?env demo_store ''foo'' ''foo0'')" by code_simp
  then obtain fs' where l: "builder_Leave ?env demo_store ''foo'' ''foo0'' = Inr fs'" by (auto simp: is_ok_iff)
  have e: "e_parseTime (be_store ?env) (be_now ?env) = Some ''t1''" "be_store ?env = demo_env"
    by (simp_all add: demo_builder_env_def demo_env_def)
  have g: "NodeGroupByName demo_env demo_store ''foo'' = Inr (demo_ng\<lparr>ng_LastActivity := Some ''t0''\<rparr>)"
    "map n_Name (filter (\<lambda>n. n_Name n \<noteq> ''foo0'') (ng_Nodes demo_ng)) = [''foo1'']" by code_simp+
  have "ng_wf (demo_ng\<lparr>ng_LastActivity := Some ''t0''\<rparr>)" by code_simp
  from builder_Leave_removes [OF demo_store_wf(1) e(1) _ this l] g e(2) l show ?thesis by auto
qed

end
