(* ===== verification/SolveOpt.thy ===== *)
theory SolveOpt
  imports BuildOptions
begin

text \<open>
  From the options of a build to the request for the BuildKit client (\<open>build/opt.go\<close>, \<open>build/utils.go\<close>).  The driver of the
  node, the capabilities of its daemon, the environment, the files of the host and the parsers of
  references and addresses are parameters in \<open>solve_env\<close>.  Loading the inputs makes temporary directories; an
  error carries those that were made and not removed.
\<close>

datatype Feature = OCIExporter | DockerExporter | CacheExport | MultiPlatform | DefaultLoad

datatype so_error =
    SoNotSupported Feature
  | SoAttestDriver
  | SoAttestDaemon
  | SoNoAttest string
  | SoMultipleExporters
  | SoTag string
  | SoTagNeeded
  | SoManifestList bool
  | SoLoadImage
  | SoPushByDigest
  | SoNetworkMode string
  | SoHost string
  | SoHostGateway
  | SoNoContext
  | SoStdinTwice
  | SoPeek
  | SoAmbiguous
  | SoMount string
  | SoContextNotFound string
  | SoTempDockerfile
  | SoURLDockerfile string
  | SoDigest string
  | SoStore string
  | SoStat string
  | SoNotDir string
  | SoPanicNil

record solve_env =
  sn_features :: "Feature \<Rightarrow> bool"
  sn_moby :: bool
  sn_cap :: "string \<Rightarrow> bool"
  sn_multipleExporters :: bool
  sn_NO_DEFAULT_ATTESTATIONS :: "string option"
  sn_NO_DEFAULT_LOAD :: "string option"
  sn_parseRef :: "string \<Rightarrow> string option"
  sn_ociImporter :: "string \<Rightarrow> bool"
  sn_LoadImage :: "string \<Rightarrow> bool"
  sn_HostGatewayIP :: "string option"
  sn_ParseIP :: "string \<Rightarrow> bool"
  sn_nodeIdentifier :: string
  sn_ProxyConfig :: "string gomap"
  sn_git :: "string \<Rightarrow> bool"
  sn_cwd :: "string option"
  sn_Stat :: "string \<Rightarrow> bool option"
  sn_NewFS :: "string \<Rightarrow> bool"
  sn_Peek :: "(string \<times> bool) option"
  sn_isTar :: "string \<Rightarrow> bool"
  sn_uploadURL :: string
  sn_emptyDir :: string
  sn_tempDockerfile :: "string option"
  sn_urlDockerfile :: "string \<Rightarrow> string option"
  sn_Readdirnames :: "string \<Rightarrow> string list option"
  sn_indexGet :: "string \<Rightarrow> string \<Rightarrow> unit + string option"
  sn_indexSingle :: "string \<Rightarrow> unit + string option"
  sn_digestOk :: "string \<Rightarrow> bool"
  sn_NewStore :: "string \<Rightarrow> bool"
  sn_NewID :: "string \<Rightarrow> string"

record SolveOpt =
  sv_Ref :: string
  sv_Frontend :: string
  sv_FrontendAttrs :: "string gomap"
  sv_LocalMounts :: "string gomap"
  sv_OCIStores :: "string gomap"
  sv_FrontendInputs :: "llb_state gomap"
  sv_SharedKey :: string
  sv_CacheExports :: "CacheOptionsEntry list"
  sv_CacheImports :: "CacheOptionsEntry list"
  sv_AllowedEntitlements :: "string list"
  sv_SourcePolicy :: "string option"
  sv_Exports :: "ClientExport list"
  sv_Session :: "attachable list"
  sv_Internal :: bool

text \<open>A write under a condition.\<close>

definition set_if :: "bool \<Rightarrow> string \<Rightarrow> string \<Rightarrow> string gomap \<Rightarrow> string gomap" where
  "set_if b k v m = (if b then mset_key k v m else m)"

definition add_attrs :: "string \<Rightarrow> string gomap \<Rightarrow> string gomap \<Rightarrow> string gomap" where
  "add_attrs p m attrs = mput_all (map (\<lambda>(k, v). (p @ k, v)) m) attrs"

definition is_true :: "string \<Rightarrow> bool" where
  "is_true s \<longleftrightarrow> parse_bool s = Some True"

section \<open>Caches and attestations\<close>

definition inline_cache :: "Options \<Rightarrow> CacheOptionsEntry list" where
  "inline_cache opt =
     bo_CacheTo opt @ (if is_true (mstr (bo_BuildArgs opt) ''BUILDKIT_INLINE_CACHE'') then [\<lparr>co_Type = ''inline'', co_Attrs = Some []\<rparr>] else [])"

definition cache_supported :: "solve_env \<Rightarrow> CacheOptionsEntry \<Rightarrow> bool" where
  "cache_supported env e =
     (if co_Type e = ''gha'' then sn_cap env ''cache.gha''
      else if co_Type e = ''s3'' then sn_cap env ''cache.s3'' else True)"

definition enabled_attests :: "Options \<Rightarrow> string gomap" where
  "enabled_attests opt = List.map_filter (\<lambda>(k, v). map_option (\<lambda>w. (k, w)) v) (bo_Attests opt)"

definition supportAttestations :: "solve_env \<Rightarrow> bool" where
  "supportAttestations env \<longleftrightarrow> sn_cap env ''exporter.image.attestations'' \<and> sn_features env MultiPlatform"

definition solve_attests :: "solve_env \<Rightarrow> Options \<Rightarrow> string gomap \<Rightarrow> so_error + string gomap" where
  "solve_attests env opt attrs =
     rbind (if enabled_attests opt = [] then Inr attrs
            else if \<not> supportAttestations env then Inl (if \<not> sn_features env MultiPlatform then SoAttestDriver else SoAttestDaemon)
            else Inr (add_attrs ''attest:'' (enabled_attests opt) attrs)) (\<lambda>attrs.
     if mget (bo_Attests opt) ''provenance'' \<noteq> None \<or> \<not> supportAttestations env then Inr attrs
     else rbind (case sn_NO_DEFAULT_ATTESTATIONS env of
                   None \<Rightarrow> Inr False
                 | Some v \<Rightarrow> (case parse_bool v of None \<Rightarrow> Inl (SoNoAttest v) | Some b \<Rightarrow> Inr b)) (\<lambda>noProv.
          Inr (set_if (\<not> noProv) ''attest:provenance'' ''mode=min,inline-only=true'' attrs)))"

section \<open>Exports\<close>

definition noDefaultLoad :: "solve_env \<Rightarrow> bool" where
  "noDefaultLoad env = (case sn_NO_DEFAULT_LOAD env of None \<Rightarrow> False | Some v \<Rightarrow> is_true v)"

definition default_exports :: "solve_env \<Rightarrow> Options \<Rightarrow> so_error + ClientExport list" where
  "default_exports env opt =
     (case bo_Exports opt of
        [_] \<Rightarrow> Inr (bo_Exports opt)
      | [] \<Rightarrow>
          Inr (if noDefaultLoad env \<or> bo_CallFunc opt \<noteq> None then []
               else if sn_moby env then [\<lparr>ce_Type = ''image'', ce_Attrs = [], ce_Output = None, ce_OutputDir = []\<rparr>]
               else if sn_features env DefaultLoad then [\<lparr>ce_Type = ''docker'', ce_Attrs = [], ce_Output = None, ce_OutputDir = []\<rparr>]
               else [])
      | _ \<Rightarrow> if sn_multipleExporters env then Inr (bo_Exports opt) else Inl SoMultipleExporters)"

definition put_attr :: "string \<Rightarrow> string \<Rightarrow> ClientExport \<Rightarrow> ClientExport" where
  "put_attr k v e = e\<lparr>ce_Attrs := mset_key k v (ce_Attrs e)\<rparr>"

definition pushes :: "ClientExport \<Rightarrow> bool" where
  "pushes e \<longleftrightarrow> mstr (ce_Attrs e) ''push'' \<noteq> [] \<and> is_true (mstr (ce_Attrs e) ''push'')"

definition name_exports :: "solve_env \<Rightarrow> string list \<Rightarrow> ClientExport list \<Rightarrow> so_error + ClientExport list" where
  "name_exports env tags es =
     (if tags \<noteq> [] then
        rbind (rmap (\<lambda>tag. case sn_parseRef env tag of None \<Rightarrow> Inl (SoTag tag) | Some r \<Rightarrow> Inr r) tags) (\<lambda>rs.
        Inr (map (\<lambda>e. if ce_Type e \<in> {''image'', ''oci'', ''docker''} then put_attr ''name'' (join '','' rs) e else e) es))
      else if list_ex (\<lambda>e. ce_Type e = ''image'' \<and> mstr (ce_Attrs e) ''name'' = [] \<and> pushes e) es then Inl SoTagNeeded
      else Inr es)"

text \<open>The exporter \<open>docker\<close>: the entry, and its type as the rest of the iteration sees it.\<close>

definition docker_export :: "solve_env \<Rightarrow> Options \<Rightarrow> ClientExport \<Rightarrow> so_error + (string \<times> ClientExport)" where
  "docker_export env opt e =
     rbind (if sn_ociImporter env (mstr (ce_Attrs e) ''context'') \<and> ce_Output e = None then Inr (e\<lparr>ce_Type := ''oci''\<rparr>)
            else if 1 < length (bo_Platforms opt) \<or> enabled_attests opt \<noteq> [] then Inl (SoManifestList (ce_Output e \<noteq> None))
            else Inr e) (\<lambda>x.
     if ce_Output e = None then
       (if sn_moby env then Inr (''image'', x)
        else if sn_LoadImage env (mstr (ce_Attrs e) ''context'')
        then Inr (''docker'', x\<lparr>ce_Output := Some (OutLoad (mstr (ce_Attrs e) ''context''))\<rparr>)
        else Inl SoLoadImage)
     else if \<not> sn_features env DockerExporter then Inl (SoNotSupported DockerExporter)
     else Inr (''docker'', x))"

text \<open>With the docker driver an image is exported by the daemon itself.\<close>

definition moby_export :: "solve_env \<Rightarrow> ClientExport \<Rightarrow> string \<Rightarrow> ClientExport \<Rightarrow> so_error + ClientExport" where
  "moby_export env e t x =
     (if t = ''image'' \<and> sn_moby env then
        (if pushes e \<and> is_true (mstr (ce_Attrs e) ''push-by-digest'') then Inl SoPushByDigest
         else Inr (x\<lparr>ce_Type := ''moby''\<rparr>))
      else Inr x)"

definition buildinfo_attr :: "Options \<Rightarrow> string \<Rightarrow> ClientExport \<Rightarrow> ClientExport" where
  "buildinfo_attr opt t x =
     (case mget (bo_BuildArgs opt) ''BUILDKIT_INLINE_BUILDINFO_ATTRS'' of
        Some v \<Rightarrow> if t \<in> {''docker'', ''image'', ''oci''} then put_attr ''buildinfo-attrs'' v x else x
      | None \<Rightarrow> x)"

definition set_export :: "solve_env \<Rightarrow> Options \<Rightarrow> ClientExport \<Rightarrow> so_error + ClientExport" where
  "set_export env opt e =
     (if ce_Type e = ''oci'' \<and> \<not> sn_features env OCIExporter then Inl (SoNotSupported OCIExporter)
      else
        rbind (if ce_Type e = ''docker'' then docker_export env opt e else Inr (ce_Type e, e)) (\<lambda>(t, x).
        rbind (moby_export env e t x) (\<lambda>x. Inr (buildinfo_attr opt t x))))"

definition solve_exports :: "solve_env \<Rightarrow> Options \<Rightarrow> so_error + ClientExport list" where
  "solve_exports env opt =
     rbind (default_exports env opt) (\<lambda>es.
     rbind (name_exports env (bo_Tags opt) es) (\<lambda>es.
     rmap (set_export env opt) (filter (\<lambda>e. ce_Type e \<noteq> ''cacheonly'') es)))"

section \<open>Inputs\<close>

definition setLocalMount :: "solve_env \<Rightarrow> string \<Rightarrow> string \<Rightarrow> SolveOpt \<Rightarrow> so_error + SolveOpt" where
  "setLocalMount env name dir so =
     (if sn_NewFS env dir then Inr (so\<lparr>sv_LocalMounts := mset_key name dir (sv_LocalMounts so)\<rparr>) else Inl (SoMount dir))"

definition isArchive :: "(string \<Rightarrow> bool) \<Rightarrow> string \<Rightarrow> bool" where
  "isArchive isTar magic \<longleftrightarrow>
     list_ex (\<lambda>m. has_prefix m magic)
       [[CHR 0x42, CHR 0x5A, CHR 0x68], [CHR 0x1F, CHR 0x8B, CHR 0x08], [CHR 0xFD, CHR 0x37, CHR 0x7A, CHR 0x58, CHR 0x5A, CHR 0x00]] \<or>
     isTar magic"

text \<open>The local variables of \<open>loadInputs\<close> with its input and its target.\<close>

record load_state =
  ld_reader :: bool
  ld_dir :: string
  ld_name :: string
  ld_remove :: "string list"
  ld_inp :: Inputs
  ld_so :: SolveOpt

definition ld_attr :: "string \<Rightarrow> string \<Rightarrow> load_state \<Rightarrow> load_state" where
  "ld_attr k v l = l\<lparr>ld_so := (ld_so l)\<lparr>sv_FrontendAttrs := mset_key k v (sv_FrontendAttrs (ld_so l))\<rparr>\<rparr>"

definition ld_input :: "string \<Rightarrow> llb_state \<Rightarrow> load_state \<Rightarrow> load_state" where
  "ld_input k st l = l\<lparr>ld_so := (ld_so l)\<lparr>sv_FrontendInputs := mset_key k st (sv_FrontendInputs (ld_so l))\<rparr>\<rparr>"

type_synonym load_result = "(string list \<times> so_error) + load_state"

definition ld_mount :: "solve_env \<Rightarrow> string \<Rightarrow> string \<Rightarrow> load_state \<Rightarrow> load_result" where
  "ld_mount env name dir l =
     (case setLocalMount env name dir (ld_so l) of Inl e \<Rightarrow> Inl (ld_remove l, e) | Inr so \<Rightarrow> Inr (l\<lparr>ld_so := so\<rparr>))"

definition IsLocalDir :: "solve_env \<Rightarrow> string \<Rightarrow> bool" where
  "IsLocalDir env p \<longleftrightarrow> sn_Stat env p = Some True"

text \<open>A context on the standard input: an archive, or a Dockerfile with an empty context.\<close>

definition load_stdin :: "solve_env \<Rightarrow> load_state \<Rightarrow> load_result" where
  "load_stdin env l =
     (if bi_DockerfilePath (ld_inp l) = ''-'' then Inl ([], SoStdinTwice)
      else if \<not> bi_InStream (ld_inp l) then Inl ([], SoPanicNil)
      else case sn_Peek env of
          None \<Rightarrow> Inl ([], SoPeek)
        | Some (magic, eof) \<Rightarrow>
            if eof \<and> magic = [] then Inr l
            else if isArchive (sn_isTar env) magic
            then Inr (ld_attr ''context'' (sn_uploadURL env) (l\<lparr>ld_so := (ld_so l)\<lparr>sv_Session := sv_Session (ld_so l) @ [AtUpload]\<rparr>\<rparr>))
            else if bi_DockerfilePath (ld_inp l) \<noteq> [] then Inl ([], SoAmbiguous)
            else ld_mount env ''context'' (sn_emptyDir env)
                   (l\<lparr>ld_reader := True, ld_inp := (ld_inp l)\<lparr>bi_ContextPath := sn_emptyDir env\<rparr>, ld_remove := [sn_emptyDir env]\<rparr>))"

text \<open>The Dockerfile is read from the input stream.\<close>

definition read_dockerfile :: "load_state \<Rightarrow> load_result" where
  "read_dockerfile l = (if bi_InStream (ld_inp l) then Inr (l\<lparr>ld_reader := True\<rparr>) else Inl ([], SoPanicNil))"

definition load_local :: "solve_env \<Rightarrow> load_state \<Rightarrow> load_result" where
  "load_local env l =
     (let cp = bi_ContextPath (ld_inp l); df = bi_DockerfilePath (ld_inp l)
      in rbind (ld_mount env ''context'' cp l) (\<lambda>l.
         let l = l\<lparr>ld_so := (ld_so l)\<lparr>sv_SharedKey := (case filepath_Abs (sn_cwd env) cp of None \<Rightarrow> cp | Some p \<Rightarrow> path_Base p)\<rparr>\<rparr>
         in if df = ''-'' then read_dockerfile l
            else if df = [] then Inr (l\<lparr>ld_dir := cp\<rparr>)
            else Inr (l\<lparr>ld_dir := path_Dir df, ld_name := path_Base df\<rparr>)))"

definition load_remote :: "load_state \<Rightarrow> load_result" where
  "load_remote l =
     (let cp = bi_ContextPath (ld_inp l); df = bi_DockerfilePath (ld_inp l)
      in rbind (if df = ''-'' then read_dockerfile l
                else if is_abs df
                then Inr (ld_attr ''dockerfilekey'' ''dockerfile'' (l\<lparr>ld_dir := path_Dir df, ld_name := path_Base df\<rparr>))
                else Inr l) (\<lambda>l. Inr (ld_attr ''context'' cp l)))"

definition load_context :: "solve_env \<Rightarrow> load_state \<Rightarrow> load_result" where
  "load_context env l =
     (let cp = bi_ContextPath (ld_inp l)
      in case bi_ContextState (ld_inp l) of
           Some st \<Rightarrow> Inr (ld_input ''dockerfile'' st (ld_input ''context'' st l))
         | None \<Rightarrow>
             if cp = ''-'' then load_stdin env l
             else if IsLocalDir env cp then load_local env l
             else if IsRemoteURL (sn_git env) cp then load_remote l
             else Inl ([], SoContextNotFound cp))"

definition dockerfile_src :: "Inputs \<Rightarrow> string" where
  "dockerfile_src inp =
     (if bi_DockerfileInline inp \<noteq> [] then ''inline''
      else if bi_DockerfilePath inp = ''-'' then ''stdin''
      else if bi_DockerfilePath inp = [] then path_join [bi_ContextPath inp, ''Dockerfile'']
      else bi_DockerfilePath inp)"

definition load_dockerfile :: "solve_env \<Rightarrow> load_state \<Rightarrow> load_result" where
  "load_dockerfile env l =
     rbind (if \<not> ld_reader l \<and> bi_DockerfileInline (ld_inp l) = [] then Inr l
            else case sn_tempDockerfile env of
                None \<Rightarrow> Inl (ld_remove l, SoTempDockerfile)
              | Some d \<Rightarrow> Inr (ld_attr ''dockerfilekey'' ''dockerfile'' (l\<lparr>ld_dir := d, ld_remove := ld_remove l @ [d], ld_name := ''Dockerfile''\<rparr>))) (\<lambda>l.
     if \<not> isHTTPURL (bi_DockerfilePath (ld_inp l)) then Inr l
     else case sn_urlDockerfile env (bi_DockerfilePath (ld_inp l)) of
         None \<Rightarrow> Inl (ld_remove l, SoURLDockerfile (bi_DockerfilePath (ld_inp l)))
       | Some d \<Rightarrow>
           (let l = ld_attr ''dockerfilekey'' ''dockerfile'' (l\<lparr>ld_dir := d, ld_remove := ld_remove l @ [d], ld_name := ''Dockerfile''\<rparr>)
            in Inr (l\<lparr>ld_so := (ld_so l)\<lparr>sv_FrontendInputs := mdel ''dockerfile'' (sv_FrontendInputs (ld_so l))\<rparr>\<rparr>)))"

definition handleLowercaseDockerfile :: "solve_env \<Rightarrow> string \<Rightarrow> string \<Rightarrow> string" where
  "handleLowercaseDockerfile env dir p =
     (if path_Base p \<noteq> ''Dockerfile'' then p
      else case sn_Readdirnames env (path_Dir (path_join [dir, p])) of
          None \<Rightarrow> p
        | Some names \<Rightarrow>
            if ''Dockerfile'' \<in> set names then p
            else if ''dockerfile'' \<in> set names then path_join [path_Dir p, ''dockerfile''] else p)"

definition mount_dockerfile :: "solve_env \<Rightarrow> load_state \<Rightarrow> load_result" where
  "mount_dockerfile env l =
     (let l = (if ld_name l = [] then l\<lparr>ld_name := ''Dockerfile''\<rparr> else l)
      in rbind (if ld_dir l = [] then Inr l
                else rbind (ld_mount env ''dockerfile'' (ld_dir l) l) (\<lambda>l.
                     Inr (l\<lparr>ld_name := handleLowercaseDockerfile env (ld_dir l) (ld_name l)\<rparr>))) (\<lambda>l.
         Inr (ld_attr ''filename'' (ld_name l) l)))"

definition resolveDigest :: "solve_env \<Rightarrow> string \<Rightarrow> string \<Rightarrow> string option" where
  "resolveDigest env localPath tag =
     (case (case sn_indexGet env localPath tag of Inl _ \<Rightarrow> Inl () | Inr None \<Rightarrow> sn_indexSingle env localPath | r \<Rightarrow> r) of
        Inr (Some dig) \<Rightarrow> if sn_digestOk env dig then Some dig else None
      | _ \<Rightarrow> None)"

definition oci_layout :: "solve_env \<Rightarrow> string \<Rightarrow> string \<Rightarrow> load_state \<Rightarrow> load_result" where
  "oci_layout env k p l =
     (let (p1, dig) = (case cut (CHR ''@'') (trim_prefix ''oci-layout://'' p) of
                         None \<Rightarrow> (trim_prefix ''oci-layout://'' p, None) | Some (q, d) \<Rightarrow> (q, Some d));
          (localPath, tag) = (case cut (CHR '':'') p1 of None \<Rightarrow> (p1, ''latest'') | Some (q, t) \<Rightarrow> (q, t))
      in case (case dig of Some d \<Rightarrow> Some d | None \<Rightarrow> resolveDigest env localPath tag) of
           None \<Rightarrow> Inl (ld_remove l, SoDigest p)
         | Some d \<Rightarrow>
             if \<not> sn_NewStore env localPath then Inl (ld_remove l, SoStore localPath)
             else Inr (ld_attr (''context:'' @ k) (''oci-layout://'' @ sn_NewID env k @ '':'' @ tag @ ''@'' @ d)
                    (l\<lparr>ld_so := (ld_so l)\<lparr>sv_OCIStores := mset_key (sn_NewID env k) localPath (sv_OCIStores (ld_so l))\<rparr>\<rparr>)))"

definition local_name :: "string \<Rightarrow> string" where
  "local_name k = (if k = ''context'' \<or> k = ''dockerfile'' then CHR ''_'' # k else k)"

definition load_named :: "solve_env \<Rightarrow> string \<times> NamedContext \<Rightarrow> load_state \<Rightarrow> load_result" where
  "load_named env = (\<lambda>(k, v) l.
     let l = ld_attr ''frontend.caps'' ''moby.buildkit.frontend.contexts+forward'' l;
         p = nc_Path v
     in case nc_State v of
          Some st \<Rightarrow> Inr (ld_input k st (ld_attr (''context:'' @ k) (''input:'' @ k) l))
        | None \<Rightarrow>
            if IsRemoteURL (sn_git env) p \<or> has_prefix ''docker-image://'' p \<or> has_prefix ''target:'' p
            then Inr (ld_attr (''context:'' @ k) p l)
            else if has_prefix ''oci-layout://'' p then oci_layout env k p l
            else case sn_Stat env p of
                None \<Rightarrow> Inl (ld_remove l, SoStat k)
              | Some False \<Rightarrow> Inl (ld_remove l, SoNotDir p)
              | Some True \<Rightarrow>
                  rbind (ld_mount env (local_name k) p l) (\<lambda>l. Inr (ld_attr (''context:'' @ k) (''local:'' @ local_name k) l)))"

text \<open>\<open>order\<close> lists the named contexts in the order in which the range over the map meets them.\<close>

definition loadInputs :: "solve_env \<Rightarrow> (string \<times> NamedContext) list \<Rightarrow> Inputs \<Rightarrow> SolveOpt \<Rightarrow> load_result" where
  "loadInputs env order inp so =
     (if bi_ContextPath inp = [] then Inl ([], SoNoContext)
      else
        rbind (load_context env \<lparr>ld_reader = False, ld_dir = [], ld_name = bi_DockerfilePath inp, ld_remove = [], ld_inp = inp, ld_so = so\<rparr>) (\<lambda>l.
        rbind (load_dockerfile env l) (\<lambda>l.
        rbind (mount_dockerfile env l) (\<lambda>l.
        rbind (rfold (load_named env) order l) (\<lambda>l.
        Inr (l\<lparr>ld_inp := (ld_inp l)\<lparr>bi_DockerfileMappingSrc := dockerfile_src (ld_inp l), bi_DockerfileMappingDst := ld_name l\<rparr>\<rparr>))))))"

section \<open>The request\<close>

definition extra_host :: "solve_env \<Rightarrow> string \<Rightarrow> so_error + string" where
  "extra_host env h =
     (case (case cut (CHR ''='') h of None \<Rightarrow> cut (CHR '':'') h | Some x \<Rightarrow> Some x) of
        None \<Rightarrow> Inl (SoHost h)
      | Some (host, ip) \<Rightarrow>
          if host = [] \<or> ip = [] then Inl (SoHost h)
          else if ip = ''host-gateway'' then
            (case sn_HostGatewayIP env of None \<Rightarrow> Inl SoHostGateway | Some g \<Rightarrow> Inr (host @ ''='' @ g))
          else
            (let ip = (if 2 < length ip \<and> hd ip = CHR ''['' \<and> last ip = CHR '']'' then butlast (tl ip) else ip)
             in if sn_ParseIP env ip then Inr (host @ ''='' @ ip) else Inl (SoHost h)))"

definition toBuildkitExtraHosts :: "solve_env \<Rightarrow> string list \<Rightarrow> so_error + string" where
  "toBuildkitExtraHosts env inp = rbind (rmap (extra_host env) inp) (\<lambda>hosts. Inr (join '','' hosts))"

definition toBuildkitUlimits :: "string list \<Rightarrow> string" where
  "toBuildkitUlimits inp = join '','' inp"

text \<open>The attributes after the inputs are loaded, in the order of the code.\<close>

definition option_attrs :: "solve_env \<Rightarrow> Options \<Rightarrow> string gomap \<Rightarrow> string gomap" where
  "option_attrs env opt attrs =
     (let attrs = (if bo_Pull opt then mset_key ''image-resolve-mode'' ''pull'' attrs
                   else set_if (sn_moby env) ''image-resolve-mode'' ''local'' attrs);
          attrs = set_if (bo_Target opt \<noteq> []) ''target'' (bo_Target opt) attrs;
          attrs = set_if (bo_NoCacheFilter opt \<noteq> []) ''no-cache'' (join '','' (bo_NoCacheFilter opt)) attrs;
          attrs = set_if (bo_NoCache opt) ''no-cache'' [] attrs;
          attrs = add_attrs ''build-arg:'' (bo_BuildArgs opt) attrs;
          attrs = add_attrs ''label:'' (bo_Labels opt) attrs
      in add_attrs ''build-arg:'' (filter (\<lambda>(k, _). mget (bo_BuildArgs opt) k = None) (sn_ProxyConfig env)) attrs)"

definition platform_attr :: "solve_env \<Rightarrow> Options \<Rightarrow> string gomap \<Rightarrow> so_error + string gomap" where
  "platform_attr env opt attrs =
     (if bo_Platforms opt = [] then Inr attrs
      else if 1 < length (bo_Platforms opt) \<and> \<not> sn_features env MultiPlatform then Inl (SoNotSupported MultiPlatform)
      else Inr (mset_key ''platform'' (join '','' (map Format (bo_Platforms opt))) attrs))"

definition network_attr :: "Options \<Rightarrow> string gomap \<Rightarrow> so_error + (string gomap \<times> string list)" where
  "network_attr opt attrs =
     (let m = bo_NetworkMode opt
      in if m = ''host'' then Inr (mset_key ''force-network-mode'' m attrs, [''network.host''])
         else if m = ''none'' then Inr (mset_key ''force-network-mode'' m attrs, [])
         else if m = [] \<or> m = ''default'' then Inr (attrs, [])
         else Inl (SoNetworkMode m))"

definition last_attrs :: "solve_env \<Rightarrow> Options \<Rightarrow> SolveOpt \<Rightarrow> so_error + SolveOpt" where
  "last_attrs env opt so =
     rbind (platform_attr env opt (option_attrs env opt (sv_FrontendAttrs so))) (\<lambda>attrs.
     rbind (network_attr opt attrs) (\<lambda>(attrs, ents).
     rbind (toBuildkitExtraHosts env (bo_ExtraHosts opt)) (\<lambda>hosts.
       let attrs = set_if (hosts \<noteq> []) ''add-hosts'' hosts attrs;
           attrs = set_if (0 < bo_ShmSize opt) ''shm-size'' (itoa (nat (bo_ShmSize opt))) attrs;
           attrs = set_if (toBuildkitUlimits (bo_Ulimits opt) \<noteq> []) ''ulimit'' (toBuildkitUlimits (bo_Ulimits opt)) attrs
       in Inr (so\<lparr>sv_FrontendAttrs := attrs, sv_AllowedEntitlements := sv_AllowedEntitlements so @ ents,
                  sv_Internal := bo_CallFunc opt \<noteq> None\<rparr>))))"

definition first_attrs :: "bool \<Rightarrow> Options \<Rightarrow> string gomap" where
  "first_attrs multiDriver opt =
     set_if (multiDriver \<or> is_true (mstr (bo_BuildArgs opt) ''BUILDKIT_MULTI_PLATFORM'')) ''multi-platform'' ''true''
       (set_if (bo_CgroupParent opt \<noteq> []) ''cgroup-parent'' (bo_CgroupParent opt) [])"

definition solve_start :: "solve_env \<Rightarrow> Options \<Rightarrow> string gomap \<Rightarrow> ClientExport list \<Rightarrow> SolveOpt" where
  "solve_start env opt attrs es =
     \<lparr>sv_Ref = bo_Ref opt, sv_Frontend = ''dockerfile.v0'', sv_FrontendAttrs = attrs, sv_LocalMounts = [], sv_OCIStores = [],
      sv_FrontendInputs = [], sv_SharedKey = [], sv_CacheExports = filter (cache_supported env) (inline_cache opt),
      sv_CacheImports = filter (cache_supported env) (bo_CacheFrom opt), sv_AllowedEntitlements = bo_Allow opt,
      sv_SourcePolicy = bo_SourcePolicy opt, sv_Exports = es, sv_Session = bo_Session opt, sv_Internal = False\<rparr>"

definition no_dirs :: "so_error + 'a \<Rightarrow> (string list \<times> so_error) + 'a" where
  "no_dirs r = map_err (\<lambda>e. ([], e)) r"

text \<open>The request, the options after the call, and the directories that its release removes.  What the
  deferred release removes on a late error is not left behind.\<close>

definition toSolveOpt ::
  "solve_env \<Rightarrow> (string \<times> NamedContext) list \<Rightarrow> bool \<Rightarrow> Options \<Rightarrow> (string list \<times> so_error) + (SolveOpt \<times> Options \<times> string list)" where
  "toSolveOpt env order multiDriver opt =
     (if list_ex (\<lambda>e. co_Type e \<noteq> ''inline'') (inline_cache opt) \<and> \<not> sn_features env CacheExport
      then Inl ([], SoNotSupported CacheExport)
      else
        rbind (no_dirs (solve_attests env opt (first_attrs multiDriver opt))) (\<lambda>attrs.
        rbind (no_dirs (solve_exports env opt)) (\<lambda>es.
        rbind (loadInputs env order (bo_Inputs opt) (solve_start env opt attrs es)) (\<lambda>l.
          let so = ld_so l;
              so = (if sv_SharedKey so \<noteq> [] then so\<lparr>sv_SharedKey := sv_SharedKey so @ '':'' @ sn_nodeIdentifier env\<rparr> else so)
          in rbind (no_dirs (last_attrs env opt so)) (\<lambda>so.
             Inr (so, opt\<lparr>bo_CacheTo := inline_cache opt, bo_Exports := es, bo_Inputs := ld_inp l\<rparr>, ld_remove l))))))"

end
