(* ===== verification/SolveOptSpec.thy ===== *)
theory SolveOptSpec
  imports SolveOpt Entitlements
begin

text \<open>
  What the request for a build contains (\<open>build/opt.go\<close>): the arguments and labels of the options, no entitlement that was
  not asked for, exports that the driver can serve, and no directory of the host that the entitlements of
  bake did not look at.
\<close>

section \<open>Attributes\<close>

lemma mget_set_if [simp]: "mget (set_if b k v m) q = (if b \<and> q = k then Some v else mget m q)"
  by (simp add: set_if_def gomap_simps)

lemma map_of_prefixed: "map_of (map (\<lambda>(k, v). (p @ k, v)) m) (p @ k) = map_of m k"
  by (induction m) auto

lemma mget_add_attrs:
  "wf_map m \<Longrightarrow> mget (add_attrs p m a) (p @ k) = (case mget m k of None \<Rightarrow> mget a (p @ k) | Some v \<Rightarrow> Some v)"
proof -
  assume "wf_map m"
  then have "distinct (map fst m)" using distinct_mkeys by (simp add: mkeys_def)
  then have "distinct (map fst (map (\<lambda>(k, v). (p @ k, v)) m))"
    by (simp add: distinct_map inj_on_def split_beta comp_def)
  then have "map_of (rev (map (\<lambda>(k, v). (p @ k, v)) m)) (p @ k) = map_of m k"
    using map_of_inject_set [of "rev (map (\<lambda>(k, v). (p @ k, v)) m)" "map (\<lambda>(k, v). (p @ k, v)) m"]
    by (simp add: map_of_prefixed flip: rev_map)
  then show ?thesis unfolding add_attrs_def mget_mput_all by (simp add: mget_def)
qed

lemma mget_add_attrs_other: "(\<And>k. q \<noteq> p @ k) \<Longrightarrow> mget (add_attrs p m a) q = mget a q"
proof -
  assume *: "\<And>k. q \<noteq> p @ k"
  have "map_of (rev (map (\<lambda>(k, v). (p @ k, v)) m)) q = None" unfolding map_of_eq_None_iff using * by fastforce
  then show ?thesis by (simp add: add_attrs_def mget_mput_all)
qed

text \<open>The keys that loading the inputs writes.\<close>

definition load_key :: "string \<Rightarrow> bool" where
  "load_key q \<longleftrightarrow> q \<in> {''context'', ''dockerfilekey'', ''filename'', ''frontend.caps''} \<or> (\<exists>k. q = ''context:'' @ k)"

text \<open>What loading the inputs leaves alone.\<close>

definition kept :: "load_state \<Rightarrow> load_state \<Rightarrow> bool" where
  "kept l l' \<longleftrightarrow>
     (\<forall>q. \<not> load_key q \<longrightarrow> mget (sv_FrontendAttrs (ld_so l')) q = mget (sv_FrontendAttrs (ld_so l)) q) \<and>
     sv_Ref (ld_so l') = sv_Ref (ld_so l) \<and> sv_Frontend (ld_so l') = sv_Frontend (ld_so l) \<and>
     sv_CacheExports (ld_so l') = sv_CacheExports (ld_so l) \<and> sv_CacheImports (ld_so l') = sv_CacheImports (ld_so l) \<and>
     sv_AllowedEntitlements (ld_so l') = sv_AllowedEntitlements (ld_so l) \<and> sv_Exports (ld_so l') = sv_Exports (ld_so l) \<and>
     sv_SourcePolicy (ld_so l') = sv_SourcePolicy (ld_so l)"

lemma kept_refl [simp]: "kept l l"
  by (simp add: kept_def)

lemma kept_trans: "kept l l' \<Longrightarrow> kept l' l'' \<Longrightarrow> kept l l''"
  by (simp add: kept_def)

lemma kept_attr [simp]: "load_key k \<Longrightarrow> kept l (ld_attr k v l') \<longleftrightarrow> kept l l'"
  by (auto simp: kept_def ld_attr_def gomap_simps)

lemma kept_input [simp]: "kept l (ld_input k st l') \<longleftrightarrow> kept l l'"
  by (simp add: kept_def ld_input_def)

lemma kept_locals [simp]:
  "kept l (l'\<lparr>ld_reader := a\<rparr>) \<longleftrightarrow> kept l l'" "kept l (l'\<lparr>ld_dir := d\<rparr>) \<longleftrightarrow> kept l l'"
  "kept l (l'\<lparr>ld_name := d\<rparr>) \<longleftrightarrow> kept l l'" "kept l (l'\<lparr>ld_remove := r\<rparr>) \<longleftrightarrow> kept l l'"
  "kept l (l'\<lparr>ld_inp := i\<rparr>) \<longleftrightarrow> kept l l'" "kept (l\<lparr>ld_reader := a\<rparr>) l' \<longleftrightarrow> kept l l'"
  "kept (l\<lparr>ld_name := d\<rparr>) l' \<longleftrightarrow> kept l l'" "kept (l\<lparr>ld_inp := i\<rparr>) l' \<longleftrightarrow> kept l l'" "kept (l\<lparr>ld_remove := r\<rparr>) l' \<longleftrightarrow> kept l l'"
  "kept l (l'\<lparr>ld_so := (ld_so l')\<lparr>sv_OCIStores := m\<rparr>\<rparr>) \<longleftrightarrow> kept l l'"
  "kept l (l'\<lparr>ld_so := (ld_so l')\<lparr>sv_SharedKey := sk\<rparr>\<rparr>) \<longleftrightarrow> kept l l'"
  "kept l (l'\<lparr>ld_so := (ld_so l')\<lparr>sv_Session := ses\<rparr>\<rparr>) \<longleftrightarrow> kept l l'"
  "kept l (l'\<lparr>ld_so := (ld_so l')\<lparr>sv_FrontendInputs := fi\<rparr>\<rparr>) \<longleftrightarrow> kept l l'"
  by (simp_all add: kept_def)

lemma load_key_simps [simp]:
  "load_key ''context''" "load_key ''dockerfilekey''" "load_key ''filename''" "load_key ''frontend.caps''"
  "load_key (CHR ''c'' # CHR ''o'' # CHR ''n'' # CHR ''t'' # CHR ''e'' # CHR ''x'' # CHR ''t'' # CHR '':'' # k)"
  by (auto simp: load_key_def)

lemma ld_mount_keeps: "ld_mount env name dir l = Inr l' \<Longrightarrow> kept l l'"
  by (auto simp: ld_mount_def setLocalMount_def kept_def split: if_splits)

lemma load_context_keeps: "load_context env l = Inr l' \<Longrightarrow> kept l l'"
  by (auto simp: load_context_def load_stdin_def load_local_def load_remote_def read_dockerfile_def Let_def result_iff
      split: option.splits if_splits dest!: ld_mount_keeps intro: kept_trans)

lemma load_dockerfile_keeps: "load_dockerfile env l = Inr l' \<Longrightarrow> kept l l'"
  by (auto simp: load_dockerfile_def Let_def result_iff split: option.splits if_splits)

lemma mount_dockerfile_keeps: "mount_dockerfile env l = Inr l' \<Longrightarrow> kept l l'"
  by (auto simp: mount_dockerfile_def Let_def result_iff split: if_splits dest!: ld_mount_keeps)

lemma oci_layout_keeps: "oci_layout env k p l = Inr l' \<Longrightarrow> kept l l'"
  by (auto simp: oci_layout_def Let_def split: option.splits if_splits prod.splits)

lemma load_named_keeps: "load_named env kv l = Inr l' \<Longrightarrow> kept l l'"
proof -
  assume step: "load_named env kv l = Inr l'"
  obtain k v where kv: "kv = (k, v)" by (cases kv)
  define l1 where "l1 = ld_attr ''frontend.caps'' ''moby.buildkit.frontend.contexts+forward'' l"
  have "kept l1 l'"
    using step unfolding kv
    by (auto simp: load_named_def Let_def result_iff simp flip: l1_def split: option.splits if_splits bool.splits
      dest!: ld_mount_keeps oci_layout_keeps)
  moreover have "kept l l1" by (simp add: l1_def)
  ultimately show ?thesis by (rule kept_trans [rotated])
qed

lemma load_named_all_keeps: "rfold (load_named env) kvs l = Inr l' \<Longrightarrow> kept l l'"
  by (induction kvs arbitrary: l) (auto simp: result_iff dest: load_named_keeps intro: kept_trans)

lemma loadInputs_steps:
  assumes "loadInputs env order inp so = Inr l"
  obtains l1 l2 l3 l4 where
    "load_context env \<lparr>ld_reader = False, ld_dir = [], ld_name = bi_DockerfilePath inp, ld_remove = [], ld_inp = inp, ld_so = so\<rparr> = Inr l1"
    "load_dockerfile env l1 = Inr l2" "mount_dockerfile env l2 = Inr l3" "rfold (load_named env) order l3 = Inr l4"
    "l = l4\<lparr>ld_inp := (ld_inp l4)\<lparr>bi_DockerfileMappingSrc := dockerfile_src (ld_inp l4), bi_DockerfileMappingDst := ld_name l4\<rparr>\<rparr>"
  using assms by (auto simp: loadInputs_def result_iff split: if_splits)

lemma loadInputs_keeps:
  assumes "loadInputs env order inp so = Inr l"
  shows "kept \<lparr>ld_reader = False, ld_dir = [], ld_name = bi_DockerfilePath inp, ld_remove = [], ld_inp = inp, ld_so = so\<rparr> l"
  by (rule loadInputs_steps [OF assms])
    (auto dest!: load_context_keeps load_dockerfile_keeps mount_dockerfile_keeps load_named_all_keeps intro: kept_trans)

text \<open>The parts of a successful conversion.\<close>

lemma toSolveOpt_steps:
  assumes "toSolveOpt env order multiDriver opt = Inr (so, opt', rm)"
  obtains attrs es l so1 where
    "solve_attests env opt (first_attrs multiDriver opt) = Inr attrs" "solve_exports env opt = Inr es"
    "loadInputs env order (bo_Inputs opt) (solve_start env opt attrs es) = Inr l" "rm = ld_remove l"
    "sv_FrontendAttrs so1 = sv_FrontendAttrs (ld_so l)" "sv_AllowedEntitlements so1 = sv_AllowedEntitlements (ld_so l)"
    "sv_LocalMounts so1 = sv_LocalMounts (ld_so l)" "sv_Exports so1 = sv_Exports (ld_so l)" "sv_OCIStores so1 = sv_OCIStores (ld_so l)"
    "sv_CacheExports so1 = sv_CacheExports (ld_so l)" "sv_CacheImports so1 = sv_CacheImports (ld_so l)"
    "last_attrs env opt so1 = Inr so"
    "sn_features env CacheExport \<or> list_all (\<lambda>e. co_Type e = ''inline'') (inline_cache opt)"
proof -
  obtain attrs es l where s: "solve_attests env opt (first_attrs multiDriver opt) = Inr attrs" "solve_exports env opt = Inr es"
      "loadInputs env order (bo_Inputs opt) (solve_start env opt attrs es) = Inr l" "rm = ld_remove l"
      "last_attrs env opt (if sv_SharedKey (ld_so l) \<noteq> [] then (ld_so l)\<lparr>sv_SharedKey := sv_SharedKey (ld_so l) @ '':'' @ sn_nodeIdentifier env\<rparr>
         else ld_so l) = Inr so"
      "sn_features env CacheExport \<or> list_all (\<lambda>e. co_Type e = ''inline'') (inline_cache opt)"
    using assms unfolding toSolveOpt_def no_dirs_def Let_def
    by (auto simp: result_iff list_all_iff list_ex_iff split: if_split_asm)
  show thesis by (rule that [OF s(1-4) _ _ _ _ _ _ _ s(5,6)]) simp_all
qed

section \<open>Lookups in the request\<close>

lemma mget_filter_key: "mget (filter (\<lambda>(k, _). P k) m) k = (if P k then mget m k else None)"
  by (induction m) (auto simp: mget_def)

lemma wf_map_filter: "wf_map m \<Longrightarrow> wf_map (filter P m)"
  unfolding wf_map_def by (induction m) auto

lemma option_attrs_args:
  assumes "wf_map (bo_BuildArgs opt)" and "wf_map (sn_ProxyConfig env)" and "wf_map (bo_Labels opt)"
  shows "mget (option_attrs env opt a) (''build-arg:'' @ k) =
      (case mget (bo_BuildArgs opt) k of
         Some v \<Rightarrow> Some v
       | None \<Rightarrow> (case mget (sn_ProxyConfig env) k of Some v \<Rightarrow> Some v | None \<Rightarrow> mget a (''build-arg:'' @ k)))"
    and "mget (option_attrs env opt a) (''label:'' @ k) = (case mget (bo_Labels opt) k of Some v \<Rightarrow> Some v | None \<Rightarrow> mget a (''label:'' @ k))"
proof -
  define px where "px = filter (\<lambda>(k, _). mget (bo_BuildArgs opt) k = None) (sn_ProxyConfig env)"
  have px: "wf_map px" "mget px k = (if mget (bo_BuildArgs opt) k = None then mget (sn_ProxyConfig env) k else None)"
    using assms(2) by (simp_all add: px_def wf_map_filter mget_filter_key)
  note other = mget_add_attrs_other [of "''build-arg:'' @ k" "''label:''"] mget_add_attrs_other [of "''label:'' @ k" "''build-arg:''"]
  show "mget (option_attrs env opt a) (''build-arg:'' @ k) =
      (case mget (bo_BuildArgs opt) k of
         Some v \<Rightarrow> Some v
       | None \<Rightarrow> (case mget (sn_ProxyConfig env) k of Some v \<Rightarrow> Some v | None \<Rightarrow> mget a (''build-arg:'' @ k)))"
    unfolding option_attrs_def Let_def px_def [symmetric] mget_add_attrs [OF px(1)] px(2)
    using other(1) mget_add_attrs [OF assms(1), of "''build-arg:''" _ k] by (simp add: gomap_simps split: option.splits)
  show "mget (option_attrs env opt a) (''label:'' @ k) = (case mget (bo_Labels opt) k of Some v \<Rightarrow> Some v | None \<Rightarrow> mget a (''label:'' @ k))"
    unfolding option_attrs_def Let_def px_def [symmetric]
    using other(2) mget_add_attrs [OF assms(3), of "''label:''" _ k] by (simp add: gomap_simps split: option.splits)
qed

lemma last_attrs_get:
  assumes "last_attrs env opt so1 = Inr so"
    and "q \<notin> {''platform'', ''force-network-mode'', ''add-hosts'', ''shm-size'', ''ulimit''}"
  shows "mget (sv_FrontendAttrs so) q = mget (option_attrs env opt (sv_FrontendAttrs so1)) q"
  using assms by (auto simp: last_attrs_def platform_attr_def network_attr_def Let_def result_iff gomap_simps split: if_splits)

lemma last_attrs_rest:
  assumes "last_attrs env opt so1 = Inr so"
  shows "sv_AllowedEntitlements so = sv_AllowedEntitlements so1 @ (if bo_NetworkMode opt = ''host'' then [''network.host''] else [])"
    and "bo_NetworkMode opt \<in> {[], ''default'', ''none'', ''host''}"
    and "sv_LocalMounts so = sv_LocalMounts so1" "sv_Exports so = sv_Exports so1" "sv_OCIStores so = sv_OCIStores so1"
    and "sv_CacheExports so = sv_CacheExports so1" "sv_CacheImports so = sv_CacheImports so1"
  using assms by (auto simp: last_attrs_def platform_attr_def network_attr_def Let_def result_iff split: if_splits)

lemma solve_attests_get:
  assumes "solve_attests env opt a = Inr attrs" and "\<And>k. q \<noteq> ''attest:'' @ k"
  shows "mget attrs q = mget a q"
proof -
  have "q \<noteq> ''attest:provenance''" using assms(2) [of "''provenance''"] by simp
  then show ?thesis
    using assms mget_add_attrs_other [of q "''attest:''"]
    by (auto simp: solve_attests_def result_iff split: if_splits option.splits)
qed

text \<open>A key that none of the other steps writes is absent before the options are copied.\<close>

lemma toSolveOpt_fresh:
  assumes "solve_attests env opt (first_attrs multiDriver opt) = Inr attrs"
    and "loadInputs env order inp (solve_start env opt attrs es) = Inr l"
    and "\<And>k. q \<noteq> ''attest:'' @ k" and "\<not> load_key q" and "q \<notin> {''multi-platform'', ''cgroup-parent''}"
  shows "mget (sv_FrontendAttrs (ld_so l)) q = None"
  using loadInputs_keeps [OF assms(2)] solve_attests_get [OF assms(1,3)] assms(4,5)
  by (simp add: kept_def solve_start_def first_attrs_def)

section \<open>Exports\<close>

lemma mstr_set: "mstr (mset_key k v m) q = (if q = k then v else mstr m q)"
  by (simp add: mstr_def gomap_simps)

lemma docker_export_ok:
  assumes "docker_export env opt e = Inr (t, x)"
  shows "ce_Attrs x = ce_Attrs e \<and> (ce_Type x = ce_Type e \<or> ce_Type x = ''oci'') \<and>
    (t = ''image'' \<and> sn_moby env \<or> t = ''docker'' \<and> ce_Output x \<noteq> None)"
  using assms by (auto simp: docker_export_def result_iff split: if_splits)

lemma set_export_ok:
  assumes "set_export env opt e1 = Inr e" and "ce_Type e1 \<noteq> ''cacheonly''"
  shows "mstr (ce_Attrs e) ''name'' = mstr (ce_Attrs e1) ''name''" and "mstr (ce_Attrs e) ''push'' = mstr (ce_Attrs e1) ''push''"
    and "ce_Type e \<noteq> ''cacheonly''" and "ce_Type e = ''image'' \<Longrightarrow> ce_Type e1 = ''image'' \<and> \<not> sn_moby env"
    and "ce_Type e = ''docker'' \<Longrightarrow> ce_Type e1 = ''docker'' \<and> ce_Output e \<noteq> None"
    and "ce_Type e = ''oci'' \<Longrightarrow> ce_Type e1 \<in> {''oci'', ''docker''}"
proof -
  obtain t x y where tx: "(if ce_Type e1 = ''docker'' then docker_export env opt e1 else Inr (ce_Type e1, e1)) = Inr (t, x)"
      and y: "moby_export env e1 t x = Inr y" and ey: "e = buildinfo_attr opt t y"
    using assms(1) by (auto simp: set_export_def result_iff split: if_split_asm)
  have "ce_Type y = (if t = ''image'' \<and> sn_moby env then ''moby'' else ce_Type x)" "ce_Output y = ce_Output x" "ce_Attrs y = ce_Attrs x"
    using y by (auto simp: moby_export_def split: if_split_asm)
  then have e: "ce_Type e = (if t = ''image'' \<and> sn_moby env then ''moby'' else ce_Type x)" "ce_Output e = ce_Output x"
        "mstr (ce_Attrs e) ''name'' = mstr (ce_Attrs x) ''name''" "mstr (ce_Attrs e) ''push'' = mstr (ce_Attrs x) ''push''"
    unfolding ey by (simp_all add: buildinfo_attr_def put_attr_def mstr_set split: option.split)
  have x: "ce_Attrs x = ce_Attrs e1" using tx docker_export_ok [of env opt e1 t x] by (simp split: if_split_asm)
  show "mstr (ce_Attrs e) ''name'' = mstr (ce_Attrs e1) ''name''" "mstr (ce_Attrs e) ''push'' = mstr (ce_Attrs e1) ''push''"
    using e(3,4) x by simp_all
  have d: "ce_Type e = ''moby'' \<or> ce_Output e \<noteq> None \<and> ce_Type e \<in> {''docker'', ''oci''}" if "ce_Type e1 = ''docker''"
    using that tx e(1,2) docker_export_ok [of env opt e1 t x] by auto
  have o: "ce_Type e = (if ce_Type e1 = ''image'' \<and> sn_moby env then ''moby'' else ce_Type e1)" if "ce_Type e1 \<noteq> ''docker''"
    using that tx e(1) by auto
  show "ce_Type e \<noteq> ''cacheonly''" using d o assms(2) by (cases "ce_Type e1 = ''docker''") auto
  show "ce_Type e = ''image'' \<Longrightarrow> ce_Type e1 = ''image'' \<and> \<not> sn_moby env"
    using d o by (cases "ce_Type e1 = ''docker''") (auto split: if_split_asm)
  show "ce_Type e = ''docker'' \<Longrightarrow> ce_Type e1 = ''docker'' \<and> ce_Output e \<noteq> None"
    using d o by (cases "ce_Type e1 = ''docker''") (auto split: if_split_asm)
  show "ce_Type e = ''oci'' \<Longrightarrow> ce_Type e1 \<in> {''oci'', ''docker''}"
    using d o by (cases "ce_Type e1 = ''docker''") (auto split: if_split_asm)
qed

lemma list_all2_in2: "list_all2 P xs ys \<Longrightarrow> y \<in> set ys \<Longrightarrow> \<exists>x \<in> set xs. P x y"
  by (induction rule: list_all2_induct) auto

lemma name_exports_ok:
  assumes "name_exports env tags es = Inr es1" and "e \<in> set es1"
  shows "tags \<noteq> [] \<Longrightarrow> ce_Type e \<in> {''image'', ''oci'', ''docker''} \<Longrightarrow>
      \<exists>rs. map (sn_parseRef env) tags = map Some rs \<and> mstr (ce_Attrs e) ''name'' = join '','' rs"
    and "tags = [] \<Longrightarrow> ce_Type e = ''image'' \<Longrightarrow> pushes e \<Longrightarrow> mstr (ce_Attrs e) ''name'' \<noteq> []"
proof -
  assume t: "tags \<noteq> []" "ce_Type e \<in> {''image'', ''oci'', ''docker''}"
  then obtain rs where rs: "list_all2 (\<lambda>tag r. (case sn_parseRef env tag of None \<Rightarrow> Inl (SoTag tag) | Some r \<Rightarrow> Inr r) = Inr r) tags rs"
      and es1: "es1 = map (\<lambda>e. if ce_Type e \<in> {''image'', ''oci'', ''docker''} then put_attr ''name'' (join '','' rs) e else e) es"
    using assms(1) by (auto simp: name_exports_def result_iff)
  from rs have "map (sn_parseRef env) tags = map Some rs" by induction (auto split: option.splits)
  moreover have "mstr (ce_Attrs e) ''name'' = join '','' rs"
    using assms(2) t(2) by (auto simp: es1 put_attr_def mstr_set split: if_splits)
  ultimately show "\<exists>rs. map (sn_parseRef env) tags = map Some rs \<and> mstr (ce_Attrs e) ''name'' = join '','' rs" by blast
next
  assume "tags = []" "ce_Type e = ''image''" "pushes e"
  then show "mstr (ce_Attrs e) ''name'' \<noteq> []"
    using assms by (auto simp: name_exports_def list_ex_iff split: if_splits)
qed

section \<open>Directories of the host\<close>

text \<open>Every mounted directory is one of \<open>S\<close> or a temporary one.\<close>

definition mounts_in :: "string set \<Rightarrow> load_state \<Rightarrow> bool" where
  "mounts_in S l \<longleftrightarrow> (\<forall>n d. mget (sv_LocalMounts (ld_so l)) n = Some d \<longrightarrow> d \<in> S \<or> d \<in> set (ld_remove l))"

lemma mounts_in_simps [simp]:
  "mounts_in S (ld_attr k v l) \<longleftrightarrow> mounts_in S l" "mounts_in S (ld_input k st l) \<longleftrightarrow> mounts_in S l"
  "mounts_in S (l\<lparr>ld_reader := a\<rparr>) \<longleftrightarrow> mounts_in S l" "mounts_in S (l\<lparr>ld_dir := d\<rparr>) \<longleftrightarrow> mounts_in S l"
  "mounts_in S (l\<lparr>ld_name := d\<rparr>) \<longleftrightarrow> mounts_in S l" "mounts_in S (l\<lparr>ld_inp := i\<rparr>) \<longleftrightarrow> mounts_in S l"
  "mounts_in S (l\<lparr>ld_so := (ld_so l)\<lparr>sv_OCIStores := m\<rparr>\<rparr>) \<longleftrightarrow> mounts_in S l"
  "mounts_in S (l\<lparr>ld_so := (ld_so l)\<lparr>sv_SharedKey := sk\<rparr>\<rparr>) \<longleftrightarrow> mounts_in S l"
  "mounts_in S (l\<lparr>ld_so := (ld_so l)\<lparr>sv_Session := ses\<rparr>\<rparr>) \<longleftrightarrow> mounts_in S l"
  "mounts_in S (l\<lparr>ld_so := (ld_so l)\<lparr>sv_FrontendInputs := fi\<rparr>\<rparr>) \<longleftrightarrow> mounts_in S l"
  by (simp_all add: mounts_in_def ld_attr_def ld_input_def)

lemma mounts_in_more: "mounts_in S l \<Longrightarrow> set (ld_remove l) \<subseteq> set rm \<Longrightarrow> mounts_in S (l\<lparr>ld_remove := rm\<rparr>)"
  by (auto simp: mounts_in_def)

lemma ld_fields [simp]:
  "ld_dir (ld_attr k v l) = ld_dir l" "ld_remove (ld_attr k v l) = ld_remove l" "ld_inp (ld_attr k v l) = ld_inp l"
  "ld_dir (ld_input k st l) = ld_dir l" "ld_remove (ld_input k st l) = ld_remove l" "ld_inp (ld_input k st l) = ld_inp l"
  by (simp_all add: ld_attr_def ld_input_def)

lemma ld_mount_in:
  assumes "ld_mount env name dir l = Inr l'" and "mounts_in S l" and "dir \<in> S \<or> dir \<in> set (ld_remove l)"
  shows "mounts_in S l' \<and> ld_remove l' = ld_remove l \<and> ld_dir l' = ld_dir l \<and> ld_inp l' = ld_inp l"
  using assms by (auto simp: ld_mount_def setLocalMount_def mounts_in_def gomap_simps split: if_split_asm; blast)

definition dir_in :: "string set \<Rightarrow> load_state \<Rightarrow> bool" where
  "dir_in S l \<longleftrightarrow> ld_dir l = [] \<or> ld_dir l \<in> S \<or> ld_dir l \<in> set (ld_remove l)"

lemma load_context_in:
  assumes "load_context env l = Inr l'" and "mounts_in S l" and "ld_remove l = []" and "ld_dir l = []"
    and "bi_ContextState (ld_inp l) = None \<Longrightarrow> IsLocalDir env (bi_ContextPath (ld_inp l)) \<Longrightarrow> bi_ContextPath (ld_inp l) \<in> S"
    and "bi_ContextState (ld_inp l) = None \<Longrightarrow> path_Dir (bi_DockerfilePath (ld_inp l)) \<in> S"
  shows "mounts_in S l' \<and> dir_in S l'"
proof (cases "bi_ContextState (ld_inp l)")
  case (Some st)
  then show ?thesis using assms(1-4) by (auto simp: load_context_def Let_def dir_in_def)
next
  case None
  consider (stdin) "load_stdin env l = Inr l'" | (local) "IsLocalDir env (bi_ContextPath (ld_inp l))" "load_local env l = Inr l'"
    | (remote) "load_remote l = Inr l'"
    using assms(1) None by (auto simp: load_context_def Let_def split: if_split_asm)
  then show ?thesis
  proof cases
    case stdin
    let ?l = "l\<lparr>ld_reader := True, ld_inp := (ld_inp l)\<lparr>bi_ContextPath := sn_emptyDir env\<rparr>, ld_remove := [sn_emptyDir env]\<rparr>"
    have "mounts_in S ?l" using mounts_in_more [of S "l\<lparr>ld_reader := True, ld_inp := (ld_inp l)\<lparr>bi_ContextPath := sn_emptyDir env\<rparr>\<rparr>"] assms(2,3)
      by simp
    then show ?thesis
      using stdin assms(2-4) ld_mount_in [of env "''context''" "sn_emptyDir env" ?l l' S]
      by (auto simp: load_stdin_def dir_in_def split: if_split_asm option.split_asm prod.split_asm)
  next
    case local
    then obtain l1 where m: "ld_mount env ''context'' (bi_ContextPath (ld_inp l)) l = Inr l1"
      by (auto simp: load_local_def Let_def result_iff)
    from ld_mount_in [OF this assms(2)] assms(5) [OF None local(1)] have
      "mounts_in S l1" "ld_dir l1 = []" using assms(4) by simp_all
    then show ?thesis using local(2) m assms(5) [OF None local(1)] assms(6) [OF None]
      by (auto simp: load_local_def Let_def read_dockerfile_def dir_in_def split: if_split_asm)
  next
    case remote
    then show ?thesis using assms(2-4) assms(6) [OF None]
      by (auto simp: load_remote_def read_dockerfile_def Let_def result_iff dir_in_def split: if_split_asm)
  qed
qed

lemma load_dockerfile_in:
  assumes "load_dockerfile env l = Inr l'" and "mounts_in S l" and "dir_in S l"
  shows "mounts_in S l' \<and> dir_in S l'"
proof -
  have step: "mounts_in S (l\<lparr>ld_dir := d, ld_remove := ld_remove l @ [d], ld_name := ''Dockerfile''\<rparr>)" if "mounts_in S l" for l d
    using that by (auto simp: mounts_in_def)
  obtain l1 where l1: "l1 = l \<or> (\<exists>d. l1 = ld_attr ''dockerfilekey'' ''dockerfile''
        (l\<lparr>ld_dir := d, ld_remove := ld_remove l @ [d], ld_name := ''Dockerfile''\<rparr>))"
      and l': "l' = l1 \<or> (\<exists>d l2. l2 = ld_attr ''dockerfilekey'' ''dockerfile''
        (l1\<lparr>ld_dir := d, ld_remove := ld_remove l1 @ [d], ld_name := ''Dockerfile''\<rparr>) \<and>
        l' = l2\<lparr>ld_so := (ld_so l2)\<lparr>sv_FrontendInputs := mdel ''dockerfile'' (sv_FrontendInputs (ld_so l2))\<rparr>\<rparr>)"
    using assms(1) unfolding load_dockerfile_def rbind_Inr_iff Let_def by (auto split: if_split_asm option.split_asm)
  from l1 assms(2,3) step have "mounts_in S l1" "dir_in S l1" by (auto simp: dir_in_def)
  with l' step show ?thesis by (auto simp: dir_in_def)
qed

lemma mount_dockerfile_in:
  assumes "mount_dockerfile env l = Inr l'" and "mounts_in S l" and "dir_in S l"
  shows "mounts_in S l'"
proof -
  define l0 where "l0 = (if ld_name l = [] then l\<lparr>ld_name := ''Dockerfile''\<rparr> else l)"
  have l0: "mounts_in S l0" "dir_in S l0" using assms(2,3) by (simp_all add: l0_def dir_in_def)
  then show ?thesis
    using assms(1) ld_mount_in [of env "''dockerfile''" "ld_dir l0" l0 _ S]
    unfolding mount_dockerfile_def Let_def l0_def [symmetric] dir_in_def by (auto simp: result_iff split: if_split_asm)
qed

lemma load_named_in:
  assumes "load_named env (k, v) l = Inr l'" and "mounts_in S l"
    and "nc_State v = None \<Longrightarrow> sn_Stat env (nc_Path v) = Some True \<Longrightarrow> nc_Path v \<in> S"
  shows "mounts_in S l'"
proof -
  define l1 where "l1 = ld_attr ''frontend.caps'' ''moby.buildkit.frontend.contexts+forward'' l"
  have l1: "mounts_in S l1" using assms(2) by (simp add: l1_def)
  have "mounts_in S l2" if "oci_layout env k (nc_Path v) l1 = Inr l2" for l2
    using that l1 by (auto simp: oci_layout_def Let_def split: option.split_asm if_split_asm prod.split_asm)
  then show ?thesis
    using assms(1,3) l1 ld_mount_in [of env "local_name k" "nc_Path v" l1 _ S]
    by (auto simp: load_named_def Let_def result_iff simp flip: l1_def split: option.split_asm if_split_asm bool.split_asm)
qed

lemma load_named_all_in:
  assumes "rfold (load_named env) kvs l = Inr l'" and "mounts_in S l"
    and "\<And>k v. (k, v) \<in> set kvs \<Longrightarrow> nc_State v = None \<Longrightarrow> sn_Stat env (nc_Path v) = Some True \<Longrightarrow> nc_Path v \<in> S"
  shows "mounts_in S l'"
  using assms
proof (induction kvs arbitrary: l)
  case (Cons kv kvs)
  obtain k v where kv: "kv = (k, v)" by (cases kv)
  obtain l1 where l1: "load_named env (k, v) l = Inr l1" "rfold (load_named env) kvs l1 = Inr l'"
    using Cons.prems(1) by (auto simp: kv result_iff)
  have "mounts_in S l1" by (rule load_named_in [OF l1(1) Cons.prems(2)]) (rule Cons.prems(3) [of k], simp_all add: kv)
  from Cons.IH [OF l1(2) this] show ?case using Cons.prems(3) by (metis list.set_intros(2))
qed simp

lemma loadInputs_mounts:
  assumes "loadInputs env order inp so = Inr l" and "sv_LocalMounts so = []"
    and "bi_ContextState inp = None \<Longrightarrow> IsLocalDir env (bi_ContextPath inp) \<Longrightarrow> bi_ContextPath inp \<in> S"
    and "bi_ContextState inp = None \<Longrightarrow> path_Dir (bi_DockerfilePath inp) \<in> S"
    and "\<And>k v. (k, v) \<in> set order \<Longrightarrow> nc_State v = None \<Longrightarrow> sn_Stat env (nc_Path v) = Some True \<Longrightarrow> nc_Path v \<in> S"
  shows "mounts_in S l"
proof (rule loadInputs_steps [OF assms(1)])
  fix l1 l2 l3 l4
  assume l1: "load_context env \<lparr>ld_reader = False, ld_dir = [], ld_name = bi_DockerfilePath inp, ld_remove = [], ld_inp = inp, ld_so = so\<rparr> = Inr l1"
    and l: "load_dockerfile env l1 = Inr l2" "mount_dockerfile env l2 = Inr l3" "rfold (load_named env) order l3 = Inr l4"
    "l = l4\<lparr>ld_inp := (ld_inp l4)\<lparr>bi_DockerfileMappingSrc := dockerfile_src (ld_inp l4), bi_DockerfileMappingDst := ld_name l4\<rparr>\<rparr>"
  have "mounts_in S l1 \<and> dir_in S l1"
    by (rule load_context_in [OF l1]) (use assms(2-4) in \<open>simp_all add: mounts_in_def\<close>)
  then have "mounts_in S l3" using load_dockerfile_in [OF l(1)] mount_dockerfile_in [OF l(2)] by blast
  from load_named_all_in [OF l(3) this assms(5)] show ?thesis using l(4) by simp
qed

section \<open>Example\<close>

definition demo_solve_env :: "(string \<Rightarrow> bool option) \<Rightarrow> solve_env" where
  "demo_solve_env stat =
     \<lparr>sn_features = (\<lambda>_. True), sn_moby = False, sn_cap = (\<lambda>_. True), sn_multipleExporters = True,
      sn_NO_DEFAULT_ATTESTATIONS = None, sn_NO_DEFAULT_LOAD = None, sn_parseRef = Some, sn_ociImporter = (\<lambda>_. False),
      sn_LoadImage = (\<lambda>_. True), sn_HostGatewayIP = None, sn_ParseIP = (\<lambda>_. True), sn_nodeIdentifier = ''id'',
      sn_ProxyConfig = [(''HTTP_PROXY'', ''p''), (''V'', ''proxy'')], sn_git = (\<lambda>_. False), sn_cwd = Some ''/w'', sn_Stat = stat,
      sn_NewFS = (\<lambda>_. True), sn_Peek = None, sn_isTar = (\<lambda>_. False), sn_uploadURL = [], sn_emptyDir = ''/tmp/e'',
      sn_tempDockerfile = Some ''/tmp/d'', sn_urlDockerfile = (\<lambda>_. Some ''/tmp/u''), sn_Readdirnames = (\<lambda>_. None),
      sn_indexGet = (\<lambda>_ _. Inr (Some ''sha256:0'')), sn_indexSingle = (\<lambda>_. Inr None), sn_digestOk = (\<lambda>_. True),
      sn_NewStore = (\<lambda>_. True), sn_NewID = (\<lambda>k. ''id-'' @ k)\<rparr>"

definition demo_solve_opt :: "NamedContext gomap \<Rightarrow> Options" where
  "demo_solve_opt named = no_options
     \<lparr>bo_Inputs := no_inputs\<lparr>bi_ContextPath := ''src'', bi_DockerfilePath := ''src/Dockerfile'', bi_NamedContexts := named\<rparr>,
      bo_BuildArgs := [(''V'', ''1'')], bo_Labels := [(''l'', ''x'')], bo_NetworkMode := ''host'', bo_Allow := [''security.insecure''],
      bo_Tags := [''user/app''],
      bo_Exports := [\<lparr>ce_Type = ''docker'', ce_Attrs = [], ce_Output = None, ce_OutputDir = []\<rparr>]\<rparr>"

definition demo_local :: "string \<Rightarrow> NamedContext" where
  "demo_local p = \<lparr>nc_Path = p, nc_State = None\<rparr>"

lemma demo_solve_ok:
  "is_ok (toSolveOpt (demo_solve_env (\<lambda>p. Some True)) [(''lib'', demo_local ''../lib'')] True
     (demo_solve_opt [(''lib'', demo_local ''../lib'')]))"
  by code_simp

text \<open>The mount of the context named \<open>context\<close> has the name that a context called \<open>_context\<close> has of its own: with both,
  which of the two directories is mounted depends on the order in which the map is visited.\<close>

lemma named_contexts_collide:
  "case (loadInputs (demo_solve_env (\<lambda>p. Some True)) [(''_context'', demo_local ''a''), (''context'', demo_local ''b'')]
           (bo_Inputs (demo_solve_opt [])) (solve_start (demo_solve_env (\<lambda>p. Some True)) no_options [] []),
         loadInputs (demo_solve_env (\<lambda>p. Some True)) [(''context'', demo_local ''b''), (''_context'', demo_local ''a'')]
           (bo_Inputs (demo_solve_opt [])) (solve_start (demo_solve_env (\<lambda>p. Some True)) no_options [] [])) of
     (Inr l1, Inr l2) \<Rightarrow> mget (sv_LocalMounts (ld_so l1)) ''_context'' = Some ''b'' \<and> mget (sv_LocalMounts (ld_so l2)) ''_context'' = Some ''a''
   | _ \<Rightarrow> False"
  by code_simp

text \<open>An error after a temporary directory was made leaves the directory behind.\<close>

lemma loadInputs_leaves_directory:
  "loadInputs (demo_solve_env (\<lambda>p. if p = ''src'' then Some True else None)) [(''lib'', demo_local ''missing'')]
     ((bo_Inputs (demo_solve_opt []))\<lparr>bi_DockerfileInline := ''FROM x''\<rparr>) (solve_start (demo_solve_env (\<lambda>_. None)) no_options [] [])
   = Inl ([''/tmp/d''], SoStat ''lib'')"
  by code_simp

text \<open>Two kinds of named contexts escape the paths that the entitlements look at: a directory whose name begins with
  \<open>docker-image:\<close> is mounted though the check takes it for an image, and the directory of an OCI layout is opened though
  the check looks at the text of the reference as if it were a path.\<close>

lemma named_contexts_unchecked:
  "collectLocalPaths (\<lambda>_. False) (no_inputs\<lparr>bi_ContextPath := ''src'', bi_DockerfilePath := ''src/Dockerfile'',
       bi_NamedContexts := [(''a'', demo_local ''docker-image:/../../etc''), (''b'', demo_local ''oci-layout:///etc/layout'')]\<rparr>)
     = [''src'', ''src/Dockerfile'', ''oci-layout:///etc/layout''] \<and>
   (case loadInputs (demo_solve_env (\<lambda>p. Some True))
        [(''a'', demo_local ''docker-image:/../../etc''), (''b'', demo_local ''oci-layout:///etc/layout'')]
        (bo_Inputs (demo_solve_opt [])) (solve_start (demo_solve_env (\<lambda>p. Some True)) no_options [] []) of
      Inl _ \<Rightarrow> False
    | Inr l \<Rightarrow> mget (sv_LocalMounts (ld_so l)) ''a'' = Some ''docker-image:/../../etc'' \<and>
        mget (sv_OCIStores (ld_so l)) ''id-b'' = Some ''/etc/layout'')"
  by code_simp

section \<open>Properties\<close>

text \<open>C24 (toSolveOpt_args): the request carries every build argument and label of the options, and of the proxy
  settings of the node exactly those that no build argument overrides; it carries no others.\<close>

theorem toSolveOpt_args:
  assumes "toSolveOpt env order multiDriver opt = Inr (so, opt', rm)"
    and "wf_map (bo_BuildArgs opt)" and "wf_map (sn_ProxyConfig env)" and "wf_map (bo_Labels opt)"
  shows "mget (sv_FrontendAttrs so) (''build-arg:'' @ k) =
      (case mget (bo_BuildArgs opt) k of Some v \<Rightarrow> Some v | None \<Rightarrow> mget (sn_ProxyConfig env) k) \<and>
    mget (sv_FrontendAttrs so) (''label:'' @ k) = mget (bo_Labels opt) k"
proof -
  obtain attrs es l so1 where a: "solve_attests env opt (first_attrs multiDriver opt) = Inr attrs"
      and l: "loadInputs env order (bo_Inputs opt) (solve_start env opt attrs es) = Inr l"
      and so1: "sv_FrontendAttrs so1 = sv_FrontendAttrs (ld_so l)" and so: "last_attrs env opt so1 = Inr so"
    by (rule toSolveOpt_steps [OF assms(1)])
  have "mget (sv_FrontendAttrs so1) (''build-arg:'' @ k) = None" "mget (sv_FrontendAttrs so1) (''label:'' @ k) = None"
    unfolding so1 by (rule toSolveOpt_fresh [OF a l]; simp add: load_key_def)+
  then show ?thesis
    using last_attrs_get [OF so, of "''build-arg:'' @ k"] last_attrs_get [OF so, of "''label:'' @ k"]
      option_attrs_args [OF assms(2-4), of "sv_FrontendAttrs so1" k] by (simp split: option.splits)
qed

theorem toSolveOpt_args_witness:
  "\<exists>so. fst (projr (toSolveOpt (demo_solve_env (\<lambda>p. Some True)) [(''lib'', demo_local ''../lib'')] True
       (demo_solve_opt [(''lib'', demo_local ''../lib'')]))) = so \<and>
     mget (sv_FrontendAttrs so) (''build-arg:'' @ ''V'') = Some ''1'' \<and> mget (sv_FrontendAttrs so) (''build-arg:'' @ ''HTTP_PROXY'') = Some ''p'' \<and>
     mget (sv_FrontendAttrs so) (''label:'' @ ''l'') = Some ''x''"
proof -
  let ?opt = "demo_solve_opt [(''lib'', demo_local ''../lib'')]"
  obtain so opt' rm where t: "toSolveOpt (demo_solve_env (\<lambda>p. Some True)) [(''lib'', demo_local ''../lib'')] True ?opt = Inr (so, opt', rm)"
    using demo_solve_ok by (auto simp: is_ok_iff)
  have wf: "wf_map (bo_BuildArgs ?opt)" "wf_map (sn_ProxyConfig (demo_solve_env (\<lambda>p. Some True)))" "wf_map (bo_Labels ?opt)"
    by code_simp+
  have g: "mget (bo_BuildArgs ?opt) ''V'' = Some ''1''" "mget (bo_BuildArgs ?opt) ''HTTP_PROXY'' = None"
    "mget (sn_ProxyConfig (demo_solve_env (\<lambda>p. Some True))) ''HTTP_PROXY'' = Some ''p''" "mget (bo_Labels ?opt) ''l'' = Some ''x''" by code_simp+
  show ?thesis
    using toSolveOpt_args [OF t wf, of "''V''"] toSolveOpt_args [OF t wf, of "''HTTP_PROXY''"] toSolveOpt_args [OF t wf, of "''l''"] t g
    by simp
qed

text \<open>C23 (toSolveOpt_privileges): the request is allowed the entitlements of the options, and host networking when the options
  ask for that network mode, and no others; any other custom network is refused.\<close>

theorem toSolveOpt_privileges:
  assumes "toSolveOpt env order multiDriver opt = Inr (so, opt', rm)"
  shows "sv_AllowedEntitlements so = bo_Allow opt @ (if bo_NetworkMode opt = ''host'' then [''network.host''] else []) \<and>
    bo_NetworkMode opt \<in> {[], ''default'', ''none'', ''host''}"
proof -
  obtain attrs es l so1 where l: "loadInputs env order (bo_Inputs opt) (solve_start env opt attrs es) = Inr l"
      and so1: "sv_AllowedEntitlements so1 = sv_AllowedEntitlements (ld_so l)" and so: "last_attrs env opt so1 = Inr so"
    by (rule toSolveOpt_steps [OF assms])
  have "sv_AllowedEntitlements (ld_so l) = bo_Allow opt"
    using loadInputs_keeps [OF l] by (simp add: kept_def solve_start_def)
  then show ?thesis using last_attrs_rest(1,2) [OF so] so1 by simp
qed

theorem toSolveOpt_privileges_witness:
  "sv_AllowedEntitlements (fst (projr (toSolveOpt (demo_solve_env (\<lambda>p. Some True)) [(''lib'', demo_local ''../lib'')] True
     (demo_solve_opt [(''lib'', demo_local ''../lib'')])))) = [''security.insecure'', ''network.host'']"
proof -
  obtain so opt' rm where t: "toSolveOpt (demo_solve_env (\<lambda>p. Some True)) [(''lib'', demo_local ''../lib'')] True
      (demo_solve_opt [(''lib'', demo_local ''../lib'')]) = Inr (so, opt', rm)"
    using demo_solve_ok by (auto simp: is_ok_iff)
  from toSolveOpt_privileges [OF t] t show ?thesis by (simp add: demo_solve_opt_def)
qed

text \<open>C25 (toSolveOpt_exports): no export of a request is the placeholder that turns exporting off; a docker export has a writer;
  with the docker driver no export is left for the image exporter; images and archives bear the names that the
  tags parse to, and without tags an image that is pushed has a name of its own.\<close>

theorem toSolveOpt_exports:
  assumes "toSolveOpt env order multiDriver opt = Inr (so, opt', rm)" and "e \<in> set (sv_Exports so)"
  shows "ce_Type e \<noteq> ''cacheonly'' \<and> (ce_Type e = ''docker'' \<longrightarrow> ce_Output e \<noteq> None) \<and>
    (sn_moby env \<longrightarrow> ce_Type e \<noteq> ''image'') \<and>
    (bo_Tags opt \<noteq> [] \<and> ce_Type e \<in> {''image'', ''oci'', ''docker''} \<longrightarrow>
       (\<exists>rs. map (sn_parseRef env) (bo_Tags opt) = map Some rs \<and> mstr (ce_Attrs e) ''name'' = join '','' rs)) \<and>
    (bo_Tags opt = [] \<and> ce_Type e = ''image'' \<and> pushes e \<longrightarrow> mstr (ce_Attrs e) ''name'' \<noteq> [])"
proof -
  obtain attrs es l so1 where l: "loadInputs env order (bo_Inputs opt) (solve_start env opt attrs es) = Inr l"
      and so1: "sv_Exports so1 = sv_Exports (ld_so l)" and so: "last_attrs env opt so1 = Inr so" and es: "solve_exports env opt = Inr es"
    by (rule toSolveOpt_steps [OF assms(1)])
  have "sv_Exports so = es" using loadInputs_keeps [OF l] last_attrs_rest(4) [OF so] so1 by (simp add: kept_def solve_start_def)
  with es obtain es0 es1 where es1: "name_exports env (bo_Tags opt) es0 = Inr es1"
      "list_all2 (\<lambda>x y. set_export env opt x = Inr y) (filter (\<lambda>e. ce_Type e \<noteq> ''cacheonly'') es1) (sv_Exports so)"
    unfolding solve_exports_def rbind_Inr_iff rmap_Inr_iff by blast
  then obtain e1 where e1: "e1 \<in> set es1" "ce_Type e1 \<noteq> ''cacheonly''" "set_export env opt e1 = Inr e"
    using list_all2_in2 [OF es1(2) assms(2)] by auto
  note n = name_exports_ok [OF es1(1) e1(1)] and x = set_export_ok [OF e1(3,2)]
  have "mstr (ce_Attrs e) ''name'' \<noteq> []" if "bo_Tags opt = []" "ce_Type e = ''image''" "pushes e"
    using that n(2) x(1,2,4) by (simp add: pushes_def)
  moreover have "\<exists>rs. map (sn_parseRef env) (bo_Tags opt) = map Some rs \<and> mstr (ce_Attrs e) ''name'' = join '','' rs"
    if "bo_Tags opt \<noteq> []" "ce_Type e \<in> {''image'', ''oci'', ''docker''}"
  proof -
    have "ce_Type e1 \<in> {''image'', ''oci'', ''docker''}" using that(2) x(4-6) by blast
    from n(1) [OF that(1) this] show ?thesis by (simp only: x(1))
  qed
  ultimately show ?thesis using x(3-5) by blast
qed

theorem toSolveOpt_exports_witness:
  "\<exists>so e. fst (projr (toSolveOpt (demo_solve_env (\<lambda>p. Some True)) [(''lib'', demo_local ''../lib'')] True
       (demo_solve_opt [(''lib'', demo_local ''../lib'')]))) = so \<and>
     e \<in> set (sv_Exports so) \<and> ce_Type e = ''docker'' \<and> ce_Output e \<noteq> None \<and> mstr (ce_Attrs e) ''name'' = ''user/app''"
proof -
  let ?opt = "demo_solve_opt [(''lib'', demo_local ''../lib'')]"
  obtain so opt' rm where t: "toSolveOpt (demo_solve_env (\<lambda>p. Some True)) [(''lib'', demo_local ''../lib'')] True ?opt = Inr (so, opt', rm)"
    using demo_solve_ok by (auto simp: is_ok_iff)
  have "(case toSolveOpt (demo_solve_env (\<lambda>p. Some True)) [(''lib'', demo_local ''../lib'')] True ?opt of
      Inr (so, _) \<Rightarrow> map ce_Type (sv_Exports so) = [''docker''] | _ \<Rightarrow> False)" by code_simp
  then obtain e where e: "e \<in> set (sv_Exports so)" "ce_Type e = ''docker''" using t by auto
  from toSolveOpt_exports [OF t e(1)] e(2) have "ce_Output e \<noteq> None" "mstr (ce_Attrs e) ''name'' = ''user/app''"
    by (auto simp: demo_solve_opt_def demo_solve_env_def)
  with e t show ?thesis by auto
qed

text \<open>C22 (mounts_checked): where no directory of the host bears a name that the check of the entitlements takes for
  something else, every directory of the host that a request mounts is a temporary directory that is removed with it, a path
  that the check of the entitlements collects, or the directory of one.\<close>

theorem mounts_checked:
  assumes "toSolveOpt env order multiDriver opt = Inr (so, opt', rm)"
    and "set order \<subseteq> set (bi_NamedContexts (bo_Inputs opt))"
    and "\<And>p. sn_Stat env p = Some True \<Longrightarrow> isLocalPath (sn_git env) p = Some p"
    and "isLocalPath (sn_git env) (bi_DockerfilePath (bo_Inputs opt)) = Some (bi_DockerfilePath (bo_Inputs opt))"
    and "mget (sv_LocalMounts so) name = Some dir"
  shows "dir \<in> set rm \<or> (\<exists>p \<in> set (collectLocalPaths (sn_git env) (bo_Inputs opt)). dir = p \<or> dir = path_Dir p)"
proof -
  let ?C = "set (collectLocalPaths (sn_git env) (bo_Inputs opt))"
  obtain attrs es l so1 where l: "loadInputs env order (bo_Inputs opt) (solve_start env opt attrs es) = Inr l" "rm = ld_remove l"
      and so1: "sv_LocalMounts so1 = sv_LocalMounts (ld_so l)" and so: "last_attrs env opt so1 = Inr so"
    by (rule toSolveOpt_steps [OF assms(1)])
  have "mounts_in (?C \<union> path_Dir ` ?C) l"
  proof (rule loadInputs_mounts [OF l(1)])
    show "sv_LocalMounts (solve_start env opt attrs es) = []" by (simp add: solve_start_def)
  next
    assume "bi_ContextState (bo_Inputs opt) = None" "IsLocalDir env (bi_ContextPath (bo_Inputs opt))"
    then show "bi_ContextPath (bo_Inputs opt) \<in> ?C \<union> path_Dir ` ?C"
      using assms(3) by (simp add: collectLocalPaths_def opt_list_def IsLocalDir_def)
  next
    assume "bi_ContextState (bo_Inputs opt) = None"
    then have "bi_DockerfilePath (bo_Inputs opt) \<in> ?C" using assms(4) by (simp add: collectLocalPaths_def opt_list_def)
    then show "path_Dir (bi_DockerfilePath (bo_Inputs opt)) \<in> ?C \<union> path_Dir ` ?C" by blast
  next
    fix k v
    assume kv: "(k, v) \<in> set order" "nc_State v = None" "sn_Stat env (nc_Path v) = Some True"
    then have "nc_Path v \<in> ?C" using assms(2,3) by (fastforce simp: collectLocalPaths_def opt_list_def)
    then show "nc_Path v \<in> ?C \<union> path_Dir ` ?C" by blast
  qed
  then show ?thesis using last_attrs_rest(3) [OF so] so1 assms(5) l(2) by (auto simp: mounts_in_def)
qed

theorem mounts_checked_witness:
  "\<exists>so opt' rm. toSolveOpt (demo_solve_env (\<lambda>p. if p \<in> {''src'', ''../lib''} then Some True else None)) [(''lib'', demo_local ''../lib'')] True
       (demo_solve_opt [(''lib'', demo_local ''../lib'')]) = Inr (so, opt', rm) \<and>
     mget (sv_LocalMounts so) ''lib'' = Some ''../lib'' \<and>
     ''../lib'' \<in> set (collectLocalPaths (\<lambda>_. False) (bo_Inputs (demo_solve_opt [(''lib'', demo_local ''../lib'')])))"
proof -
  let ?env = "demo_solve_env (\<lambda>p. if p \<in> {''src'', ''../lib''} then Some True else None)" and ?opt = "demo_solve_opt [(''lib'', demo_local ''../lib'')]"
  have "(case toSolveOpt ?env [(''lib'', demo_local ''../lib'')] True ?opt of
      Inr (so, _, rm) \<Rightarrow> rm = [] \<and> mget (sv_LocalMounts so) ''lib'' = Some ''../lib'' | _ \<Rightarrow> False)" by code_simp
  then obtain so opt' where t: "toSolveOpt ?env [(''lib'', demo_local ''../lib'')] True ?opt = Inr (so, opt', [])"
      "mget (sv_LocalMounts so) ''lib'' = Some ''../lib''"
    by (cases "toSolveOpt ?env [(''lib'', demo_local ''../lib'')] True ?opt") auto
  have g: "sn_git ?env = (\<lambda>_. False)" "sn_Stat ?env = (\<lambda>p. if p \<in> {''src'', ''../lib''} then Some True else None)"
    by (simp_all add: demo_solve_env_def)
  have s: "isLocalPath (sn_git ?env) p = Some p" if "sn_Stat ?env p = Some True" for p
    using that unfolding g by (auto simp: isLocalPath_def IsRemoteURL_def isHTTPURL_def has_prefix_def trim_prefix_def split: if_splits)
  have o: "set [(''lib'', demo_local ''../lib'')] \<subseteq> set (bi_NamedContexts (bo_Inputs ?opt))"
    "isLocalPath (sn_git ?env) (bi_DockerfilePath (bo_Inputs ?opt)) = Some (bi_DockerfilePath (bo_Inputs ?opt))"
    by (simp add: demo_solve_opt_def) code_simp
  have "''../lib'' \<in> set [] \<or> (\<exists>p \<in> set (collectLocalPaths (sn_git ?env) (bo_Inputs ?opt)). ''../lib'' = p \<or> ''../lib'' = path_Dir p)"
    by (rule mounts_checked [OF t(1) o(1) s o(2) t(2)])
  moreover have "collectLocalPaths (sn_git ?env) (bo_Inputs ?opt) = [''src'', ''src/Dockerfile'', ''../lib'']" by code_simp
  ultimately show ?thesis using t g(1) by auto
qed

end
