(* ===== verification/BakeBuild.thy ===== *)
theory BakeBuild
  imports SolveOptSpec Platform
begin

text \<open>
  From the targets of bake to the options of builds (\<open>bake/bake.go\<close>: \<open>toBuildOpt\<close>, \<open>updateContext\<close>, \<open>TargetsToBuildOpt\<close>) with the
  conversions of \<open>controller/pb\<close> it uses, and the part of \<open>commands/bake.go\<close> between reading the targets and building them.
  Files of the host, the environment, the parsers of libraries and the order in which the map of annotations is
  visited are parameters in \<open>bake_env\<close>.  Converting
  the outputs opens files: an error carries those that were opened before it.
\<close>

datatype dest_stat = DestMissing | DestError | DestDir | DestFile

record bake_env =
  bv_git :: "string \<Rightarrow> bool"
  bv_gitSSH :: "string \<Rightarrow> bool"
  bv_cwd :: "string option"
  bv_host :: host
  bv_Stat :: "string \<Rightarrow> dest_stat"
  bv_console :: bool
  bv_Create :: "string \<Rightarrow> bool"
  bv_env :: "string \<Rightarrow> string option"
  bv_aws :: "aws_credentials option"
  bv_MemBytes :: "string \<Rightarrow> int option"
  bv_secretStore :: "Secret list \<Rightarrow> bool"
  bv_sshAgent :: "SSH list \<Rightarrow> bool"
  bv_ulimits :: "string list \<Rightarrow> string list option"
  bv_sourcePolicy :: "unit + string option"
  bv_order :: "annotations \<Rightarrow> annotations"

datatype bo_error =
    BoStdinContext
  | BoStdinDockerfile
  | BoGetwd
  | BoRemoteDockerfile
  | BoShmSize string
  | BoPlatform platform_error
  | BoSecrets
  | BoSSH
  | BoFlag flag_error
  | BoNoType
  | BoNoDest string
  | BoDestStdout string
  | BoDestInvalid string
  | BoDestIsFile string
  | BoDestIsDir string
  | BoStdoutTwice
  | BoConsole string
  | BoOpen string
  | BoPolicy
  | BoUlimit
  | BoPanicCallFunc
  | BoEntitlements ent_error

section \<open>Conversions of the controller\<close>

definition create_attest :: "pb_Attest \<Rightarrow> string option gomap \<Rightarrow> string option gomap" where
  "create_attest a result =
     (if mget result (pa_Type a) \<noteq> None then result
      else mset_key (pa_Type a) (if pa_Disabled a then None else Some (pa_Attrs a)) result)"

definition CreateAttestations :: "pb_Attest list \<Rightarrow> string option gomap" where
  "CreateAttestations attests = fold create_attest attests []"

definition CreateCaches :: "CacheOptionsEntry list \<Rightarrow> CacheOptionsEntry list" where
  "CreateCaches entries = map (\<lambda>e. \<lparr>co_Type = co_Type e, co_Attrs = Some (mput_all (mrange (co_Attrs e)) [])\<rparr>) entries"

text \<open>The loop over the outputs: exports, local paths, whether the standard output is taken, and the files opened.\<close>

record export_state =
  xs_outs :: "ClientExport list"
  xs_paths :: "string list"
  xs_stdout :: bool
  xs_opened :: "string list"

text \<open>The export of an entry before its destination is looked at, and whether it is written to a file or a directory.\<close>

definition export_kind :: "ExportEntry \<Rightarrow> ClientExport \<times> bool \<times> bool" where
  "export_kind entry =
     (let t = ee_Type entry; attrs = mput_all (mrange (ee_Attrs entry)) [];
          out = \<lparr>ce_Type = t, ce_Attrs = attrs, ce_Output = None, ce_OutputDir = []\<rparr>
      in if t = ''local'' then (out, False, True)
         else if t = ''tar'' then (out, True, False)
         else if t = ''oci'' \<or> t = ''docker'' then
           (let tar = (case parse_bool (mstr attrs ''tar'') of None \<Rightarrow> True | Some b \<Rightarrow> b) in (out, tar, \<not> tar))
         else if t = ''registry'' then (out\<lparr>ce_Type := ''image'', ce_Attrs := mset_key ''push'' ''true'' attrs\<rparr>, False, False)
         else (out, False, False))"

definition export_dir :: "bake_env \<Rightarrow> string \<Rightarrow> ClientExport \<Rightarrow> bo_error + ClientExport" where
  "export_dir env dest out =
     (if dest = [] then Inl (BoNoDest (ce_Type out))
      else if dest = ''-'' then Inl (BoDestStdout (ce_Type out))
      else case bv_Stat env dest of
          DestError \<Rightarrow> Inl (BoDestInvalid dest)
        | DestFile \<Rightarrow> Inl (BoDestIsFile dest)
        | _ \<Rightarrow> Inr (out\<lparr>ce_OutputDir := dest\<rparr>))"

definition export_file :: "bake_env \<Rightarrow> string \<Rightarrow> bool \<Rightarrow> ClientExport \<Rightarrow> bo_error + ClientExport" where
  "export_file env dest stdoutUsed out =
     (let dest = (if dest = [] \<and> ce_Type out \<noteq> ''docker'' then ''-'' else dest)
      in if dest = ''-'' then
           (if stdoutUsed then Inl BoStdoutTwice
            else if bv_console env then Inl (BoConsole (ce_Type out))
            else Inr (out\<lparr>ce_Output := Some OutStdout\<rparr>))
         else if dest = [] then Inr out
         else case bv_Stat env dest of
             DestError \<Rightarrow> Inl (BoDestInvalid dest)
           | DestDir \<Rightarrow> Inl (BoDestIsDir dest)
           | _ \<Rightarrow> if bv_Create env dest then Inr (out\<lparr>ce_Output := Some (OutFile dest)\<rparr>) else Inl (BoOpen dest))"

definition out_files :: "ClientExport \<Rightarrow> string list" where
  "out_files e = (case ce_Output e of Some (OutFile f) \<Rightarrow> [f] | _ \<Rightarrow> [])"

definition out_dirs :: "ClientExport \<Rightarrow> string list" where
  "out_dirs e = (if ce_OutputDir e = [] then [] else [ce_OutputDir e])"

definition create_export :: "bake_env \<Rightarrow> ExportEntry \<Rightarrow> export_state \<Rightarrow> (string list \<times> bo_error) + export_state" where
  "create_export env entry st =
     (if ee_Type entry = [] then Inl (xs_opened st, BoNoType)
      else let (out, supportFile, supportDir) = export_kind entry
      in rbind (map_err (\<lambda>e. (xs_opened st, e)) (if supportDir then export_dir env (ee_Destination entry) out else Inr out)) (\<lambda>out.
         rbind (map_err (\<lambda>e. (xs_opened st, e)) (if supportFile then export_file env (ee_Destination entry) (xs_stdout st) out else Inr out)) (\<lambda>out.
         Inr \<lparr>xs_outs = xs_outs st @ [out], xs_paths = xs_paths st @ out_dirs out @ out_files out,
              xs_stdout = (xs_stdout st \<or> ce_Output out = Some OutStdout), xs_opened = xs_opened st @ out_files out\<rparr>)))"

definition CreateExports :: "bake_env \<Rightarrow> ExportEntry list \<Rightarrow> (string list \<times> bo_error) + export_state" where
  "CreateExports env entries = rfold (create_export env) entries \<lparr>xs_outs = [], xs_paths = [], xs_stdout = False, xs_opened = []\<rparr>"

text \<open>The printed key of an annotation, with the printed platform.\<close>

definition FormatAll :: "platform \<Rightarrow> string" where
  "FormatAll p =
     (if p_OS p = [] then ''unknown''
      else if p_OSVersion p \<noteq> [] then path_join [p_OS p @ ''('' @ p_OSVersion p @ '')'', p_Architecture p, p_Variant p]
      else path_join [p_OS p, p_Architecture p, p_Variant p])"

definition AnnotationKey_String :: "AnnotationKey \<Rightarrow> string" where
  "AnnotationKey_String k =
     (if ak_Type k = [] then ''annotation.''
      else if ak_Type k \<in> {''manifest'', ''manifest-descriptor''} then
        ''annotation-'' @ ak_Type k @ (case ak_Platform k of None \<Rightarrow> [] | Some (_, p) \<Rightarrow> ''['' @ FormatAll p @ '']'') @ ''.''
      else ''annotation-'' @ ak_Type k @ ''.'') @ ak_Key k"

definition annotate :: "annotations \<Rightarrow> ClientExport \<Rightarrow> ClientExport" where
  "annotate annotations e = e\<lparr>ce_Attrs := mput_all (map (\<lambda>(k, v). (AnnotationKey_String k, v)) annotations) (ce_Attrs e)\<rparr>"

section \<open>Inputs of a target\<close>

record Input =
  in_State :: bool
  in_URL :: string

definition toNamedContexts :: "string gomap \<Rightarrow> NamedContext gomap" where
  "toNamedContexts m = map (\<lambda>(k, v). (k, \<lparr>nc_Path = v, nc_State = None\<rparr>)) m"

definition update_named :: "(string \<Rightarrow> bool) \<Rightarrow> string \<Rightarrow> NamedContext \<Rightarrow> NamedContext" where
  "update_named git url v =
     (let p = nc_Path v; v' = (if p = ''.'' then \<lparr>nc_Path = url, nc_State = None\<rparr> else v)
      in if has_prefix ''cwd://'' p \<or> has_prefix ''target:'' p \<or> has_prefix ''docker-image:'' p then v'
         else if IsRemoteURL git p then v'
         else \<lparr>nc_Path = [], nc_State = Some (LlbCopy p False)\<rparr>)"

definition updateContext :: "(string \<Rightarrow> bool) \<Rightarrow> Input option \<Rightarrow> Inputs \<Rightarrow> Inputs" where
  "updateContext git inp t =
     (case inp of
        None \<Rightarrow> t
      | Some i \<Rightarrow>
          if \<not> in_State i then t
          else
            let t = t\<lparr>bi_NamedContexts := map (\<lambda>(k, v). (k, update_named git (in_URL i) v)) (bi_NamedContexts t)\<rparr>;
                cp = bi_ContextPath t
            in if cp = ''.'' then t\<lparr>bi_ContextPath := in_URL i\<rparr>
               else if has_prefix ''cwd://'' cp \<or> IsRemoteURL git cp then t
               else t\<lparr>bi_ContextState := Some (LlbCopy cp True)\<rparr>)"

definition isRemoteContext :: "(string \<Rightarrow> bool) \<Rightarrow> Inputs \<Rightarrow> Input option \<Rightarrow> bool" where
  "isRemoteContext git t inp \<longleftrightarrow> IsRemoteURL git (bi_ContextPath t) \<or>
     (case inp of None \<Rightarrow> False | Some i \<Rightarrow> IsRemoteURL git (in_URL i) \<and> \<not> has_prefix ''cwd://'' (bi_ContextPath t))"

definition clean_cwd :: "string \<Rightarrow> string" where
  "clean_cwd p = path_clean (trim_prefix ''cwd://'' p)"

text \<open>The inputs before the context is updated.\<close>

definition start_inputs :: "bake_env \<Rightarrow> Target \<Rightarrow> Inputs" where
  "start_inputs env t =
     (let contextPath = (case t_Context t of None \<Rightarrow> ''.'' | Some c \<Rightarrow> c);
          contextPath = (if has_prefix ''cwd://'' contextPath \<or> IsRemoteURL (bv_git env) contextPath then contextPath else path_clean contextPath);
          dockerfilePath = (case t_Dockerfile t of None \<Rightarrow> ''Dockerfile'' | Some d \<Rightarrow> d);
          dockerfilePath = (if has_prefix ''cwd://'' dockerfilePath then dockerfilePath else path_clean dockerfilePath)
      in no_inputs\<lparr>bi_ContextPath := contextPath, bi_DockerfilePath := dockerfilePath,
           bi_NamedContexts := toNamedContexts (mrange (t_Contexts t)),
           bi_DockerfileInline := (case t_DockerfileInline t of None \<Rightarrow> [] | Some s \<Rightarrow> s)\<rparr>)"

definition dockerfile_path :: "bake_env \<Rightarrow> Input option \<Rightarrow> Inputs \<Rightarrow> bo_error + Inputs" where
  "dockerfile_path env inp bi =
     (let df = bi_DockerfilePath bi; cp = bi_ContextPath bi
      in if has_prefix ''cwd://'' df then
           (case filepath_Abs (bv_cwd env) (clean_cwd df) of None \<Rightarrow> Inl BoGetwd | Some p \<Rightarrow> Inr (bi\<lparr>bi_DockerfilePath := p\<rparr>))
         else if \<not> IsRemoteURL (bv_git env) df \<and> has_prefix ''cwd://'' cp \<and>
                 (case inp of None \<Rightarrow> False | Some i \<Rightarrow> IsRemoteURL (bv_git env) (in_URL i)) \<and>
                 bv_Stat env (path_join [clean_cwd cp, df]) \<in> {DestDir, DestFile}
         then Inl BoRemoteDockerfile
         else Inr bi)"

definition local_inputs :: "bake_env \<Rightarrow> Inputs \<Rightarrow> Inputs" where
  "local_inputs env bi =
     (let bi = (if has_prefix ''cwd://'' (bi_ContextPath bi) then bi\<lparr>bi_ContextPath := clean_cwd (bi_ContextPath bi)\<rparr> else bi);
          bi = (if \<not> IsRemoteURL (bv_git env) (bi_ContextPath bi) \<and> bi_ContextState bi = None \<and> \<not> is_abs (bi_DockerfilePath bi)
                then bi\<lparr>bi_DockerfilePath := path_join [bi_ContextPath bi, bi_DockerfilePath bi]\<rparr> else bi)
      in bi\<lparr>bi_NamedContexts := map (\<lambda>(k, v). (k, if has_prefix ''cwd://'' (nc_Path v)
             then \<lparr>nc_Path = clean_cwd (nc_Path v), nc_State = None\<rparr> else v)) (bi_NamedContexts bi)\<rparr>)"

definition target_inputs :: "bake_env \<Rightarrow> Input option \<Rightarrow> Target \<Rightarrow> bo_error + Inputs" where
  "target_inputs env inp t =
     (if t_Context t = Some ''-'' then Inl BoStdinContext
      else if t_Dockerfile t = Some ''-'' then Inl BoStdinDockerfile
      else rbind (dockerfile_path env inp (updateContext (bv_git env) inp (start_inputs env t))) (\<lambda>bi. Inr (local_inputs env bi)))"

section \<open>Options of a target\<close>

definition present :: "string option gomap option \<Rightarrow> string gomap" where
  "present m = List.map_filter (\<lambda>(k, v). map_option (\<lambda>w. (k, w)) v) (mrange m)"

definition git_secrets :: "bake_env \<Rightarrow> Inputs \<Rightarrow> Input option \<Rightarrow> Secret list" where
  "git_secrets env bi inp =
     (if \<not> isRemoteContext (bv_git env) bi inp then []
      else (if bv_env env ''BUILDX_BAKE_GIT_AUTH_TOKEN'' \<noteq> None
            then [\<lparr>se_ID = ''GIT_AUTH_TOKEN'', se_FilePath = [], se_Env = ''BUILDX_BAKE_GIT_AUTH_TOKEN''\<rparr>] else []) @
           (if bv_env env ''BUILDX_BAKE_GIT_AUTH_HEADER'' \<noteq> None
            then [\<lparr>se_ID = ''GIT_AUTH_HEADER'', se_FilePath = [], se_Env = ''BUILDX_BAKE_GIT_AUTH_HEADER''\<rparr>] else []))"

definition target_ssh :: "bake_env \<Rightarrow> Inputs \<Rightarrow> Input option \<Rightarrow> Target \<Rightarrow> SSH list" where
  "target_ssh env bi inp t =
     (if elems (t_SSH t) = [] \<and> bv_gitSSH env (bi_ContextPath bi) \<or> (case inp of None \<Rightarrow> False | Some i \<Rightarrow> bv_gitSSH env (in_URL i))
      then [\<lparr>ss_ID = ''default'', ss_Paths = []\<rparr>] else elems (t_SSH t))"

definition target_caches :: "bake_env \<Rightarrow> CacheOptionsEntry list option \<Rightarrow> bo_error + CacheOptionsEntry list" where
  "target_caches env cs =
     (case cs of None \<Rightarrow> Inr [] | Some l \<Rightarrow> rbind (map_err BoFlag (CacheOptions_ToPB (bv_env env) (bv_aws env) l)) (\<lambda>r. Inr (CreateCaches r)))"

text \<open>The settings that are copied.\<close>

definition plain_options :: "Target \<Rightarrow> Inputs \<Rightarrow> int \<Rightarrow> platform list \<Rightarrow> Options" where
  "plain_options t bi shm ps = no_options
     \<lparr>bo_Inputs := bi, bo_Tags := elems (t_Tags t), bo_BuildArgs := present (t_Args t), bo_Labels := present (t_Labels t),
      bo_NoCache := (t_NoCache t = Some True), bo_NoCacheFilter := elems (t_NoCacheFilter t), bo_Pull := (t_Pull t = Some True),
      bo_NetworkMode := (case t_NetworkMode t of None \<Rightarrow> [] | Some m \<Rightarrow> m), bo_Linked := t_linked t, bo_ShmSize := shm,
      bo_Platforms := ps, bo_Target := (case t_Target t of None \<Rightarrow> [] | Some s \<Rightarrow> s),
      bo_CallFunc := map_option (\<lambda>n. \<lparr>cf_Name = n, cf_Format = [], cf_IgnoreStatus = False\<rparr>) (t_Call t)\<rparr>"

text \<open>The rest of the conversion once the outputs are opened.\<close>

definition finish_options :: "bake_env \<Rightarrow> Target \<Rightarrow> Options \<Rightarrow> export_state \<Rightarrow> bo_error + Options" where
  "finish_options env t bo x =
     rbind (map_err BoFlag (ParseAnnotations (bv_host env) (elems (t_Annotations t)))) (\<lambda>annotations.
     rbind (case bv_sourcePolicy env of Inl _ \<Rightarrow> Inl BoPolicy | Inr p \<Rightarrow> Inr p) (\<lambda>policy.
     rbind (case bv_ulimits env (elems (t_Ulimits t)) of None \<Rightarrow> Inl BoUlimit | Some u \<Rightarrow> Inr u) (\<lambda>ulimits.
     Inr (bo\<lparr>bo_Exports := map (annotate (bv_order env annotations)) (xs_outs x), bo_ExportsLocalPathsTemporary := xs_paths x,
             bo_Attests := CreateAttestations (map Attest_ToPB (elems (t_Attest t))), bo_SourcePolicy := policy,
             bo_Ulimits := ulimits, bo_Allow := elems (t_Entitlements t)\<rparr>))))"

definition no_files :: "bo_error + 'a \<Rightarrow> (string list \<times> bo_error) + 'a" where
  "no_files r = map_err (\<lambda>e. ([], e)) r"

text \<open>The options, the target with its context as it was resolved, and the files that were opened.\<close>

definition toBuildOpt :: "bake_env \<Rightarrow> heap \<Rightarrow> Input option \<Rightarrow> Target \<Rightarrow> (string list \<times> bo_error) + (Options \<times> Target \<times> string list)" where
  "toBuildOpt env hp inp t =
     rbind (no_files (target_inputs env inp t)) (\<lambda>bi.
     rbind (no_files (case t_ShmSize t of None \<Rightarrow> Inr 0 | Some s \<Rightarrow> (case bv_MemBytes env s of None \<Rightarrow> Inl (BoShmSize s) | Some n \<Rightarrow> Inr n))) (\<lambda>shm.
     rbind (no_files (map_err BoPlatform (platforms_Parse (bv_host env) (elems (t_Platforms t))))) (\<lambda>ps.
       let secrets = elems (Secrets_Normalize (Some (elems (t_Secrets t) @ git_secrets env bi inp)));
           ssh = target_ssh env bi inp t
       in rbind (no_files (if bv_secretStore env secrets then Inr () else Inl BoSecrets)) (\<lambda>_.
          rbind (no_files (if bv_sshAgent env ssh then Inr () else Inl BoSSH)) (\<lambda>_.
          rbind (no_files (target_caches env (t_CacheFrom t))) (\<lambda>cacheFrom.
          rbind (no_files (target_caches env (t_CacheTo t))) (\<lambda>cacheTo.
          rbind (CreateExports env (map (\<lambda>r. hp ! r) (elems (t_Outputs t)))) (\<lambda>x.
          rbind (map_err (\<lambda>e. (xs_opened x, e))
            (finish_options env t ((plain_options t bi shm ps)\<lparr>bo_SecretSpecs := secrets, bo_SSHSpecs := ssh, bo_CacheFrom := cacheFrom,
               bo_CacheTo := cacheTo, bo_Session := [AtSecrets secrets, AtSSH ssh]\<rparr>) x)) (\<lambda>bo.
          Inr (bo, t\<lparr>t_Context := Some (bi_ContextPath bi)\<rparr>, xs_opened x))))))))))"

text \<open>The options of all targets, in the order in which the map is visited, with the files opened for all of them.\<close>

fun targets_to_opts ::
  "bake_env \<Rightarrow> heap \<Rightarrow> Input option \<Rightarrow> (string \<times> Target) list \<Rightarrow> string list \<Rightarrow> (string list \<times> bo_error) + ((string \<times> Options) list \<times> string list)" where
  "targets_to_opts env hp inp [] opened = Inr ([], opened)"
| "targets_to_opts env hp inp ((k, t) # ts) opened =
     (case toBuildOpt env hp inp t of
        Inl (o1, e) \<Rightarrow> Inl (opened @ o1, e)
      | Inr (bo, _, o1) \<Rightarrow>
          rbind (targets_to_opts env hp inp ts (opened @ o1)) (\<lambda>(m, o2).
          Inr ((k, bo\<lparr>bo_Session := bo_Session bo @ [AtAuth]\<rparr>) # m, o2)))"

definition TargetsToBuildOpt ::
  "bake_env \<Rightarrow> heap \<Rightarrow> Input option \<Rightarrow> (string \<times> Target) list \<Rightarrow> (string list \<times> bo_error) + ((string \<times> Options) list \<times> string list)" where
  "TargetsToBuildOpt env hp inp order = targets_to_opts env hp inp order []"

text \<open>The names of call functions are parsed again; the result is dereferenced without a look at whether there is one.\<close>

definition check_call :: "string \<times> Options \<Rightarrow> bo_error + (string \<times> Options)" where
  "check_call = (\<lambda>(k, bo).
     case bo_CallFunc bo of
       None \<Rightarrow> Inr (k, bo)
     | Some f \<Rightarrow>
         rbind (map_err BoFlag (ParseCallFunc (cf_Name f))) (\<lambda>r.
         case r of None \<Rightarrow> Inl BoPanicCallFunc | Some g \<Rightarrow> Inr (k, bo\<lparr>bo_CallFunc := Some (f\<lparr>cf_Name := cf_Name g\<rparr>)\<rparr>)))"

text \<open>From the targets to what the user is asked: the options to build, the missing entitlements, and the files opened on
  the way.\<close>

definition bake_prepare ::
  "bake_env \<Rightarrow> ent_host \<Rightarrow> EntitlementConf \<Rightarrow> heap \<Rightarrow> Input option \<Rightarrow> (string \<times> Target) list \<Rightarrow>
   (string list \<times> bo_error) + ((string \<times> Options) list \<times> EntitlementConf \<times> string list)" where
  "bake_prepare env host ent hp inp order =
     rbind (TargetsToBuildOpt env hp inp order) (\<lambda>(bos, opened).
     map_err (\<lambda>e. (opened, e))
       (rbind (rmap check_call bos) (\<lambda>bos.
        rbind (map_err BoEntitlements (Validate host ent (map snd bos))) (\<lambda>missing.
        Inr (bos, missing, opened)))))"

section \<open>Outputs\<close>

text \<open>The local paths are those that the exports write, and the files opened are their files.\<close>

definition exports_inv :: "export_state \<Rightarrow> bool" where
  "exports_inv st \<longleftrightarrow>
     xs_paths st = concat (map (\<lambda>e. out_dirs e @ out_files e) (xs_outs st)) \<and> xs_opened st = concat (map out_files (xs_outs st)) \<and>
     length (filter (\<lambda>e. ce_Output e = Some OutStdout) (xs_outs st)) = (if xs_stdout st then 1 else 0)"

lemma export_kind_output: "export_kind entry = (out, f, d) \<Longrightarrow> ce_Output out = None"
  by (auto simp: export_kind_def Let_def split: if_splits)

lemma export_dir_output: "export_dir env dest out = Inr out' \<Longrightarrow> ce_Output out' = ce_Output out"
  by (auto simp: export_dir_def split: if_splits dest_stat.splits)

lemma export_file_output:
  "export_file env dest used out = Inr out' \<Longrightarrow> ce_Output out \<noteq> Some OutStdout \<Longrightarrow> ce_Output out' = Some OutStdout \<Longrightarrow> \<not> used"
  by (auto simp: export_file_def Let_def split: if_splits dest_stat.splits)

lemma create_export_inv:
  assumes "create_export env entry st = Inr st'" and "exports_inv st"
  shows "exports_inv st'"
proof -
  obtain out f d where k: "export_kind entry = (out, f, d)" by (cases "export_kind entry")
  obtain o1 o2 where o1: "(if d then export_dir env (ee_Destination entry) out else Inr out) = Inr o1"
      and o2: "(if f then export_file env (ee_Destination entry) (xs_stdout st) o1 else Inr o1) = Inr o2"
      and st': "st' = \<lparr>xs_outs = xs_outs st @ [o2], xs_paths = xs_paths st @ out_dirs o2 @ out_files o2,
              xs_stdout = (xs_stdout st \<or> ce_Output o2 = Some OutStdout), xs_opened = xs_opened st @ out_files o2\<rparr>"
    using assms(1) unfolding create_export_def k by (auto simp: result_iff split: if_split_asm)
  have none: "ce_Output o1 = None" using export_kind_output [OF k] export_dir_output o1 by (auto split: if_split_asm)
  have "\<not> xs_stdout st" if "ce_Output o2 = Some OutStdout"
    using o2 none that export_file_output [of env _ "xs_stdout st" o1 o2] by (auto split: if_split_asm)
  then show ?thesis using assms(2) unfolding exports_inv_def st' by auto
qed

lemma CreateExports_inv:
  assumes "CreateExports env entries = Inr st"
  shows "exports_inv st"
proof -
  have "exports_inv st" if "rfold (create_export env) entries s0 = Inr st" "exports_inv s0" for s0
    using that by (induction entries arbitrary: s0) (auto simp: result_iff dest: create_export_inv)
  from this [OF assms [unfolded CreateExports_def]] show ?thesis by (simp add: exports_inv_def)
qed

lemma annotate_output [simp]: "out_files (annotate a e) = out_files e" "out_dirs (annotate a e) = out_dirs e"
    "ce_Output (annotate a e) = ce_Output e"
  by (simp_all add: annotate_def out_files_def out_dirs_def)

lemma set_export_output:
  assumes "set_export env opt e1 = Inr e"
  shows "set (out_files e) \<subseteq> set (out_files e1)" and "out_dirs e = out_dirs e1"
proof -
  obtain t x y where tx: "(if ce_Type e1 = ''docker'' then docker_export env opt e1 else Inr (ce_Type e1, e1)) = Inr (t, x)"
      and y: "moby_export env e1 t x = Inr y" and ey: "e = buildinfo_attr opt t y"
    using assms by (auto simp: set_export_def result_iff split: if_split_asm)
  have "ce_OutputDir x = ce_OutputDir e1" "ce_Output x = ce_Output e1 \<or> (\<exists>c. ce_Output x = Some (OutLoad c))"
    using tx by (auto simp: docker_export_def result_iff split: if_split_asm)
  moreover have "ce_OutputDir y = ce_OutputDir x" "ce_Output y = ce_Output x" using y by (auto simp: moby_export_def split: if_split_asm)
  moreover have "ce_OutputDir e = ce_OutputDir y" "ce_Output e = ce_Output y"
    by (simp_all add: ey buildinfo_attr_def put_attr_def split: option.split)
  ultimately show "set (out_files e) \<subseteq> set (out_files e1)" "out_dirs e = out_dirs e1" by (auto simp: out_files_def out_dirs_def)
qed

lemma default_exports_cases:
  "default_exports env opt = Inr es \<Longrightarrow> es = bo_Exports opt \<or> list_all (\<lambda>e. ce_Output e = None \<and> ce_OutputDir e = []) es"
  unfolding default_exports_def by (cases "bo_Exports opt"; cases "tl (bo_Exports opt)") (auto split: if_splits)

lemma default_exports_output:
  assumes "default_exports env opt = Inr es" and "e \<in> set es" and "f \<in> set (out_files e @ out_dirs e)"
  shows "e \<in> set (bo_Exports opt)"
  using default_exports_cases [OF assms(1)] assms(2,3) by (auto simp: out_files_def out_dirs_def list_all_iff)

lemma name_exports_output:
  assumes "name_exports env tags es = Inr es1" and "e1 \<in> set es1"
  shows "\<exists>e \<in> set es. out_files e1 = out_files e \<and> out_dirs e1 = out_dirs e"
  using assms by (fastforce simp: name_exports_def result_iff put_attr_def out_files_def out_dirs_def split: if_split_asm)

lemma solve_exports_output:
  assumes "solve_exports env opt = Inr es" and "e \<in> set es" and "f \<in> set (out_files e @ out_dirs e)"
  shows "\<exists>e0 \<in> set (bo_Exports opt). f \<in> set (out_files e0 @ out_dirs e0)"
proof -
  obtain es0 es1 where es0: "default_exports env opt = Inr es0" and es1: "name_exports env (bo_Tags opt) es0 = Inr es1"
      and es: "list_all2 (\<lambda>x y. set_export env opt x = Inr y) (filter (\<lambda>e. ce_Type e \<noteq> ''cacheonly'') es1) es"
    using assms(1) unfolding solve_exports_def rbind_Inr_iff rmap_Inr_iff by blast
  obtain e1 where e1: "e1 \<in> set es1" "set_export env opt e1 = Inr e" using list_all2_in2 [OF es assms(2)] by auto
  obtain e0 where e0: "e0 \<in> set es0" "out_files e1 = out_files e0" "out_dirs e1 = out_dirs e0"
    using name_exports_output [OF es1 e1(1)] by blast
  have "f \<in> set (out_files e0 @ out_dirs e0)" using set_export_output [OF e1(2)] e0 assms(3) by auto
  with default_exports_output [OF es0 e0(1)] show ?thesis by blast
qed

text \<open>The parts of a successful conversion.\<close>

lemma toBuildOpt_steps:
  assumes "toBuildOpt env hp inp t = Inr (bo, t', opened)"
  obtains bi shm ps secrets ssh cf ct x where
    "target_inputs env inp t = Inr bi" "CreateExports env (map (\<lambda>r. hp ! r) (elems (t_Outputs t))) = Inr x"
    "finish_options env t ((plain_options t bi shm ps)\<lparr>bo_SecretSpecs := secrets, bo_SSHSpecs := ssh, bo_CacheFrom := cf,
       bo_CacheTo := ct, bo_Session := [AtSecrets secrets, AtSSH ssh]\<rparr>) x = Inr bo"
    "t' = t\<lparr>t_Context := Some (bi_ContextPath bi)\<rparr>" "opened = xs_opened x"
  using assms unfolding toBuildOpt_def no_files_def Let_def
  by (simp only: rbind_Inr_iff map_err_iff sum.inject prod.inject) blast

lemma finish_options_fields:
  assumes "finish_options env t bo0 x = Inr bo"
  obtains a where "bo_Exports bo = map (annotate a) (xs_outs x)" and "bo_ExportsLocalPathsTemporary bo = xs_paths x"
    and "bo_Allow bo = elems (t_Entitlements t)" and "bo_Attests bo = CreateAttestations (map Attest_ToPB (elems (t_Attest t)))"
    and "bo_Inputs bo = bo_Inputs bo0" and "bo_BuildArgs bo = bo_BuildArgs bo0" and "bo_Labels bo = bo_Labels bo0"
    and "bo_NetworkMode bo = bo_NetworkMode bo0" and "bo_Tags bo = bo_Tags bo0"
proof -
  obtain a p u where "bo = bo0\<lparr>bo_Exports := map (annotate (bv_order env a)) (xs_outs x), bo_ExportsLocalPathsTemporary := xs_paths x,
             bo_Attests := CreateAttestations (map Attest_ToPB (elems (t_Attest t))), bo_SourcePolicy := p,
             bo_Ulimits := u, bo_Allow := elems (t_Entitlements t)\<rparr>"
    using assms unfolding finish_options_def by (auto simp: result_iff)
  then show thesis by (intro that [of "bv_order env a"]) simp_all
qed

lemma toBuildOpt_exports:
  assumes "toBuildOpt env hp inp t = Inr (bo, t', opened)"
  obtains x a where "exports_inv x" and "bo_Exports bo = map (annotate a) (xs_outs x)"
    and "bo_ExportsLocalPathsTemporary bo = xs_paths x" and "opened = xs_opened x"
proof (rule toBuildOpt_steps [OF assms])
  fix bi shm ps secrets ssh cf ct x
  assume "CreateExports env (map (\<lambda>r. hp ! r) (elems (t_Outputs t))) = Inr x" and opened: "opened = xs_opened x"
    and f: "finish_options env t ((plain_options t bi shm ps)\<lparr>bo_SecretSpecs := secrets, bo_SSHSpecs := ssh, bo_CacheFrom := cf,
       bo_CacheTo := ct, bo_Session := [AtSecrets secrets, AtSSH ssh]\<rparr>) x = Inr bo"
  then have "exports_inv x" using CreateExports_inv by blast
  then show thesis using finish_options_fields [OF f] that opened by metis
qed

lemma mget_map_filter:
  assumes "wf_map m"
  shows "mget (List.map_filter (\<lambda>(k, v). map_option (\<lambda>w. (k, w)) v) m) k = (case mget m k of None \<Rightarrow> None | Some v \<Rightarrow> v)"
proof -
  have "map_of (List.map_filter (\<lambda>(k, v). map_option (\<lambda>w. (k, w)) v) m) k = (case map_of m k of None \<Rightarrow> None | Some v \<Rightarrow> v)"
    if "distinct (map fst m)" using that
  proof (induction m)
    case (Cons kv m)
    obtain k' v where kv: "kv = (k', v)" by (cases kv)
    have "map_of m k' = None" using Cons.prems kv by (auto simp: map_of_eq_None_iff)
    then show ?case using Cons kv by (cases v) (auto simp: List.map_filter_simps)
  qed (simp add: List.map_filter_simps)
  then show ?thesis using distinct_mkeys [OF assms] by (simp add: mget_def mkeys_def)
qed

section \<open>Clean inputs\<close>

lemma path_clean_no_cwd [simp]: "\<not> has_prefix ''cwd://'' (path_clean p)"
proof
  assume "has_prefix ''cwd://'' (path_clean p)"
  then have "take 6 (path_clean p) = ''cwd://''" by (simp add: has_prefix_def eval_nat_numeral)
  then have r: "render_path (is_abs p) (path_comps p) = ''cwd://'' @ drop 6 (path_clean p)"
    using append_take_drop_id [of 6 "path_clean p"] by (simp add: path_clean_def)
  define cs where "cs = path_comps p"
  have cs: "norm_comps (is_abs p) cs" by (simp add: cs_def path_comps_norm)
  have rel: "\<not> is_abs p" using r by (cases "is_abs p") (simp_all add: render_path_def)
  then have "cs \<noteq> []" using r by (cases "cs = []") (simp_all add: render_path_def cs_def)
  then have "render_path (is_abs p) cs = join [slash] cs" using rel by (simp add: render_path_def)
  with r have j: "join [slash] cs = ''cwd://'' @ drop 6 (path_clean p)" by (simp only: cs_def)
  have ns: "\<forall>c \<in> set cs. slash \<notin> set c \<and> c \<noteq> []" using norm_comps_no_slash cs by blast
  have "split_on slash (join [slash] cs) = cs" by (rule split_on_join) (use \<open>cs \<noteq> []\<close> ns in auto)
  then have "split_on slash (''cwd://'' @ drop 6 (path_clean p)) = cs" by (simp only: j)
  moreover have "split_on slash (''cwd://'' @ drop 6 (path_clean p)) = ''cwd:'' # [] # split_on slash (drop 6 (path_clean p))" by simp
  ultimately have "[] \<in> set cs" by (metis list.set_intros)
  with ns show False by blast
qed

lemma path_join_no_cwd [simp]: "\<not> has_prefix ''cwd://'' (path_join ps)"
  using path_clean_no_cwd by (auto simp: path_join_def has_prefix_def split: list.splits)

lemma filepath_Abs_no_cwd: "filepath_Abs cwd p = Some q \<Longrightarrow> \<not> has_prefix ''cwd://'' q"
  using path_clean_no_cwd path_join_no_cwd by (auto simp: filepath_Abs_def split: if_splits)

definition no_cwd :: "Inputs \<Rightarrow> bool" where
  "no_cwd bi \<longleftrightarrow> \<not> has_prefix ''cwd://'' (bi_ContextPath bi) \<and> \<not> has_prefix ''cwd://'' (bi_DockerfilePath bi) \<and>
     list_all (\<lambda>(_, v). \<not> has_prefix ''cwd://'' (nc_Path v)) (bi_NamedContexts bi)"

lemma local_inputs_no_cwd:
  "\<not> has_prefix ''cwd://'' (bi_DockerfilePath bi) \<Longrightarrow> no_cwd (local_inputs env bi)"
  by (auto simp: no_cwd_def local_inputs_def Let_def clean_cwd_def list_all_iff split: if_split_asm)

lemma updateContext_dockerfile [simp]: "bi_DockerfilePath (updateContext git inp bi) = bi_DockerfilePath bi"
  by (simp add: updateContext_def Let_def split: option.splits)

lemma target_inputs_no_cwd:
  assumes "target_inputs env inp t = Inr bi"
  shows "no_cwd bi"
proof -
  obtain b1 where b1: "dockerfile_path env inp (updateContext (bv_git env) inp (start_inputs env t)) = Inr b1" "bi = local_inputs env b1"
    using assms by (auto simp: target_inputs_def result_iff split: if_splits)
  have "\<not> has_prefix ''cwd://'' (bi_DockerfilePath b1)"
    using b1(1) filepath_Abs_no_cwd by (auto simp: dockerfile_path_def Let_def split: if_splits option.splits)
  with b1(2) show ?thesis using local_inputs_no_cwd by simp
qed

section \<open>Examples\<close>

definition demo_bake_env :: bake_env where
  "demo_bake_env =
     \<lparr>bv_git = (\<lambda>_. False), bv_gitSSH = (\<lambda>u. u = ''git@host:repo''), bv_cwd = Some ''/w'',
      bv_host = \<lparr>h_GOOS = ''linux'', h_GOARCH = ''amd64'', h_cpuVariant = []\<rparr>, bv_Stat = (\<lambda>_. DestMissing), bv_console = False,
      bv_Create = (\<lambda>_. True), bv_env = (\<lambda>_. None), bv_aws = None, bv_MemBytes = (\<lambda>_. None), bv_secretStore = (\<lambda>_. True),
      bv_sshAgent = (\<lambda>_. True), bv_ulimits = Some, bv_sourcePolicy = Inr None, bv_order = (\<lambda>a. a)\<rparr>"

definition demo_target :: Target where
  "demo_target = defaultTarget
     \<lparr>t_Args := Some [(''A'', Some ''1''), (''B'', None)], t_Context := Some ''cwd://src'', t_Contexts := Some [(''lib'', ''cwd://../lib'')],
      t_Outputs := Some [0], t_Entitlements := Some [''network.host'']\<rparr>"

definition demo_files :: ent_host where
  "demo_files = \<lparr>eh_git = (\<lambda>_. False), eh_cwd = Some ''/w'', eh_lstat = (\<lambda>p. if p = ''/w'' \<or> p = ''/etc'' then LDir else LNotExist)\<rparr>"

definition demo_outputs :: heap where
  "demo_outputs = [\<lparr>ee_Type = ''tar'', ee_Attrs = None, ee_Destination = ''/etc/passwd''\<rparr>]"

text \<open>A context or Dockerfile that is cleaned to a dash passes the check for the standard input, and is then read from an
  input stream that bake does not have.\<close>

lemma bake_stdin_panics:
  "(case toBuildOpt demo_bake_env [] None (defaultTarget\<lparr>t_Context := Some ''./-''\<rparr>) of
      Inl _ \<Rightarrow> False
    | Inr (bo, _) \<Rightarrow> bi_ContextPath (bo_Inputs bo) = ''-'' \<and>
        (case toSolveOpt (demo_solve_env (\<lambda>_. None)) [] False bo of Inl e \<Rightarrow> e = ([], SoPanicNil) | Inr _ \<Rightarrow> False))"
  by code_simp

text \<open>A named context of the current directory is meant to be the remote input itself and becomes a copy of it.\<close>

lemma named_dot_is_copied:
  "\<not> git ''.'' \<Longrightarrow> update_named git url \<lparr>nc_Path = ''.'', nc_State = st\<rparr> = \<lparr>nc_Path = [], nc_State = Some (LlbCopy ''.'' False)\<rparr>"
  by (simp add: update_named_def IsRemoteURL_def isHTTPURL_def has_prefix_def)

text \<open>The SSH settings of a target are dropped when the bake file itself comes over SSH.\<close>

lemma ssh_settings_dropped:
  "bv_gitSSH env (in_URL i) \<Longrightarrow> target_ssh env bi (Some i) t = [\<lparr>ss_ID = ''default'', ss_Paths = []\<rparr>]"
  by (simp add: target_ssh_def)

text \<open>A target that calls \<open>build\<close>, which is the default, ends the program.\<close>

lemma call_build_panics:
  "bo_CallFunc bo = Some \<lparr>cf_Name = ''build'', cf_Format = fmt, cf_IgnoreStatus = i\<rparr> \<Longrightarrow> check_call (k, bo) = Inl BoPanicCallFunc"
proof -
  assume "bo_CallFunc bo = Some \<lparr>cf_Name = ''build'', cf_Format = fmt, cf_IgnoreStatus = i\<rparr>"
  moreover have "(case ParseCallFunc ''build'' of Inr None \<Rightarrow> True | _ \<Rightarrow> False)" by code_simp
  then have "ParseCallFunc ''build'' = Inr None" by (auto split: sum.splits option.splits)
  ultimately show ?thesis by (simp add: check_call_def)
qed

text \<open>The file of an output is opened, and so truncated, before the user is asked for the entitlement to write it.\<close>

lemma bake_opens_before_asking:
  "case bake_prepare demo_bake_env demo_files no_conf demo_outputs None [(''t'', demo_target)] of
     Inl _ \<Rightarrow> False
   | Inr (_, missing, opened) \<Rightarrow> opened = [''/etc/passwd''] \<and> ec_FSWrite missing \<noteq> []"
  by code_simp

section \<open>Properties\<close>



text \<open>C21 (writes_checked): every file and directory of the host that the exports of a request write is a path that the
  entitlements of bake check for writing, every file that was opened on the way is one too, and at most one export
  writes to the standard output.\<close>

theorem writes_checked:
  assumes "toBuildOpt env hp inp t = Inr (bo, t', opened)" and "toSolveOpt senv order multiDriver bo = Inr (so, opt', rm)"
    and "e \<in> set (sv_Exports so)"
  shows "set (out_files e @ out_dirs e) \<subseteq> set (write_paths bo) \<and> set opened \<subseteq> set (write_paths bo) \<and>
    length (filter (\<lambda>e. ce_Output e = Some OutStdout) (bo_Exports bo)) \<le> 1"
proof -
  obtain x a where x: "exports_inv x" "bo_Exports bo = map (annotate a) (xs_outs x)"
      "bo_ExportsLocalPathsTemporary bo = xs_paths x" "opened = xs_opened x"
    by (rule toBuildOpt_exports [OF assms(1)])
  obtain attrs es l so1 where l: "loadInputs senv order (bo_Inputs bo) (solve_start senv bo attrs es) = Inr l"
      and so1: "sv_Exports so1 = sv_Exports (ld_so l)" and so: "last_attrs senv bo so1 = Inr so" and es: "solve_exports senv bo = Inr es"
    by (rule toSolveOpt_steps [OF assms(2)])
  have "e \<in> set es" using loadInputs_keeps [OF l] last_attrs_rest(4) [OF so] so1 assms(3) by (simp add: kept_def solve_start_def)
  have "f \<in> set (write_paths bo)" if f: "f \<in> set (out_files e @ out_dirs e)" for f
  proof -
    obtain e0 where "e0 \<in> set (bo_Exports bo)" "f \<in> set (out_files e0 @ out_dirs e0)"
      using solve_exports_output [OF es \<open>e \<in> set es\<close> f] by blast
    then show ?thesis using x by (auto simp: write_paths_def exports_inv_def)
  qed
  moreover have "set opened \<subseteq> set (write_paths bo)" using x by (auto simp: write_paths_def exports_inv_def)
  moreover have "length (filter (\<lambda>e. ce_Output e = Some OutStdout) (bo_Exports bo)) \<le> 1"
    using x(1) by (simp add: x(2) exports_inv_def filter_map comp_def)
  ultimately show ?thesis by blast
qed

theorem writes_checked_witness:
  "\<exists>bo so opt' rm e. toBuildOpt demo_bake_env demo_outputs None demo_target = Inr (bo, demo_target\<lparr>t_Context := Some ''src''\<rparr>, [''/etc/passwd'']) \<and>
     toSolveOpt (demo_solve_env (\<lambda>_. Some True)) [(''lib'', \<lparr>nc_Path = ''../lib'', nc_State = None\<rparr>)] False bo = Inr (so, opt', rm) \<and>
     e \<in> set (sv_Exports so) \<and> out_files e = [''/etc/passwd''] \<and> ''/etc/passwd'' \<in> set (write_paths bo)"
proof -
  let ?env = "demo_solve_env (\<lambda>_. Some True)" and ?order = "[(''lib'', \<lparr>nc_Path = ''../lib'', nc_State = None\<rparr>)]"
  have c: "case toBuildOpt demo_bake_env demo_outputs None demo_target of
      Inl _ \<Rightarrow> False
    | Inr (bo, t', opened) \<Rightarrow> t' = demo_target\<lparr>t_Context := Some ''src''\<rparr> \<and> opened = [''/etc/passwd''] \<and>
        (case toSolveOpt ?env ?order False bo of
           Inl _ \<Rightarrow> False | Inr (so, _) \<Rightarrow> map out_files (sv_Exports so) = [[''/etc/passwd'']])"
    by code_simp
  obtain bo where bo: "toBuildOpt demo_bake_env demo_outputs None demo_target = Inr (bo, demo_target\<lparr>t_Context := Some ''src''\<rparr>, [''/etc/passwd''])"
    using c by (cases "toBuildOpt demo_bake_env demo_outputs None demo_target") auto
  obtain so opt' rm where so: "toSolveOpt ?env ?order False bo = Inr (so, opt', rm)" "map out_files (sv_Exports so) = [[''/etc/passwd'']]"
    using c unfolding bo by (cases "toSolveOpt ?env ?order False bo") auto
  then obtain e where e: "e \<in> set (sv_Exports so)" "out_files e = [''/etc/passwd'']" by auto
  have "''/etc/passwd'' \<in> set (write_paths bo)" using writes_checked [OF bo so(1) e(1)] e(2) by simp
  with bo so(1) e show ?thesis by blast
qed

end
